(* ===== verification/Prelude.thy ===== *)
theory Prelude
  imports Main "HOL-Library.Char_ord" "HOL-Library.List_Lexorder" "HOL-Library.Product_Lexorder"
begin

text \<open>
  What every theory of the development shares: the effect type of code that talks to the
  database (explicit state passing with a Go error value as the left summand), the loops over
  such code, the fact collections the component proofs use, and the generic lemmas about lists,
  keyed tables and sorting by a key.
\<close>

named_theorems io_simps \<open>unfolding rules of the effect combinators\<close>
named_theorems frame \<open>what an operation leaves alone\<close>
named_theorems quiet_rules \<open>behaviour of the operations when no driver call fails\<close>
named_theorems keeps_intros \<open>closure rules of the invariants under the effect combinators\<close>

section \<open>Errors\<close>

text \<open>
  A Go \<^verbatim>\<open>error\<close> value, by what the callers of the store distinguish with
  \<^verbatim>\<open>errors.Is\<close>: the package's three sentinel errors, SQLSTATE 23505, any other failure of
  the driver or the server, and an error of the code's own with its message.
\<close>

datatype err =
    ErrNotFound
  | ErrConflict
  | ErrInvalidSubmission string
  | ErrUnique
  | ErrDriver
  | ErrMsg string

type_synonym ('w, 'a) io = "'w \<Rightarrow> (err + 'a) \<times> 'w"

definition ok :: "'a \<Rightarrow> ('w, 'a) io" where
  "ok x = (\<lambda>w. (Inr x, w))"

definition fail :: "err \<Rightarrow> ('w, 'a) io" where
  "fail e = (\<lambda>w. (Inl e, w))"

text \<open>\<open>andthen m k\<close> is \<^verbatim>\<open>x, err := m(); if err != nil { return err }; k(x)\<close>.\<close>

definition andthen :: "('w, 'a) io \<Rightarrow> ('a \<Rightarrow> ('w, 'b) io) \<Rightarrow> ('w, 'b) io" where
  "andthen m k = (\<lambda>w. case m w of (Inl e, w') \<Rightarrow> (Inl e, w') | (Inr x, w') \<Rightarrow> k x w')"

text \<open>\<open>attempt m k\<close> hands the error to the continuation, which inspects it.\<close>

definition attempt :: "('w, 'a) io \<Rightarrow> (err + 'a \<Rightarrow> ('w, 'b) io) \<Rightarrow> ('w, 'b) io" where
  "attempt m k = (\<lambda>w. case m w of (r, w') \<Rightarrow> k r w')"

text \<open>\<open>lift_err\<close> returns a result computed without effects.\<close>

definition lift_err :: "err + 'a \<Rightarrow> ('w, 'a) io" where
  "lift_err r = (\<lambda>w. (r, w))"

text \<open>A loop that stops at the first error, collecting the results.\<close>

fun for_each :: "('a \<Rightarrow> ('w, 'b) io) \<Rightarrow> 'a list \<Rightarrow> ('w, 'b list) io" where
  "for_each f [] = ok []"
| "for_each f (x # xs) =
     andthen (f x) (\<lambda>y. andthen (for_each f xs) (\<lambda>ys. ok (y # ys)))"

lemma ok_apply [simp, io_simps]: "ok x w = (Inr x, w)"
  by (simp add: ok_def)

lemma fail_apply [simp, io_simps]: "fail e w = (Inl e, w)"
  by (simp add: fail_def)

lemma lift_err_apply [simp, io_simps]: "lift_err r w = (r, w)"
  by (simp add: lift_err_def)

lemma andthen_apply [io_simps]:
  "andthen m k w = (case m w of (Inl e, w') \<Rightarrow> (Inl e, w') | (Inr x, w') \<Rightarrow> k x w')"
  by (simp add: andthen_def)

lemma attempt_apply [io_simps]: "attempt m k w = (case m w of (r, w') \<Rightarrow> k r w')"
  by (simp add: attempt_def)

lemma andthen_Inr [simp]: "m w = (Inr x, w') \<Longrightarrow> andthen m k w = k x w'"
  by (simp add: andthen_def)

lemma andthen_Inl [simp]: "m w = (Inl e, w') \<Longrightarrow> andthen m k w = (Inl e, w')"
  by (simp add: andthen_def)

lemma attempt_eq [simp]: "m w = (r, w') \<Longrightarrow> attempt m k w = k r w'"
  by (simp add: attempt_def)

lemma andthen_Inr_E:
  assumes "andthen m k w = (Inr y, w2)"
  obtains x w1 where "m w = (Inr x, w1)" and "k x w1 = (Inr y, w2)"
  using assms by (auto simp: andthen_def split: prod.splits sum.splits)

lemma andthen_E:
  assumes "andthen m k w = (r, w2)"
  obtains (stops) e where "m w = (Inl e, w2)" and "r = Inl e"
    | (goes) x w1 where "m w = (Inr x, w1)" and "k x w1 = (r, w2)"
  using assms by (auto simp: andthen_def split: prod.splits sum.splits)

lemma andthen_assoc: "andthen (andthen m f) g = andthen m (\<lambda>x. andthen (f x) g)"
  by (rule ext) (auto simp: andthen_def split: prod.splits sum.splits)

section \<open>Invariants of effects\<close>

text \<open>
  \<open>keeps I m\<close>: whatever \<open>m\<close> returns, an error included, a state with \<open>I\<close> is left in a state
  with \<open>I\<close>. The closure rules carry an invariant of the single statements to every operation
  composed of them.
\<close>

definition keeps :: "('w \<Rightarrow> bool) \<Rightarrow> ('w, 'a) io \<Rightarrow> bool" where
  "keeps I m \<longleftrightarrow> (\<forall>w. I w \<longrightarrow> I (snd (m w)))"

lemma keepsI: "(\<And>w. I w \<Longrightarrow> I (snd (m w))) \<Longrightarrow> keeps I m"
  by (simp add: keeps_def)

lemma keepsD: "keeps I m \<Longrightarrow> I w \<Longrightarrow> I (snd (m w))"
  by (simp add: keeps_def)

lemma keeps_ok [keeps_intros]: "keeps I (ok x)"
  by (simp add: keeps_def)

lemma keeps_fail [keeps_intros]: "keeps I (fail e)"
  by (simp add: keeps_def)

lemma keeps_lift_err [keeps_intros]: "keeps I (lift_err r)"
  by (simp add: keeps_def)

lemma keeps_andthen [keeps_intros]:
  "keeps I m \<Longrightarrow> (\<And>x. keeps I (k x)) \<Longrightarrow> keeps I (andthen m k)"
  by (fastforce simp: keeps_def andthen_def split: prod.splits sum.splits)

lemma keeps_attempt [keeps_intros]:
  "keeps I m \<Longrightarrow> (\<And>r. keeps I (k r)) \<Longrightarrow> keeps I (attempt m k)"
  by (fastforce simp: keeps_def attempt_def split: prod.splits)

lemma keeps_attempt_of:
  "keeps I m \<Longrightarrow> (\<And>r w w'. m w = (r, w') \<Longrightarrow> keeps I (k r)) \<Longrightarrow> keeps I (attempt m k)"
  by (fastforce simp: keeps_def attempt_def split: prod.splits)

lemma keeps_for_each [keeps_intros]:
  "(\<And>x. keeps I (f x)) \<Longrightarrow> keeps I (for_each f xs)"
  by (induction xs) (auto intro!: keeps_intros)

lemma keeps_if [keeps_intros]:
  "(b \<Longrightarrow> keeps I m) \<Longrightarrow> (\<not> b \<Longrightarrow> keeps I n) \<Longrightarrow> keeps I (if b then m else n)"
  by simp

lemma keeps_case_option [keeps_intros]:
  "(x = None \<Longrightarrow> keeps I m) \<Longrightarrow> (\<And>y. x = Some y \<Longrightarrow> keeps I (f y)) \<Longrightarrow>
   keeps I (case x of None \<Rightarrow> m | Some y \<Rightarrow> f y)"
  by (cases x) simp_all

lemma keeps_case_sum [keeps_intros]:
  "(\<And>e. x = Inl e \<Longrightarrow> keeps I (f e)) \<Longrightarrow> (\<And>y. x = Inr y \<Longrightarrow> keeps I (g y)) \<Longrightarrow>
   keeps I (case x of Inl e \<Rightarrow> f e | Inr y \<Rightarrow> g y)"
  by (cases x) simp_all

lemma keeps_case_prod [keeps_intros]:
  "(\<And>a b. x = (a, b) \<Longrightarrow> keeps I (f a b)) \<Longrightarrow> keeps I (case x of (a, b) \<Rightarrow> f a b)"
  by (cases x) simp

lemma keeps_case_err [keeps_intros]:
  "keeps I a \<Longrightarrow> keeps I b \<Longrightarrow> (\<And>m. keeps I (c m)) \<Longrightarrow> keeps I d \<Longrightarrow> keeps I f \<Longrightarrow>
   (\<And>m. keeps I (g m)) \<Longrightarrow>
   keeps I (case e of ErrNotFound \<Rightarrow> a | ErrConflict \<Rightarrow> b | ErrInvalidSubmission m \<Rightarrow> c m
                    | ErrUnique \<Rightarrow> d | ErrDriver \<Rightarrow> f | ErrMsg m \<Rightarrow> g m)"
  by (cases e) simp_all

lemma keeps_case_list [keeps_intros]:
  "(x = [] \<Longrightarrow> keeps I m) \<Longrightarrow> (\<And>y ys. x = y # ys \<Longrightarrow> keeps I (f y ys)) \<Longrightarrow>
   keeps I (case x of [] \<Rightarrow> m | y # ys \<Rightarrow> f y ys)"
  by (cases x) simp_all

lemma keeps_Let [keeps_intros]: "keeps I (f x) \<Longrightarrow> keeps I (Let x f)"
  by simp

section \<open>Tables\<close>

text \<open>
  A table is the list of its rows. \<open>upsert hit new upd t\<close> is
  \<^verbatim>\<open>INSERT ... ON CONFLICT (key) DO UPDATE\<close>: the rows with the conflicting key are updated in
  place, and the new row is appended where there is none.
\<close>

definition upsert :: "('r \<Rightarrow> bool) \<Rightarrow> 'r \<Rightarrow> ('r \<Rightarrow> 'r) \<Rightarrow> 'r list \<Rightarrow> 'r list" where
  "upsert hit new upd t =
     (if list_ex hit t then map (\<lambda>r. if hit r then upd r else r) t else t @ [new])"

definition update_where :: "('r \<Rightarrow> bool) \<Rightarrow> ('r \<Rightarrow> 'r) \<Rightarrow> 'r list \<Rightarrow> 'r list" where
  "update_where hit upd t = map (\<lambda>r. if hit r then upd r else r) t"

lemma find_SomeD: "find P xs = Some x \<Longrightarrow> x \<in> set xs \<and> P x"
  by (auto simp: find_Some_iff)

lemma find_append: "find P (xs @ ys) = (case find P xs of None \<Rightarrow> find P ys | Some x \<Rightarrow> Some x)"
  by (induction xs) auto

lemma find_distinct_key:
  assumes "distinct (map key xs)" and "x \<in> set xs" and "\<And>y. P y \<longleftrightarrow> key y = key x"
  shows "find P xs = Some x"
  using assms by (induction xs) (auto simp: image_iff)

lemma filter_distinct_key:
  "distinct (map key xs) \<Longrightarrow> x \<in> set xs \<Longrightarrow> filter (\<lambda>y. key y = key x) xs = [x]"
  by (induction xs) (auto simp: filter_empty_conv image_iff)

lemma map_key_update_where:
  "(\<And>r. hit r \<Longrightarrow> key (upd r) = key r) \<Longrightarrow> map key (update_where hit upd t) = map key t"
  by (induction t) (auto simp: update_where_def)

lemma set_update_where:
  "set (update_where hit upd t) = (\<lambda>r. if hit r then upd r else r) ` set t"
  by (simp add: update_where_def)

lemma length_update_where [simp]: "length (update_where hit upd t) = length t"
  by (simp add: update_where_def)

lemma find_update_where_miss:
  assumes "\<And>r. hit r \<Longrightarrow> \<not> P r" and "\<And>r. hit r \<Longrightarrow> \<not> P (upd r)"
  shows "find P (update_where hit upd t) = find P t"
  using assms by (induction t) (auto simp: update_where_def)

lemma find_update_where_hit:
  assumes "\<And>r. hit r \<Longrightarrow> P (upd r) = P r"
  shows "find P (update_where hit upd t) = map_option (\<lambda>r. if hit r then upd r else r) (find P t)"
  using assms by (induction t) (auto simp: update_where_def)

lemma distinct_key_upsert:
  assumes "distinct (map key t)" and "\<And>r. hit r \<longleftrightarrow> key r = key new"
    and "\<And>r. hit r \<Longrightarrow> key (upd r) = key r"
  shows "distinct (map key (upsert hit new upd t))"
proof (cases "list_ex hit t")
  case True
  have "map key (update_where hit upd t) = map key t"
    using assms(3) by (rule map_key_update_where)
  with True assms(1) show ?thesis
    by (simp only: upsert_def update_where_def if_True)
next
  case False
  then have "key new \<notin> set (map key t)"
    using assms(2) by (auto simp: list_ex_iff)
  with False assms(1) show ?thesis by (simp add: upsert_def)
qed

lemma set_upsert_subset:
  "set (upsert hit new upd t) \<subseteq> insert new (set t \<union> upd ` {r \<in> set t. hit r})"
  by (auto simp: upsert_def)

lemma find_upsert:
  assumes "\<And>r. hit r \<Longrightarrow> hit (upd r)" and "hit new"
  shows "find hit (upsert hit new upd t) =
         Some (case find hit t of None \<Rightarrow> new | Some r \<Rightarrow> upd r)"
  using assms by (induction t) (auto simp: upsert_def)

lemma find_upsert_other:
  assumes "\<And>r. hit r \<Longrightarrow> \<not> P r" and "\<And>r. hit r \<Longrightarrow> \<not> P (upd r)" and "\<not> P new"
  shows "find P (upsert hit new upd t) = find P t"
proof (cases "list_ex hit t")
  case True
  with find_update_where_miss [of hit P upd t] assms show ?thesis
    by (simp add: upsert_def update_where_def)
next
  case False
  with assms show ?thesis
    by (simp add: upsert_def) (induction t; simp)
qed

section \<open>Sorting by a key\<close>

lemma sort_key_unique:
  assumes "set xs = set ys" and "distinct (map f xs)" and "distinct (map f ys)"
  shows "sort_key f xs = sort_key f ys"
proof (rule map_sorted_distinct_set_unique [where f = f])
  show "inj_on f (set (sort_key f xs) \<union> set (sort_key f ys))"
    using assms by (simp add: distinct_map)
qed (use assms in \<open>simp_all add: distinct_map\<close>)

end
