(* ===== verification/GoText.thy ===== *)
theory GoText
  imports Prelude
begin

text \<open>
  The parts of Go's standard library the registry uses on bytes and text: \<^verbatim>\<open>strings\<close>
  (TrimSpace, ToLower and EqualFold on ASCII, Split, TrimPrefix), \<^verbatim>\<open>encoding/hex\<close>,
  \<^verbatim>\<open>encoding/base64\<close> (the padded standard alphabet and the unpadded URL alphabet), the
  RFC 3339 layout of \<^verbatim>\<open>time.Time.Format\<close> and the quoting of \<^verbatim>\<open>encoding/json\<close>. A Go string is
  its bytes, a \<open>char list\<close>. The lemmas are the round trips and the alphabet facts the
  credential and the signature rest on.
\<close>

section \<open>strings\<close>

definition byte :: "char \<Rightarrow> nat" where
  "byte c = of_char c"

definition bytes :: "nat list \<Rightarrow> string" where
  "bytes ns = map char_of ns"

definition quoted :: "string \<Rightarrow> string" where
  "quoted s = CHR 0x22 # s @ [CHR 0x22]"

definition is_ascii :: "string \<Rightarrow> bool" where
  "is_ascii s = list_all (\<lambda>c. byte c < 128) s"

text \<open>The UTF-8 encodings of the runes for which \<^verbatim>\<open>unicode.IsSpace\<close> holds.\<close>

definition ws_runes :: "string list" where
  "ws_runes =
    [[CHR 0x09], [CHR 0x0A], [CHR 0x0B], [CHR 0x0C], [CHR 0x0D], [CHR 0x20], [CHR 0xC2,
      CHR 0x85], [CHR 0xC2, CHR 0xA0], [CHR 0xE1, CHR 0x9A, CHR 0x80], [CHR 0xE2, 
      CHR 0x80, CHR 0x80], [CHR 0xE2, CHR 0x80, CHR 0x81], [CHR 0xE2, CHR 0x80, CHR 0x82],
      [CHR 0xE2, CHR 0x80, CHR 0x83], [CHR 0xE2, CHR 0x80, CHR 0x84], [CHR 0xE2, CHR 0x80,
      CHR 0x85], [CHR 0xE2, CHR 0x80, CHR 0x86], [CHR 0xE2, CHR 0x80, CHR 0x87], [
      CHR 0xE2, CHR 0x80, CHR 0x88], [CHR 0xE2, CHR 0x80, CHR 0x89], [CHR 0xE2, CHR 0x80, 
      CHR 0x8A], [CHR 0xE2, CHR 0x80, CHR 0xA8], [CHR 0xE2, CHR 0x80, CHR 0xA9], [CHR 0xE2,
      CHR 0x80, CHR 0xAF], [CHR 0xE2, CHR 0x81, CHR 0x9F], [CHR 0xE3, CHR 0x80, CHR 0x80]]"

function strip :: "string list \<Rightarrow> string \<Rightarrow> string" where
  "strip ws s =
     (case find (\<lambda>w. w \<noteq> [] \<and> take (length w) s = w) ws of
        None \<Rightarrow> s
      | Some w \<Rightarrow> strip ws (drop (length w) s))"
  by pat_completeness auto
termination
proof (relation "measure (\<lambda>(ws, s). length s)")
  fix ws :: "string list" and s w
  assume "find (\<lambda>w. w \<noteq> [] \<and> take (length w) s = w) ws = Some w"
  then have "w \<noteq> []" and "take (length w) s = w"
    by (auto dest: find_SomeD)
  then show "((ws, drop (length w) s), ws, s) \<in> measure (\<lambda>(ws, s). length s)"
    by (cases s) auto
qed simp

declare strip.simps [simp del]

definition trim_space :: "string \<Rightarrow> string" where
  "trim_space s = rev (strip (map rev ws_runes) (rev (strip ws_runes s)))"

definition ascii_lower :: "char \<Rightarrow> char" where
  "ascii_lower c = (if 65 \<le> byte c \<and> byte c \<le> 90 then char_of (byte c + 32) else c)"

text \<open>
  \<^verbatim>\<open>strings.EqualFold\<close> against a literal whose letters fold to nothing outside ASCII: two strings
  are equal when their ASCII lower-case forms are.
\<close>

definition equal_fold :: "string \<Rightarrow> string \<Rightarrow> bool" where
  "equal_fold s t \<longleftrightarrow> map ascii_lower s = map ascii_lower t"

fun split_on :: "char \<Rightarrow> string \<Rightarrow> string list" where
  "split_on c [] = [[]]"
| "split_on c (x # xs) =
     (if x = c then [] # split_on c xs
      else case split_on c xs of [] \<Rightarrow> [[x]] | p # ps \<Rightarrow> (x # p) # ps)"

text \<open>\<^verbatim>\<open>strings.SplitN(s, sep, 2)[0]\<close> for a one-byte separator.\<close>

definition before_first :: "char \<Rightarrow> string \<Rightarrow> string" where
  "before_first c s = takeWhile (\<lambda>x. x \<noteq> c) s"

definition trim_prefix :: "string \<Rightarrow> string \<Rightarrow> string" where
  "trim_prefix p s = (if take (length p) s = p then drop (length p) s else s)"

lemma split_on_nonempty [simp]: "split_on c s \<noteq> []"
  by (induction s) (auto split: list.splits)

lemma split_on_no_sep: "c \<notin> set s \<Longrightarrow> split_on c s = [s]"
  by (induction s) auto

lemma split_on_append: "c \<notin> set s \<Longrightarrow> split_on c (s @ c # t) = s # split_on c t"
  by (induction s) auto

text \<open>Characters that begin no white-space rune, read from either end.\<close>

definition solid :: "char \<Rightarrow> bool" where
  "solid c \<longleftrightarrow> 33 \<le> byte c \<and> byte c < 127"

lemma byte_less_256: "byte c < 256"
  by (simp add: byte_def)

lemma char_of_byte: "char_of (byte c) = c"
  by (simp add: byte_def)

definition spacey :: "nat \<Rightarrow> bool" where
  "spacey n \<longleftrightarrow> n < 33 \<or> 127 < n"

lemma ws_runes_ends:
  "list_all (\<lambda>w. w \<noteq> [] \<and> spacey (byte (hd w)) \<and> spacey (byte (last w))) ws_runes"
  by (simp add: ws_runes_def byte_def spacey_def)

lemma strip_solid:
  assumes "s \<noteq> []" and "solid (hd s)"
    and "list_all (\<lambda>w. w \<noteq> [] \<and> spacey (byte (hd w))) ws"
  shows "strip ws s = s"
proof -
  have "find (\<lambda>w. w \<noteq> [] \<and> take (length w) s = w) ws = None"
  proof (unfold find_None_iff, safe)
    fix w assume w: "w \<in> set ws" "w \<noteq> []" "take (length w) s = w"
    then have "hd w = hd s"
      by (metis hd_take length_greater_0_conv)
    moreover have "spacey (byte (hd w))"
      using w(1) assms(3) by (auto simp: list_all_iff)
    ultimately show False
      using assms(2) by (simp add: solid_def spacey_def)
  qed
  then show ?thesis by (simp add: strip.simps [of ws s])
qed

lemma strip_Nil [simp]: "strip ws [] = []"
proof -
  have "find (\<lambda>w. w \<noteq> [] \<and> take (length w) [] = w) ws = None"
    by (auto simp: find_None_iff)
  then show ?thesis by (subst strip.simps) simp
qed

lemma strip_blank: "strip ws_runes (CHR '' '' # s) = strip ws_runes s"
  by (subst strip.simps) (simp add: ws_runes_def)

lemma trim_space_solid:
  assumes "s \<noteq> []" and "list_all solid s"
  shows "trim_space s = s"
proof -
  have "strip ws_runes s = s"
    using assms ws_runes_ends
    by (intro strip_solid) (auto simp: list_all_iff)
  moreover have "strip (map rev ws_runes) (rev s) = rev s"
  proof (rule strip_solid)
    show "solid (hd (rev s))" using assms by (simp add: list_all_iff hd_rev)
    show "list_all (\<lambda>w. w \<noteq> [] \<and> spacey (byte (hd w))) (map rev ws_runes)"
      using ws_runes_ends by (simp add: list_all_iff hd_rev)
  qed (use assms in simp)
  ultimately show ?thesis by (simp add: trim_space_def)
qed

lemma strip_blanks: "strip ws_runes (replicate k (CHR '' '') @ s) = strip ws_runes s"
  by (induction k) (simp_all add: strip_blank)

lemma strip_rev_blank: "strip (map rev ws_runes) (CHR '' '' # s) = strip (map rev ws_runes) s"
  by (subst strip.simps) (simp add: ws_runes_def)

lemma strip_rev_blanks: "strip (map rev ws_runes) (replicate k (CHR '' '') @ s) = strip (map rev ws_runes) s"
  by (induction k) (simp_all add: strip_rev_blank)

lemma trim_space_blanks:
  assumes "s \<noteq> []" and "list_all solid s"
  shows "trim_space (replicate k (CHR '' '') @ s @ replicate j (CHR '' '')) = s"
proof -
  have "strip ws_runes (s @ replicate j (CHR '' '')) = s @ replicate j (CHR '' '')"
    using assms ws_runes_ends by (intro strip_solid) (cases s; auto simp: list_all_iff)+
  moreover have "strip (map rev ws_runes) (rev s) = rev s"
    using trim_space_solid [OF assms] strip_solid [of s ws_runes] assms ws_runes_ends
    by (cases s) (auto simp: trim_space_def list_all_iff)
  ultimately show ?thesis
    by (simp add: trim_space_def strip_blanks strip_rev_blanks)
qed

lemma strip_idem: "strip ws (strip ws s) = strip ws s"
proof (induction ws s rule: strip.induct)
  case (1 ws s)
  show ?case
  proof (cases "find (\<lambda>w. w \<noteq> [] \<and> take (length w) s = w) ws")
    case None
    then show ?thesis by (simp add: strip.simps [of ws s])
  next
    case (Some w)
    then show ?thesis using "1.IH" by (simp add: strip.simps [of ws s])
  qed
qed

section \<open>encoding/hex\<close>

definition hex_digits :: string where
  "hex_digits = ''0123456789abcdef''"

definition hex_encode :: "string \<Rightarrow> string" where
  "hex_encode s = concat (map (\<lambda>c. [hex_digits ! (byte c div 16), hex_digits ! (byte c mod 16)]) s)"

definition index_of :: "string \<Rightarrow> char \<Rightarrow> nat option" where
  "index_of al c = (case find (\<lambda>p. fst p = c) (zip al [0..<length al]) of
     None \<Rightarrow> None | Some p \<Rightarrow> Some (snd p))"

fun hex_decode :: "string \<Rightarrow> string option" where
  "hex_decode [] = Some []"
| "hex_decode [c] = None"
| "hex_decode (c # d # s) =
     (case (index_of hex_digits c, index_of hex_digits d, hex_decode s) of
        (Some h, Some l, Some t) \<Rightarrow> Some (char_of (16 * h + l) # t)
      | _ \<Rightarrow> None)"

lemma index_of_nth:
  assumes "distinct al" and "i < length al"
  shows "index_of al (al ! i) = Some i"
proof -
  have "find (\<lambda>p. fst p = al ! i) (zip al [0..<length al]) = Some (al ! i, i)"
    using assms by (subst find_distinct_key [where key = fst and x = "(al ! i, i)"])
      (auto simp: set_zip)
  then show ?thesis by (simp add: index_of_def)
qed

lemma index_of_notin: "c \<notin> set al \<Longrightarrow> index_of al c = None"
  by (auto simp: index_of_def split: option.splits dest!: find_SomeD set_zip_leftD)

lemma hex_digits_facts: "distinct hex_digits" "length hex_digits = 16"
  by (simp_all add: hex_digits_def)

lemma hex_encode_simps [simp]:
  "hex_encode [] = []"
  "hex_encode (c # s) = hex_digits ! (byte c div 16) # hex_digits ! (byte c mod 16) # hex_encode s"
  by (simp_all add: hex_encode_def)

lemma length_hex_encode [simp]: "length (hex_encode s) = 2 * length s"
  by (induction s) auto

lemma hex_decode_encode: "hex_decode (hex_encode s) = Some s"
proof (induction s)
  case (Cons c s)
  have "byte c div 16 < 16" using byte_less_256 [of c] by simp
  then show ?case
    using Cons by (simp add: index_of_nth hex_digits_facts char_of_byte)
qed simp

section \<open>encoding/base64\<close>

definition std_alphabet :: string where
  "std_alphabet = ''ABCDEFGHIJKLMNOPQRSTUVWXYZabcdefghijklmnopqrstuvwxyz0123456789+/''"

definition url_alphabet :: string where
  "url_alphabet = ''ABCDEFGHIJKLMNOPQRSTUVWXYZabcdefghijklmnopqrstuvwxyz0123456789-_''"

fun b64_enc :: "string \<Rightarrow> bool \<Rightarrow> nat list \<Rightarrow> string" where
  "b64_enc al pad [] = []"
| "b64_enc al pad [a] =
     [al ! (a div 4), al ! (a mod 4 * 16)] @ (if pad then ''=='' else [])"
| "b64_enc al pad [a, b] =
     [al ! (a div 4), al ! (a mod 4 * 16 + b div 16), al ! (b mod 16 * 4)] @
     (if pad then ''='' else [])"
| "b64_enc al pad (a # b # c # r) =
     [al ! (a div 4), al ! (a mod 4 * 16 + b div 16), al ! (b mod 16 * 4 + c div 64),
      al ! (c mod 64)] @ b64_enc al pad r"

text \<open>
  \<^verbatim>\<open>base64.StdEncoding.DecodeString\<close>: carriage returns and line feeds are skipped, the rest is
  read in groups of four, the last of which may end in padding; the decoder is not strict about
  the bits the padding leaves over.
\<close>

fun b64_dec :: "string \<Rightarrow> string \<Rightarrow> nat list option" where
  "b64_dec al [] = Some []"
| "b64_dec al (c0 # c1 # c2 # c3 # r) =
     (case (index_of al c0, index_of al c1) of
        (Some x0, Some x1) \<Rightarrow>
          (case index_of al c2 of
             None \<Rightarrow>
               if c2 = CHR ''='' \<and> c3 = CHR ''='' \<and> r = [] then Some [x0 * 4 + x1 div 16] else None
           | Some x2 \<Rightarrow>
               (case index_of al c3 of
                  None \<Rightarrow>
                    if c3 = CHR ''='' \<and> r = []
                    then Some [x0 * 4 + x1 div 16, x1 mod 16 * 16 + x2 div 4] else None
                | Some x3 \<Rightarrow>
                    map_option (\<lambda>ns. [x0 * 4 + x1 div 16, x1 mod 16 * 16 + x2 div 4,
                                      x2 mod 4 * 64 + x3] @ ns) (b64_dec al r)))
      | _ \<Rightarrow> None)"
| "b64_dec al _ = None"

definition std_encode :: "string \<Rightarrow> string" where
  "std_encode s = b64_enc std_alphabet True (map byte s)"

definition std_decode :: "string \<Rightarrow> string option" where
  "std_decode s =
     map_option bytes (b64_dec std_alphabet (filter (\<lambda>c. byte c \<noteq> 10 \<and> byte c \<noteq> 13) s))"

definition raw_url_encode :: "string \<Rightarrow> string" where
  "raw_url_encode s = b64_enc url_alphabet False (map byte s)"

lemma std_alphabet_facts: "distinct std_alphabet" "length std_alphabet = 64" "CHR ''='' \<notin> set std_alphabet"
  by (simp_all add: std_alphabet_def)

lemma url_alphabet_facts: "distinct url_alphabet" "length url_alphabet = 64"
  by (simp_all add: url_alphabet_def)

lemma six_bits:
  fixes a b c :: nat
  shows "a < 256 \<Longrightarrow> a div 4 < 64" and "b < 256 \<Longrightarrow> a mod 4 * 16 + b div 16 < 64"
    and "c < 256 \<Longrightarrow> b mod 16 * 4 + c div 64 < 64" and "c mod 64 < 64"
    and "a mod 4 * 16 < 64" and "b mod 16 * 4 < 64"
proof -
  show "a < 256 \<Longrightarrow> a div 4 < 64" by (simp add: div_less_iff_less_mult)
  have ab: "a mod 4 \<le> 3" "b mod 16 \<le> 15"
    using mod_less_divisor [of 4 a] mod_less_divisor [of 16 b] by linarith+
  then show "a mod 4 * 16 < 64" and "b mod 16 * 4 < 64" by linarith+
  show "a mod 4 * 16 + b div 16 < 64" if "b < 256"
  proof -
    have "b div 16 < 16" using that by (simp add: div_less_iff_less_mult)
    with ab show ?thesis by linarith
  qed
  show "b mod 16 * 4 + c div 64 < 64" if "c < 256"
  proof -
    have "c div 64 < 4" using that by (simp add: div_less_iff_less_mult)
    with ab show ?thesis by linarith
  qed
qed simp

lemma b64_dec_enc:
  assumes "distinct al" and "length al = 64" and "CHR ''='' \<notin> set al"
  shows "pad \<Longrightarrow> \<forall>n\<in>set ns. n < 256 \<Longrightarrow> b64_dec al (b64_enc al pad ns) = Some ns"
  using assms
proof (induction al pad ns rule: b64_enc.induct)
  case (3 al pad a b)
  have "b div 16 < 16" using "3.prems"(2) by (simp add: div_less_iff_less_mult)
  with 3 show ?case by (simp add: index_of_nth index_of_notin six_bits)
next
  case (4 al pad a b c r)
  have "b div 16 < 16" and "c div 64 < 4"
    using "4.prems"(2) by (simp_all add: div_less_iff_less_mult)
  with 4 show ?case by (simp add: index_of_nth six_bits)
qed (simp_all add: index_of_nth index_of_notin six_bits)

lemma set_b64_enc:
  assumes "length al = 64"
  shows "\<forall>n\<in>set ns. n < 256 \<Longrightarrow> set (b64_enc al pad ns) \<subseteq> set al \<union> {CHR ''=''}"
  using assms
proof (induction al pad ns rule: b64_enc.induct)
qed (auto simp: six_bits)

lemma set_b64_enc_unpadded:
  assumes "length al = 64"
  shows "\<not> pad \<Longrightarrow> \<forall>n\<in>set ns. n < 256 \<Longrightarrow> set (b64_enc al pad ns) \<subseteq> set al"
  using assms
proof (induction al pad ns rule: b64_enc.induct)
qed (auto simp: six_bits)

lemma length_b64_enc_unpadded: "length (b64_enc al False ns) = (4 * length ns + 2) div 3"
  by (induction al False ns rule: b64_enc.induct) auto

lemma b64_enc_padded:
  "b64_enc al True ns = b64_enc al False ns @ replicate ((3 - length ns mod 3) mod 3) (CHR ''='')"
proof (induction al False ns rule: b64_enc.induct)
  case (4 al a b c r)
  have "Suc (Suc (Suc (length r))) mod 3 = length r mod 3" by presburger
  with 4 show ?case by simp
qed (simp_all add: numeral_2_eq_2)

lemma b64_enc_unpadded_inj:
  assumes al: "distinct al" "length al = 64" "CHR ''='' \<notin> set al"
    and ns: "\<forall>n\<in>set ns. n < 256" and ms: "\<forall>n\<in>set ms. n < 256"
    and eq: "b64_enc al False ns = b64_enc al False ms"
  shows "ns = ms"
proof -
  have "(4 * length ns + 2) div 3 = (4 * length ms + 2) div 3"
    using eq by (metis length_b64_enc_unpadded)
  then have "length ns = length ms" by arith
  with eq have "b64_enc al True ns = b64_enc al True ms"
    by (simp add: b64_enc_padded)
  then have "Some ns = Some ms"
    using b64_dec_enc [OF al _ ns, of True] b64_dec_enc [OF al _ ms, of True] by metis
  then show ?thesis by simp
qed

lemma map_byte_bound: "\<forall>n\<in>set (map byte s). n < 256"
  by (simp add: byte_less_256)

lemma bytes_map_byte: "bytes (map byte s) = s"
  by (simp add: bytes_def char_of_byte map_idI)

lemma std_decode_encode: "std_decode (std_encode s) = Some s"
proof -
  have "list_all (\<lambda>c. byte c \<noteq> 10 \<and> byte c \<noteq> 13) (CHR ''='' # std_alphabet)"
    by (simp add: std_alphabet_def byte_def)
  moreover have "set (std_encode s) \<subseteq> set std_alphabet \<union> {CHR ''=''}"
    unfolding std_encode_def by (intro set_b64_enc std_alphabet_facts map_byte_bound)
  ultimately have "filter (\<lambda>c. byte c \<noteq> 10 \<and> byte c \<noteq> 13) (std_encode s) = std_encode s"
    by (auto simp: list_all_iff intro!: filter_True)
  then show ?thesis
    by (simp add: std_decode_def)
      (simp add: std_encode_def b64_dec_enc std_alphabet_facts byte_less_256 bytes_map_byte)
qed

lemma raw_url_encode_inj: "raw_url_encode s = raw_url_encode t \<Longrightarrow> s = t"
proof -
  assume "raw_url_encode s = raw_url_encode t"
  then have "map byte s = map byte t"
    unfolding raw_url_encode_def
    by (rule b64_enc_unpadded_inj [rotated -1])
      (simp_all add: url_alphabet_def byte_less_256)
  then show ?thesis by (metis bytes_map_byte)
qed

lemma length_raw_url_encode: "length (raw_url_encode s) = (4 * length s + 2) div 3"
  by (simp add: raw_url_encode_def length_b64_enc_unpadded)

lemma raw_url_encode_solid: "list_all solid (raw_url_encode s)"
proof -
  have "list_all solid url_alphabet"
    by (simp add: url_alphabet_def solid_def byte_def)
  moreover have "set (raw_url_encode s) \<subseteq> set url_alphabet"
    unfolding raw_url_encode_def by (intro set_b64_enc_unpadded url_alphabet_facts map_byte_bound) simp
  ultimately show ?thesis by (auto simp: list_all_iff)
qed

section \<open>Codecs\<close>

text \<open>
  What a text encoding promises to the code that stores, compares or prints the encoded form:
  the decoder undoes it, so distinct byte strings have distinct encodings.
\<close>

locale codec =
  fixes enc :: "string \<Rightarrow> string" and dec :: "string \<Rightarrow> string option"
  assumes dec_enc: "dec (enc s) = Some s"
begin

lemma enc_inject: "enc s = enc t \<longleftrightarrow> s = t"
  by (metis dec_enc option.inject)

end

interpretation hex: codec hex_encode hex_decode
  by unfold_locales (rule hex_decode_encode)

interpretation b64: codec std_encode std_decode
  by unfold_locales (rule std_decode_encode)

end
