(* ===== verification/GoTime.thy ===== *)
theory GoTime
  imports GoText
begin

text \<open>
  Instants and their RFC 3339 text, and the quoting of \<^verbatim>\<open>encoding/json\<close>: the two parts of
  Go's standard library that decide the bytes of a signed document. The lemmas pin the layout
  down at the epoch and at the date of the golden document, and show that a time stamp holds
  no line break, which is what keeps the two halves of the signed message apart.
\<close>

section \<open>time.Format(time.RFC3339) in UTC\<close>

text \<open>
  An instant is its distance from the Unix epoch in microseconds, the precision of the
  database's \<^verbatim>\<open>timestamptz\<close>. The civil date is computed from the day number.
\<close>

type_synonym time = int

definition zero_time :: time where
  "zero_time = - 62135596800000000"

definition civil :: "int \<Rightarrow> int \<times> int \<times> int" where
  "civil days =
     (let z = days + 719468; era = z div 146097; doe = z mod 146097;
          yoe = (doe - doe div 1460 + doe div 36524 - doe div 146096) div 365;
          doy = doe - (365 * yoe + yoe div 4 - yoe div 100);
          mp = (5 * doy + 2) div 153;
          d = doy - (153 * mp + 2) div 5 + 1;
          m = (if mp < 10 then mp + 3 else mp - 9);
          y = yoe + era * 400
      in (if m \<le> 2 then y + 1 else y, m, d))"

function decimal :: "int \<Rightarrow> string" where
  "decimal n =
     (if n < 10 then [''0123456789'' ! nat n]
      else decimal (n div 10) @ [''0123456789'' ! nat (n mod 10)])"
  by pat_completeness auto
termination
  by (relation "measure nat") auto

declare decimal.simps [simp del]

definition digits :: "nat \<Rightarrow> int \<Rightarrow> string" where
  "digits w n =
     (let s = decimal \<bar>n\<bar>; p = replicate (w - length s) (CHR ''0'') @ s
      in if n < 0 then CHR ''-'' # p else p)"

definition rfc3339 :: "time \<Rightarrow> string" where
  "rfc3339 t =
     (let secs = t div 1000000; sod = secs mod 86400
      in case civil (secs div 86400) of (y, m, d) \<Rightarrow>
        digits 4 y @ ''-'' @ digits 2 m @ ''-'' @ digits 2 d @ ''T'' @
        digits 2 (sod div 3600) @ '':'' @ digits 2 (sod div 60 mod 60) @ '':'' @
        digits 2 (sod mod 60) @ ''Z'')"

lemma rfc3339_epoch: "rfc3339 0 = ''1970-01-01T00:00:00Z''"
  by code_simp

lemma rfc3339_golden: "rfc3339 1786406400000000 = ''2026-08-11T00:00:00Z''"
  by code_simp

lemma decimal_solid: "0 \<le> n \<Longrightarrow> list_all solid (decimal n)"
proof (induction n rule: decimal.induct)
  case (1 n)
  have digit: "solid (''0123456789'' ! k)" if "k < 10" for k
  proof -
    have "''0123456789'' ! k \<in> set ''0123456789''" using that by (intro nth_mem) simp
    then show ?thesis by (auto simp: solid_def byte_def)
  qed
  show ?case
    using 1 digit [of "nat n"] digit [of "nat (n mod 10)"]
    by (cases "n < 10") (simp_all add: decimal.simps [of n])
qed

lemma rfc3339_solid: "list_all solid (rfc3339 t)"
proof -
  have "list_all solid (digits w n)" for w n
  proof -
    have "list_all solid (decimal \<bar>n\<bar>)" by (simp add: decimal_solid)
    moreover have "solid (CHR ''0'')" and "solid (CHR ''-'')"
      by (simp_all add: solid_def byte_def)
    ultimately show ?thesis by (auto simp: digits_def Let_def list_all_iff)
  qed
  then show ?thesis
    by (simp add: rfc3339_def Let_def solid_def byte_def split: prod.split)
qed

lemma rfc3339_no_newline: "CHR 0x0A \<notin> set (rfc3339 t)"
  using rfc3339_solid [of t] by (auto simp: list_all_iff solid_def byte_def)

lemma rfc3339_truncates:
  "s div 1000000 = t div 1000000 \<Longrightarrow> rfc3339 s = rfc3339 t"
  by (simp add: rfc3339_def)

section \<open>encoding/json\<close>

text \<open>
  The bytes \<^verbatim>\<open>json.Marshal\<close> writes for one ASCII character of a string, HTML escaping included.
\<close>

definition json_esc :: "char \<Rightarrow> string" where
  "json_esc c =
     (let n = byte c in
      if n = 34 then [CHR 0x5C, CHR 0x22]
      else if n = 92 then [CHR 0x5C, CHR 0x5C]
      else if n = 8 then [CHR 0x5C, CHR ''b'']
      else if n = 12 then [CHR 0x5C, CHR ''f'']
      else if n = 10 then [CHR 0x5C, CHR ''n'']
      else if n = 13 then [CHR 0x5C, CHR ''r'']
      else if n = 9 then [CHR 0x5C, CHR ''t'']
      else if n < 32 \<or> n = 60 \<or> n = 62 \<or> n = 38
        then CHR 0x5C # ''u00'' @ [hex_digits ! (n div 16), hex_digits ! (n mod 16)]
      else [c])"

definition json_quote_ascii :: "string \<Rightarrow> string" where
  "json_quote_ascii s = CHR 0x22 # concat (map json_esc s) @ [CHR 0x22]"

end
