(* ===== verification/World.thy ===== *)
theory World
  imports GoTime
begin

text \<open>
  The data the program moves and the world it acts on: JSON values, the records of the
  \<^verbatim>\<open>catalog\<close> package the registry reads, the tables of the database, and the code outside the
  repository as one record \<open>env\<close> of functions. A statement sent to the database is \<open>stmt\<close>: it
  consumes one outcome of a schedule, which decides whether the driver call fails and how much
  time passes, so every \<^verbatim>\<open>if err != nil\<close> of the source is a branch some schedule takes. A
  transaction is \<open>transaction\<close>: rolled back on every error, its clock frozen at \<^verbatim>\<open>BEGIN\<close>.
\<close>

section \<open>JSON and the catalogue's records\<close>

datatype json =
    JNull
  | JBool bool
  | JNum string
  | JStr string
  | JArr "json list"
  | JObj "(string \<times> json) list"

text \<open>
  \<^verbatim>\<open>catalog.Person\<close> and \<^verbatim>\<open>catalog.ReleaseNote\<close> are types of the core; a value of one is its
  JSON image. A nil slice and a nil pointer are \<open>None\<close>.
\<close>

type_synonym person = json
type_synonym release_note = json
type_synonym uuid = nat

record ext_spec =
  es_launch_url :: string
  es_sso_client_id :: string
  es_scopes :: "string list"
  es_embed :: string
  es_health_url :: string

record manifest =
  mf_id :: string
  mf_name :: string
  mf_version :: string
  mf_type :: string
  mf_platform :: string
  mf_external :: "ext_spec option"
  mf_authors :: "person list option"
  mf_notes :: "release_note option"
  mf_rest :: json

record app_text =
  at_name :: string
  at_description :: string
  at_category :: string

record catalog_app =
  ca_id :: string
  ca_slug :: string
  ca_name :: string
  ca_description :: string
  ca_icon_url :: string
  ca_category :: string
  ca_visibility :: string
  ca_version :: string
  ca_manifest :: manifest
  ca_translations :: "(string \<times> app_text) list"

section \<open>Rows of the core's tables\<close>

text \<open>
  The tables the core's migration created, with the columns the registry's statements name.
\<close>

record publisher_row =
  pub_id :: uuid
  pub_tenant :: uuid
  pub_slug :: string
  pub_name :: string
  pub_email :: string
  pub_verified :: bool
  pub_verified_at :: "time option"
  pub_verified_by :: "uuid option"
  pub_created_at :: time
  pub_updated_at :: time

record app_row =
  app_id :: string
  app_publisher :: uuid
  app_slug :: string
  app_type :: string
  app_name :: string
  app_description :: string
  app_icon_url :: string
  app_category :: string
  app_visibility :: string
  app_created_at :: time
  app_updated_at :: time
  app_authors :: json
  app_maintainers :: json
  app_repository :: string
  app_homepage :: string
  app_license :: string
  app_created_by :: "uuid option"
  app_updated_by :: "uuid option"

record text_row =
  tx_app :: string
  tx_locale :: string
  tx_text :: app_text

record version_row =
  ver_id :: uuid
  ver_app :: string
  ver_version :: string
  ver_channel :: string
  ver_min_platform :: string
  ver_manifest :: json
  ver_status :: string
  ver_submitted_by :: string
  ver_note :: string
  ver_published_at :: "time option"
  ver_created_at :: time
  ver_release_notes :: "json option"
  ver_authors :: json

record external_row =
  ex_app :: string
  ex_launch_url :: string
  ex_sso_client_id :: string
  ex_scopes :: "string list"
  ex_embed :: string
  ex_health_url :: string
  ex_webhook_url :: string

record event_row =
  ev_version :: uuid
  ev_actor_id :: "uuid option"
  ev_actor :: string
  ev_action :: string
  ev_note :: string
  ev_created_at :: time

section \<open>Code outside the repository\<close>

text \<open>
  PostgreSQL's reading and printing of UUIDs and its unique index over
  \<^verbatim>\<open>store_app_versions\<close> (created by the core's migration); the cryptographic primitives and the
  Unicode tables of Go's standard library; the semver library; the core's \<^verbatim>\<open>catalog\<close> package.
  The \<open>pg_..._defaults\<close> are the column defaults of that migration's tables: what an INSERT that
  does not name a column leaves in it.
  \<open>is_newer a b\<close> is \<^verbatim>\<open>catalog.IsNewerVersion(a, b)\<close>; the validators return the message of
  their error.
\<close>

record env =
  pg_uuid :: "string \<Rightarrow> uuid option"
  pg_uuid_text :: "uuid \<Rightarrow> string"
  pg_version_clash :: "string \<times> string \<times> string \<Rightarrow> string \<times> string \<times> string \<Rightarrow> bool"
  sha256 :: "string \<Rightarrow> string"
  ed_sign :: "string \<Rightarrow> string \<Rightarrow> string"
  ed_public :: "string \<Rightarrow> string"
  ed_from_seed :: "string \<Rightarrow> string"
  unicode_lower :: "string \<Rightarrow> string"
  json_quote_unicode :: "string \<Rightarrow> string"
  json_text :: "json \<Rightarrow> string"
  semver_valid :: "string \<Rightarrow> bool"
  semver_constraint :: "string \<Rightarrow> (string \<Rightarrow> bool) option"
  is_newer :: "string \<Rightarrow> string \<Rightarrow> bool"
  is_valid_slug :: "string \<Rightarrow> bool"
  is_external :: "manifest \<Rightarrow> bool"
  validate_manifest :: "manifest \<Rightarrow> string \<Rightarrow> string option"
  validate_catalog :: "catalog_app list \<Rightarrow> string \<Rightarrow> string option"
  marshal_manifest :: "manifest \<Rightarrow> json option"
  unmarshal_manifest :: "json \<Rightarrow> manifest option"
  marshal_apps :: "catalog_app list \<Rightarrow> string option"
  unmarshal_person :: "json \<Rightarrow> person option"
  zero_note :: release_note
  unmarshal_note :: "json \<Rightarrow> release_note option"
  pg_publisher_defaults :: publisher_row
  pg_app_defaults :: app_row
  pg_version_defaults :: version_row
  pg_external_defaults :: external_row

text \<open>The documented behaviour of UUID text the code relies on.\<close>

definition uuid_codec :: "env \<Rightarrow> bool" where
  "uuid_codec E \<longleftrightarrow> (\<forall>u. pg_uuid E (pg_uuid_text E u) = Some u \<and> pg_uuid_text E u \<noteq> [])"

lemma uuid_codecD:
  "uuid_codec E \<Longrightarrow> pg_uuid E (pg_uuid_text E u) = Some u"
  "uuid_codec E \<Longrightarrow> pg_uuid_text E u \<noteq> []"
  by (simp_all add: uuid_codec_def)

lemma uuid_text_inject:
  "uuid_codec E \<Longrightarrow> pg_uuid_text E u = pg_uuid_text E v \<longleftrightarrow> u = v"
  by (metis uuid_codecD(1) option.inject)

text \<open>\<^verbatim>\<open>strings.ToLower\<close> and \<^verbatim>\<open>json.Marshal\<close> of a string, exact on ASCII.\<close>

definition to_lower :: "env \<Rightarrow> string \<Rightarrow> string" where
  "to_lower E s = (if is_ascii s then map ascii_lower s else unicode_lower E s)"

definition json_quote :: "env \<Rightarrow> string \<Rightarrow> string" where
  "json_quote E s = (if is_ascii s then json_quote_ascii s else json_quote_unicode E s)"

text \<open>\<^verbatim>\<open>NULLIF($1,'')::uuid\<close>: the empty text is NULL, any other must read as a UUID.\<close>

definition nullif_uuid :: "env \<Rightarrow> string \<Rightarrow> err + uuid option" where
  "nullif_uuid E s =
     (if s = [] then Inr None
      else case pg_uuid E s of None \<Rightarrow> Inl ErrDriver | Some u \<Rightarrow> Inr (Some u))"

text \<open>The length PostgreSQL compares with a \<^verbatim>\<open>VARCHAR(n)\<close> bound: characters, not bytes.\<close>

definition char_count :: "string \<Rightarrow> nat" where
  "char_count s = length (filter (\<lambda>c. \<not> (128 \<le> byte c \<and> byte c < 192)) s)"

section \<open>The tables\<close>

record snapshot_row =
  sn_channel :: string
  sn_platform :: string
  sn_revision :: int
  sn_generated_at :: time
  sn_etag :: string
  sn_document :: string
  sn_built_at :: time

record platform_row =
  pl_id :: uuid
  pl_name :: string
  pl_origin :: string
  pl_digest :: string
  pl_disabled_at :: "time option"
  pl_last_seen_at :: "time option"
  pl_note :: string
  pl_created_at :: time
  pl_created_by :: "uuid option"

record grant_row =
  gr_app :: string
  gr_platform :: uuid
  gr_granted_at :: time
  gr_granted_by :: "uuid option"

text \<open>
  \<^verbatim>\<open>store_registry_state\<close> holds one row, so it is its revision; a row of
  \<^verbatim>\<open>store_private_snapshots\<close> is a snapshot row with the platform it was built for.
\<close>

record database =
  t_publishers :: "publisher_row list"
  t_apps :: "app_row list"
  t_texts :: "text_row list"
  t_versions :: "version_row list"
  t_externals :: "external_row list"
  t_events :: "event_row list"
  t_revision :: "int option"
  t_snapshots :: "snapshot_row list"
  t_platforms :: "platform_row list"
  t_grants :: "grant_row list"
  t_private :: "(uuid \<times> snapshot_row) list"

definition empty_db :: database where
  "empty_db =
     \<lparr>t_publishers = [], t_apps = [], t_texts = [], t_versions = [], t_externals = [],
      t_events = [], t_revision = Some 0, t_snapshots = [], t_platforms = [], t_grants = [],
      t_private = []\<rparr>"

section \<open>The world and its statements\<close>

datatype outcome = Succeeds nat | Fails

text \<open>An entry of the audit trail; its details are the map the handlers give, by key.\<close>

datatype audit_value = AuditText string | AuditFlag bool

record audit =
  au_tenant :: string
  au_user :: string
  au_action :: string
  au_kind :: string
  au_details :: "(string \<times> audit_value) list"

record world =
  tables :: database
  now :: time
  tx_start :: "time option"
  sched :: "outcome list"
  entropy :: string
  next_uuid :: uuid
  audits :: "audit list"

type_synonym 'a act = "(world, 'a) io"

text \<open>
  \<open>fails w\<close>: the next driver call fails. \<open>tick w\<close> is the world after one driver call, before
  its effect. An exhausted schedule means calls that succeed at once.
\<close>

definition fails :: "world \<Rightarrow> bool" where
  "fails w = (case sched w of Fails # _ \<Rightarrow> True | _ \<Rightarrow> False)"

definition tick :: "world \<Rightarrow> world" where
  "tick w =
     (case sched w of
        [] \<Rightarrow> w\<lparr>next_uuid := Suc (next_uuid w)\<rparr>
      | Fails # os \<Rightarrow> w\<lparr>sched := os\<rparr>
      | Succeeds d # os \<Rightarrow>
          w\<lparr>sched := os, now := now w + int d, next_uuid := Suc (next_uuid w)\<rparr>)"

text \<open>\<^verbatim>\<open>NOW()\<close>: the start of the transaction inside one.\<close>

definition clock :: "world \<Rightarrow> time" where
  "clock w = (case tx_start w of None \<Rightarrow> now w | Some t \<Rightarrow> t)"

definition stmt :: "(time \<Rightarrow> uuid \<Rightarrow> database \<Rightarrow> err + 'a \<times> database) \<Rightarrow> 'a act" where
  "stmt q w =
     (if fails w then (Inl ErrDriver, tick w)
      else let w' = tick w in
        case q (clock w') (next_uuid w) (tables w) of
          Inl e \<Rightarrow> (Inl e, w')
        | Inr (x, d) \<Rightarrow> (Inr x, w'\<lparr>tables := d\<rparr>))"

text \<open>A query reads the tables; its own errors (a UUID that does not parse) are \<open>Inl\<close>.\<close>

definition query :: "(database \<Rightarrow> err + 'a) \<Rightarrow> 'a act" where
  "query q w =
     (if fails w then (Inl ErrDriver, tick w) else (q (tables w), tick w))"

definition transaction :: "'a act \<Rightarrow> 'a act" where
  "transaction body w =
     (if fails w then (Inl ErrDriver, tick w)
      else let w1 = (tick w)\<lparr>tx_start := Some (now (tick w))\<rparr> in
        case body w1 of
          (Inl e, w2) \<Rightarrow> (Inl e, w2\<lparr>tables := tables w, tx_start := None\<rparr>)
        | (Inr x, w2) \<Rightarrow>
            if fails w2
            then (Inl ErrDriver, (tick w2)\<lparr>tables := tables w, tx_start := None\<rparr>)
            else (Inr x, (tick w2)\<lparr>tx_start := None\<rparr>))"

text \<open>\<^verbatim>\<open>rand.Read\<close> of \<open>n\<close> bytes: an error when the source has fewer.\<close>

definition rand_read :: "nat \<Rightarrow> string act" where
  "rand_read n w =
     (if length (entropy w) < n then (Inl ErrDriver, w)
      else (Inr (take n (entropy w)), w\<lparr>entropy := drop n (entropy w)\<rparr>))"

definition record_audit :: "audit \<Rightarrow> unit act" where
  "record_audit a w = (Inr (), w\<lparr>audits := audits w @ [a]\<rparr>)"

section \<open>Laws of the statements\<close>

lemma tick_simps [simp]:
  "tables (tick w) = tables w" "tx_start (tick w) = tx_start w" "entropy (tick w) = entropy w"
  "audits (tick w) = audits w"
  by (simp_all add: tick_def split: list.split outcome.split)

lemma next_uuid_tick: "next_uuid w \<le> next_uuid (tick w)"
  by (simp add: tick_def split: list.split outcome.split)

lemma next_uuid_tick_ok: "\<not> fails w \<Longrightarrow> next_uuid (tick w) = Suc (next_uuid w)"
  by (simp add: tick_def fails_def split: list.splits outcome.splits)

lemma now_tick: "now w \<le> now (tick w)"
  by (simp add: tick_def split: list.split outcome.split)

text \<open>A world whose schedule holds no failure.\<close>

definition quiet :: "world \<Rightarrow> bool" where
  "quiet w \<longleftrightarrow> Fails \<notin> set (sched w)"

lemma quiet_not_fails [simp]: "quiet w \<Longrightarrow> \<not> fails w"
  by (auto simp: quiet_def fails_def split: list.splits outcome.splits)

lemma quiet_tick [simp]: "quiet w \<Longrightarrow> quiet (tick w)"
  by (auto simp: quiet_def tick_def split: list.splits outcome.splits)

lemma quiet_update [simp]:
  "quiet (w\<lparr>tables := d\<rparr>) = quiet w" "quiet (w\<lparr>tx_start := t\<rparr>) = quiet w"
  "quiet (w\<lparr>entropy := e\<rparr>) = quiet w" "quiet (w\<lparr>audits := a\<rparr>) = quiet w"
  by (simp_all add: quiet_def)

lemma fails_update [simp]:
  "fails (w\<lparr>tables := d\<rparr>) = fails w" "fails (w\<lparr>tx_start := t\<rparr>) = fails w"
  "fails (w\<lparr>entropy := e\<rparr>) = fails w" "fails (w\<lparr>audits := a\<rparr>) = fails w"
  by (simp_all add: fails_def)

lemma query_quiet [quiet_rules]: "quiet w \<Longrightarrow> query q w = (q (tables w), tick w)"
  by (simp add: query_def)

lemma stmt_quiet [quiet_rules]:
  "quiet w \<Longrightarrow> stmt q w =
     (case q (clock (tick w)) (next_uuid w) (tables w) of
        Inl e \<Rightarrow> (Inl e, tick w)
      | Inr (x, d) \<Rightarrow> (Inr x, (tick w)\<lparr>tables := d\<rparr>))"
  by (simp add: stmt_def Let_def)

lemma tables_query [simp]: "tables (snd (query q w)) = tables w"
  by (simp add: query_def)

lemma query_world: "snd (query q w) = tick w"
  by (simp add: query_def)

lemma stmt_InrD:
  "stmt q w = (Inr x, w') \<Longrightarrow> \<not> fails w \<and> (\<exists>d. q (clock (tick w)) (next_uuid w) (tables w) = Inr (x, d)
     \<and> w' = (tick w)\<lparr>tables := d\<rparr>)"
  by (auto simp: stmt_def Let_def split: if_splits sum.splits)

text \<open>
  Atomicity: whatever its body does and wherever a call fails, a transaction that returns an
  error has left every table as it was.
\<close>

lemma transaction_error_unchanged:
  "transaction body w = (Inl e, w') \<Longrightarrow> tables w' = tables w"
  by (auto simp: transaction_def Let_def split: prod.splits sum.splits if_splits)

lemma transaction_okD:
  assumes "transaction body w = (Inr x, w')"
  obtains w1 w2 where "\<not> fails w" and "w1 = (tick w)\<lparr>tx_start := Some (now (tick w))\<rparr>"
    and "body w1 = (Inr x, w2)" and "tables w' = tables w2"
    and "w' = (tick w2)\<lparr>tx_start := None\<rparr>"
  using assms by (auto simp: transaction_def Let_def split: prod.splits sum.splits if_splits)

lemma transaction_quiet [quiet_rules]:
  assumes "quiet w" and "keeps quiet body"
  shows "transaction body w =
    (case body ((tick w)\<lparr>tx_start := Some (now (tick w))\<rparr>) of
       (Inl e, w2) \<Rightarrow> (Inl e, w2\<lparr>tables := tables w, tx_start := None\<rparr>)
     | (Inr x, w2) \<Rightarrow> (Inr x, (tick w2)\<lparr>tx_start := None\<rparr>))"
proof -
  have "quiet (snd (body ((tick w)\<lparr>tx_start := Some (now (tick w))\<rparr>)))"
    using assms by (intro keepsD [of quiet body]) simp_all
  then show ?thesis
    using assms(1) by (auto simp: transaction_def Let_def split: prod.splits sum.splits)
qed

lemma keeps_quiet_stmt [keeps_intros]: "keeps quiet (stmt q)"
  by (rule keepsI) (simp add: stmt_quiet split: sum.split prod.split)

lemma keeps_quiet_query [keeps_intros]: "keeps quiet (query q)"
  by (rule keepsI) (simp add: query_quiet)

lemma keeps_quiet_transaction [keeps_intros]:
  assumes "keeps quiet body"
  shows "keeps quiet (transaction body)"
proof (rule keepsI)
  fix w assume w: "quiet w"
  have "quiet (snd (body ((tick w)\<lparr>tx_start := Some (now (tick w))\<rparr>)))"
    using w assms by (intro keepsD [of quiet body]) simp_all
  then show "quiet (snd (transaction body w))"
    using w assms by (auto simp: transaction_quiet split: prod.splits sum.splits)
qed

lemma keeps_quiet_rand [keeps_intros]: "keeps quiet (rand_read n)"
  by (rule keepsI) (simp add: rand_read_def)

lemma keeps_quiet_audit [keeps_intros]: "keeps quiet (record_audit a)"
  by (rule keepsI) (simp add: record_audit_def)

section \<open>Invariants of the tables\<close>

text \<open>
  \<open>holds P w\<close>: the tables satisfy \<open>P\<close>, which may speak of the identifiers handed out so far. A
  property that stays true when more identifiers are handed out is an invariant of an operation
  as soon as every statement keeps it, transactions and their rollbacks included.
\<close>

definition holds :: "(uuid \<Rightarrow> database \<Rightarrow> bool) \<Rightarrow> world \<Rightarrow> bool" where
  "holds P w \<longleftrightarrow> P (next_uuid w) (tables w)"

definition grows :: "(world, 'a) io \<Rightarrow> bool" where
  "grows m \<longleftrightarrow> (\<forall>n. keeps (\<lambda>w. n \<le> next_uuid w) m)"

lemma growsD: "grows m \<Longrightarrow> next_uuid w \<le> next_uuid (snd (m w))"
  by (simp add: grows_def keeps_def)

lemma growsI: "(\<And>w. next_uuid w \<le> next_uuid (snd (m w))) \<Longrightarrow> grows m"
  by (auto simp: grows_def keeps_def intro: order_trans)

lemma grows_stmt [keeps_intros]: "grows (stmt q)"
  by (rule growsI) (simp add: stmt_def Let_def next_uuid_tick split: sum.split prod.split)

lemma grows_query [keeps_intros]: "grows (query q)"
  by (rule growsI) (simp add: query_def next_uuid_tick)

lemma grows_ok [keeps_intros]: "grows (ok x)"
  by (rule growsI) simp

lemma grows_fail [keeps_intros]: "grows (fail e)"
  by (rule growsI) simp

lemma grows_lift_err [keeps_intros]: "grows (lift_err r)"
  by (rule growsI) simp

lemma grows_andthen [keeps_intros]: "grows m \<Longrightarrow> (\<And>x. grows (k x)) \<Longrightarrow> grows (andthen m k)"
  by (simp add: grows_def keeps_andthen)

lemma grows_attempt [keeps_intros]: "grows m \<Longrightarrow> (\<And>r. grows (k r)) \<Longrightarrow> grows (attempt m k)"
  by (simp add: grows_def keeps_attempt)

lemma grows_for_each [keeps_intros]: "(\<And>x. grows (f x)) \<Longrightarrow> grows (for_each f xs)"
  by (simp add: grows_def keeps_for_each)

lemma grows_if [keeps_intros]: "grows m \<Longrightarrow> grows n \<Longrightarrow> grows (if b then m else n)"
  by simp

lemma grows_case_option [keeps_intros]:
  "grows m \<Longrightarrow> (\<And>y. grows (f y)) \<Longrightarrow> grows (case x of None \<Rightarrow> m | Some y \<Rightarrow> f y)"
  by (cases x) simp_all

lemma grows_case_sum [keeps_intros]:
  "(\<And>e. grows (f e)) \<Longrightarrow> (\<And>y. grows (g y)) \<Longrightarrow> grows (case x of Inl e \<Rightarrow> f e | Inr y \<Rightarrow> g y)"
  by (cases x) simp_all

locale db_invariant =
  fixes P :: "uuid \<Rightarrow> database \<Rightarrow> bool"
  assumes up: "P n d \<Longrightarrow> n \<le> m \<Longrightarrow> P m d"
begin

lemma holds_tick: "holds P w \<Longrightarrow> holds P (tick w)"
  by (auto simp: holds_def intro: up next_uuid_tick)

lemma holds_tx [simp]: "holds P (w\<lparr>tx_start := t\<rparr>) = holds P w"
  by (simp add: holds_def)

lemma keeps_query: "keeps (holds P) (query q)"
  by (rule keepsI) (simp add: query_def holds_tick)

lemma keeps_stmt:
  assumes "\<And>n t d x d'. P n d \<Longrightarrow> q t n d = Inr (x, d') \<Longrightarrow> P (Suc n) d'"
  shows "keeps (holds P) (stmt q)"
proof (rule keepsI)
  fix w assume w: "holds P w"
  show "holds P (snd (stmt q w))"
  proof (cases "fails w \<or> (\<exists>e. q (clock (tick w)) (next_uuid w) (tables w) = Inl e)")
    case True
    with w show ?thesis by (auto simp: stmt_def Let_def holds_tick)
  next
    case False
    then obtain x d' where "q (clock (tick w)) (next_uuid w) (tables w) = Inr (x, d')"
      by (cases "q (clock (tick w)) (next_uuid w) (tables w)") auto
    moreover from w this have "P (Suc (next_uuid w)) d'"
      by (auto simp: holds_def intro: assms)
    ultimately show ?thesis
      using False by (simp add: stmt_def Let_def holds_def next_uuid_tick_ok)
  qed
qed

lemma keeps_transaction:
  assumes "keeps (holds P) body" and "grows body"
  shows "keeps (holds P) (transaction body)"
proof (rule keepsI)
  fix w assume w: "holds P w"
  define w1 where "w1 = (tick w)\<lparr>tx_start := Some (now (tick w))\<rparr>"
  define w2 where "w2 = snd (body w1)"
  have w1: "holds P w1" using w by (simp add: w1_def holds_tick)
  then have w2: "holds P w2" unfolding w2_def by (rule keepsD [OF assms(1)])
  have "next_uuid w \<le> next_uuid w1" using next_uuid_tick [of w] by (simp add: w1_def)
  also have "\<dots> \<le> next_uuid w2" unfolding w2_def by (rule growsD [OF assms(2)])
  finally have n: "next_uuid w \<le> next_uuid w2" .
  then have "next_uuid w \<le> next_uuid (tick w2)"
    using next_uuid_tick [of w2] by linarith
  with n w have rb: "holds P (w2\<lparr>tables := tables w, tx_start := None\<rparr>)"
      "holds P ((tick w2)\<lparr>tables := tables w, tx_start := None\<rparr>)"
    by (auto simp: holds_def intro: up)
  show "holds P (snd (transaction body w))"
    using w rb holds_tick [OF w2]
    by (auto simp: transaction_def Let_def holds_tick w2_def w1_def split: prod.splits sum.splits)
qed

lemma keeps_rand: "keeps (holds P) (rand_read n)"
  by (rule keepsI) (simp add: rand_read_def holds_def)

lemma keeps_audit: "keeps (holds P) (record_audit a)"
  by (rule keepsI) (simp add: record_audit_def holds_def)

lemmas keeps_rules = keeps_query keeps_transaction keeps_rand keeps_audit

end

lemma grows_transaction [keeps_intros]: "grows body \<Longrightarrow> grows (transaction body)"
proof (rule growsI)
  fix w assume g: "grows body"
  define w1 where "w1 = (tick w)\<lparr>tx_start := Some (now (tick w))\<rparr>"
  have "next_uuid w \<le> next_uuid w1" using next_uuid_tick [of w] by (simp add: w1_def)
  also have "\<dots> \<le> next_uuid (snd (body w1))" by (rule growsD [OF g])
  finally have "next_uuid w \<le> next_uuid (snd (body w1))" .
  then show "next_uuid w \<le> next_uuid (snd (transaction body w))"
    using next_uuid_tick [of w] next_uuid_tick [of "snd (body w1)"]
    by (auto simp: transaction_def Let_def w1_def split: prod.splits sum.splits)
qed

lemma grows_rand [keeps_intros]: "grows (rand_read n)"
  by (rule growsI) (simp add: rand_read_def)

lemma grows_audit [keeps_intros]: "grows (record_audit a)"
  by (rule growsI) (simp add: record_audit_def)

end
