(* ===== verification/Platforms.thy ===== *)
theory Platforms
  imports World
begin

text \<open>
  \<^verbatim>\<open>modules/registry/platforms.go\<close>: the deployments the registry recognises, their credentials
  and what each has been granted. The definitions follow the file's order; each SQL statement
  is a function of its own (\<open>..._stmt\<close>), so that its effect on the tables can be reasoned about
  without the schedule of driver calls.
\<close>

section \<open>Platforms, audiences and credentials\<close>

record platform =
  p_id :: string
  p_name :: string
  p_origin :: string
  p_note :: string
  p_disabled_at :: "time option"
  p_last_seen_at :: "time option"
  p_created_at :: time
  p_granted_apps :: "string list"

definition enabled :: "platform \<Rightarrow> bool" where
  "enabled p \<longleftrightarrow> p_disabled_at p = None"

record audience =
  aud_platform_id :: string
  aud_app_ids :: "string list"

definition no_audience :: audience where
  "no_audience = \<lparr>aud_platform_id = [], aud_app_ids = []\<rparr>"

definition anonymous :: "audience \<Rightarrow> bool" where
  "anonymous a \<longleftrightarrow> aud_platform_id a = []"

definition token_digest :: "env \<Rightarrow> string \<Rightarrow> string" where
  "token_digest E token = hex_encode (sha256 E token)"

definition new_token :: "string act" where
  "new_token = andthen (rand_read 32) (\<lambda>raw. ok (raw_url_encode raw))"

definition bearer_token :: "string \<Rightarrow> string" where
  "bearer_token header =
     (let prefix = ''Bearer '' in
      if length header \<le> length prefix \<or> \<not> equal_fold (take (length prefix) header) prefix
      then []
      else trim_space (drop (length prefix) header))"

section \<open>Reading\<close>

text \<open>The columns \<^verbatim>\<open>id::text, name, origin, note, disabled_at, last_seen_at, created_at\<close>.\<close>

definition scan_platform :: "env \<Rightarrow> platform_row \<Rightarrow> platform" where
  "scan_platform E r =
     \<lparr>p_id = pg_uuid_text E (pl_id r), p_name = pl_name r, p_origin = pl_origin r,
      p_note = pl_note r, p_disabled_at = pl_disabled_at r, p_last_seen_at = pl_last_seen_at r,
      p_created_at = pl_created_at r, p_granted_apps = []\<rparr>"

definition platform_by_token :: "env \<Rightarrow> string \<Rightarrow> platform option act" where
  "platform_by_token E token =
     (if token = [] then ok None
      else andthen
        (query (\<lambda>d. Inr (find (\<lambda>r. pl_digest r = token_digest E token) (t_platforms d))))
        (\<lambda>row. case row of
            None \<Rightarrow> ok None
          | Some r \<Rightarrow>
              if \<not> enabled (scan_platform E r) then ok None
              else ok (Some (scan_platform E r))))"

definition grants_of :: "uuid \<Rightarrow> database \<Rightarrow> string list" where
  "grants_of u d = sort (map gr_app (filter (\<lambda>g. gr_platform g = u) (t_grants d)))"

definition granted_app_ids :: "env \<Rightarrow> string \<Rightarrow> string list act" where
  "granted_app_ids E platform_id =
     query (\<lambda>d. case pg_uuid E platform_id of
                  None \<Rightarrow> Inl ErrDriver
                | Some u \<Rightarrow> Inr (grants_of u d))"

definition audience_for :: "env \<Rightarrow> string \<Rightarrow> audience act" where
  "audience_for E token =
     andthen (platform_by_token E token)
       (\<lambda>platform. case platform of
           None \<Rightarrow> ok no_audience
         | Some p \<Rightarrow>
             andthen (granted_app_ids E (p_id p))
               (\<lambda>granted. if granted = [] then ok no_audience
                 else ok \<lparr>aud_platform_id = p_id p, aud_app_ids = granted\<rparr>))"

definition list_platforms :: "env \<Rightarrow> platform list act" where
  "list_platforms E =
     query (\<lambda>d. Inr (map (\<lambda>r. (scan_platform E r)\<lparr>p_granted_apps := grants_of (pl_id r) d\<rparr>)
                          (sort_key pl_name (t_platforms d))))"

section \<open>Writing\<close>

definition touch_stmt :: "env \<Rightarrow> string \<Rightarrow> time \<Rightarrow> uuid \<Rightarrow> database \<Rightarrow> err + unit \<times> database" where
  "touch_stmt E platform_id t n d =
     (case pg_uuid E platform_id of
        None \<Rightarrow> Inl ErrDriver
      | Some u \<Rightarrow>
          Inr ((), d\<lparr>t_platforms :=
            update_where (\<lambda>r. pl_id r = u) (\<lambda>r. r\<lparr>pl_last_seen_at := Some t\<rparr>) (t_platforms d)\<rparr>))"

definition touch_platform :: "env \<Rightarrow> string \<Rightarrow> unit act" where
  "touch_platform E platform_id = attempt (stmt (touch_stmt E platform_id)) (\<lambda>_. ok ())"

definition insert_platform_stmt ::
  "env \<Rightarrow> string \<Rightarrow> string \<Rightarrow> string \<Rightarrow> string \<Rightarrow> string \<Rightarrow> time \<Rightarrow> uuid \<Rightarrow> database \<Rightarrow>
   err + platform_row \<times> database" where
  "insert_platform_stmt E name origin note digest actor t n d =
     (case nullif_uuid E actor of
        Inl e \<Rightarrow> Inl e
      | Inr by \<Rightarrow>
          if 255 < char_count name then Inl ErrDriver
          else if list_ex (\<lambda>r. pl_digest r = digest) (t_platforms d) then Inl ErrUnique
          else
            let row = \<lparr>pl_id = n, pl_name = name, pl_origin = origin, pl_digest = digest,
                       pl_disabled_at = None, pl_last_seen_at = None, pl_note = note,
                       pl_created_at = t, pl_created_by = by\<rparr>
            in Inr (row, d\<lparr>t_platforms := t_platforms d @ [row]\<rparr>))"

definition create_platform ::
  "env \<Rightarrow> string \<Rightarrow> string \<Rightarrow> string \<Rightarrow> string \<Rightarrow> (platform \<times> string) act" where
  "create_platform E name origin note actor =
     (let name = trim_space name in
      if name = [] then fail (ErrMsg ''a platform needs a name'')
      else andthen new_token (\<lambda>token.
        andthen
          (stmt (insert_platform_stmt E name (trim_space origin) (trim_space note)
                   (token_digest E token) actor))
          (\<lambda>row. ok (scan_platform E row, token))))"

definition set_enabled_stmt ::
  "env \<Rightarrow> string \<Rightarrow> bool \<Rightarrow> time \<Rightarrow> uuid \<Rightarrow> database \<Rightarrow> err + nat \<times> database" where
  "set_enabled_stmt E platform_id on t n d =
     (case pg_uuid E platform_id of
        None \<Rightarrow> Inl ErrDriver
      | Some u \<Rightarrow>
          Inr (length (filter (\<lambda>r. pl_id r = u) (t_platforms d)),
               d\<lparr>t_platforms :=
                 update_where (\<lambda>r. pl_id r = u)
                   (\<lambda>r. r\<lparr>pl_disabled_at := (if on then None else Some t)\<rparr>) (t_platforms d)\<rparr>))"

definition set_platform_enabled :: "env \<Rightarrow> string \<Rightarrow> bool \<Rightarrow> unit act" where
  "set_platform_enabled E platform_id on =
     andthen (stmt (set_enabled_stmt E platform_id on))
       (\<lambda>rows. if rows = 0 then fail ErrNotFound else ok ())"

text \<open>
  \<^verbatim>\<open>ON CONFLICT DO NOTHING\<close>; a row that is inserted must name an existing app and platform
  (the table's foreign keys).
\<close>

definition grant_stmt ::
  "env \<Rightarrow> string \<Rightarrow> string \<Rightarrow> string \<Rightarrow> time \<Rightarrow> uuid \<Rightarrow> database \<Rightarrow> err + unit \<times> database" where
  "grant_stmt E aid platform_id actor t n d =
     (case (pg_uuid E platform_id, nullif_uuid E actor) of
        (Some u, Inr by) \<Rightarrow>
          if list_ex (\<lambda>g. gr_app g = aid \<and> gr_platform g = u) (t_grants d) then Inr ((), d)
          else if list_ex (\<lambda>a. app_id a = aid) (t_apps d)
                \<and> list_ex (\<lambda>p. pl_id p = u) (t_platforms d)
          then Inr ((), d\<lparr>t_grants := t_grants d @
                 [\<lparr>gr_app = aid, gr_platform = u, gr_granted_at = t, gr_granted_by = by\<rparr>]\<rparr>)
          else Inl ErrDriver
      | _ \<Rightarrow> Inl ErrDriver)"

definition grant :: "env \<Rightarrow> string \<Rightarrow> string \<Rightarrow> string \<Rightarrow> unit act" where
  "grant E aid platform_id actor = stmt (grant_stmt E aid platform_id actor)"

definition revoke_stmt ::
  "env \<Rightarrow> string \<Rightarrow> string \<Rightarrow> time \<Rightarrow> uuid \<Rightarrow> database \<Rightarrow> err + unit \<times> database" where
  "revoke_stmt E aid platform_id t n d =
     (case pg_uuid E platform_id of
        None \<Rightarrow> Inl ErrDriver
      | Some u \<Rightarrow>
          Inr ((), d\<lparr>t_grants :=
            filter (\<lambda>g. \<not> (gr_app g = aid \<and> gr_platform g = u)) (t_grants d)\<rparr>))"

definition revoke :: "env \<Rightarrow> string \<Rightarrow> string \<Rightarrow> unit act" where
  "revoke E aid platform_id = stmt (revoke_stmt E aid platform_id)"

definition discard_private_stmt ::
  "env \<Rightarrow> string \<Rightarrow> time \<Rightarrow> uuid \<Rightarrow> database \<Rightarrow> err + unit \<times> database" where
  "discard_private_stmt E platform_id t n d =
     (if platform_id = [] then Inr ((), d\<lparr>t_private := []\<rparr>)
      else case pg_uuid E platform_id of
          None \<Rightarrow> Inl ErrDriver
        | Some u \<Rightarrow> Inr ((), d\<lparr>t_private := filter (\<lambda>s. fst s \<noteq> u) (t_private d)\<rparr>))"

definition discard_private_snapshots :: "env \<Rightarrow> string \<Rightarrow> unit act" where
  "discard_private_snapshots E platform_id = stmt (discard_private_stmt E platform_id)"

end
