(* ===== verification/StoreApps.thy ===== *)
theory StoreApps
  imports World
begin

text \<open>
  The first half of \<^verbatim>\<open>modules/registry/store.go\<close>: the revision counter and the public snapshot
  table, publishers, and catalogue entries with their translations. Reads join the tables the
  way the SQL does; writes are functions on the tables, composed into the transactions of the
  code.
\<close>

section \<open>The revision counter\<close>

definition revision :: "int act" where
  "revision = query (\<lambda>d. case t_revision d of None \<Rightarrow> Inl ErrDriver | Some r \<Rightarrow> Inr r)"

definition discard_snapshots :: "nat act" where
  "discard_snapshots = stmt (\<lambda>t n d. Inr (length (t_snapshots d), d\<lparr>t_snapshots := []\<rparr>))"

definition bump_stmt :: "time \<Rightarrow> uuid \<Rightarrow> database \<Rightarrow> err + unit \<times> database" where
  "bump_stmt t n d = Inr ((), d\<lparr>t_revision := map_option (\<lambda>r. r + 1) (t_revision d)\<rparr>)"

definition bump_revision :: "unit act" where
  "bump_revision = stmt bump_stmt"

definition is_unique_violation :: "err \<Rightarrow> bool" where
  "is_unique_violation e \<longleftrightarrow> e = ErrUnique"

definition conflict_error :: "err \<Rightarrow> err" where
  "conflict_error e = (if is_unique_violation e then ErrConflict else e)"

section \<open>Publishers\<close>

record publisher =
  b_id :: string
  b_tenant_id :: string
  b_slug :: string
  b_name :: string
  b_contact_email :: string
  b_verified :: bool
  b_verified_at :: "time option"
  b_created_at :: time

definition publisher_of_row :: "env \<Rightarrow> publisher_row \<Rightarrow> publisher" where
  "publisher_of_row E r =
     \<lparr>b_id = pg_uuid_text E (pub_id r), b_tenant_id = pg_uuid_text E (pub_tenant r),
      b_slug = pub_slug r, b_name = pub_name r, b_contact_email = pub_email r,
      b_verified = pub_verified r, b_verified_at = pub_verified_at r,
      b_created_at = pub_created_at r\<rparr>"

definition scan_publisher :: "env \<Rightarrow> publisher_row option \<Rightarrow> err + publisher" where
  "scan_publisher E row =
     (case row of None \<Rightarrow> Inl ErrNotFound | Some r \<Rightarrow> Inr (publisher_of_row E r))"

definition publisher_by_tenant :: "env \<Rightarrow> string \<Rightarrow> publisher act" where
  "publisher_by_tenant E tenant_id =
     query (\<lambda>d. case pg_uuid E tenant_id of
                  None \<Rightarrow> Inl ErrDriver
                | Some u \<Rightarrow> scan_publisher E (find (\<lambda>r. pub_tenant r = u) (t_publishers d)))"

definition publisher_by_slug :: "env \<Rightarrow> string \<Rightarrow> publisher act" where
  "publisher_by_slug E slug =
     query (\<lambda>d. scan_publisher E (find (\<lambda>r. pub_slug r = slug) (t_publishers d)))"

definition publisher_by_id :: "env \<Rightarrow> string \<Rightarrow> publisher act" where
  "publisher_by_id E bid =
     query (\<lambda>d. case pg_uuid E bid of
                  None \<Rightarrow> Inl ErrDriver
                | Some u \<Rightarrow> scan_publisher E (find (\<lambda>r. pub_id r = u) (t_publishers d)))"

text \<open>
  \<^verbatim>\<open>INSERT ... ON CONFLICT (tenant_id) DO UPDATE\<close>: the slug is the table's other unique column.
  The statement returns the id of the row it wrote.
\<close>

definition upsert_publisher_stmt ::
  "env \<Rightarrow> publisher \<Rightarrow> time \<Rightarrow> uuid \<Rightarrow> database \<Rightarrow> err + uuid \<times> database" where
  "upsert_publisher_stmt E p t n d =
     (case pg_uuid E (b_tenant_id p) of
        None \<Rightarrow> Inl ErrDriver
      | Some tenant \<Rightarrow>
          if list_ex (\<lambda>r. pub_slug r = b_slug p \<and> pub_tenant r \<noteq> tenant) (t_publishers d)
          then Inl ErrUnique
          else
            let new = (pg_publisher_defaults E)\<lparr>pub_id := n, pub_tenant := tenant,
                  pub_slug := b_slug p, pub_name := b_name p, pub_email := b_contact_email p,
                  pub_created_at := t, pub_updated_at := t\<rparr>;
                upd = (\<lambda>r. r\<lparr>pub_slug := b_slug p, pub_name := b_name p,
                               pub_email := b_contact_email p, pub_updated_at := t\<rparr>)
            in Inr (case find (\<lambda>r. pub_tenant r = tenant) (t_publishers d) of
                      None \<Rightarrow> n | Some r \<Rightarrow> pub_id r,
                    d\<lparr>t_publishers :=
                      upsert (\<lambda>r. pub_tenant r = tenant) new upd (t_publishers d)\<rparr>))"

definition upsert_publisher :: "env \<Rightarrow> publisher \<Rightarrow> publisher act" where
  "upsert_publisher E p =
     attempt (stmt (upsert_publisher_stmt E p))
       (\<lambda>r. case r of
           Inl e \<Rightarrow> fail (conflict_error e)
         | Inr u \<Rightarrow> publisher_by_id E (pg_uuid_text E u))"

definition list_publishers :: "env \<Rightarrow> publisher list act" where
  "list_publishers E =
     query (\<lambda>d. Inr (map (publisher_of_row E)
                          (sort_key (\<lambda>r. - pub_created_at r) (t_publishers d))))"

definition set_verified_stmt ::
  "env \<Rightarrow> string \<Rightarrow> bool \<Rightarrow> string \<Rightarrow> time \<Rightarrow> uuid \<Rightarrow> database \<Rightarrow> err + nat \<times> database" where
  "set_verified_stmt E bid verified actor t n d =
     (case (pg_uuid E bid, if verified then nullif_uuid E actor else Inr None) of
        (Some u, Inr by) \<Rightarrow>
          Inr (length (filter (\<lambda>r. pub_id r = u) (t_publishers d)),
               d\<lparr>t_publishers :=
                 update_where (\<lambda>r. pub_id r = u)
                   (\<lambda>r. r\<lparr>pub_verified := verified,
                          pub_verified_at := (if verified then Some t else None),
                          pub_verified_by := by, pub_updated_at := t\<rparr>) (t_publishers d)\<rparr>)
      | _ \<Rightarrow> Inl ErrDriver)"

definition set_publisher_verified :: "env \<Rightarrow> string \<Rightarrow> bool \<Rightarrow> string \<Rightarrow> unit act" where
  "set_publisher_verified E bid verified actor =
     andthen (stmt (set_verified_stmt E bid verified actor))
       (\<lambda>rows. if rows = 0 then fail ErrNotFound else ok ())"

section \<open>Apps\<close>

record app =
  a_id :: string
  a_publisher_id :: string
  a_slug :: string
  a_type :: string
  a_name :: string
  a_description :: string
  a_icon_url :: string
  a_category :: string
  a_visibility :: string
  a_created_at :: time
  a_updated_at :: time
  a_publisher_name :: string
  a_latest_version :: string
  a_authors :: "person list option"
  a_maintainers :: "person list option"
  a_repository :: string
  a_homepage :: string
  a_license :: string
  a_created_by :: string
  a_updated_by :: string

text \<open>A \<^verbatim>\<open>jsonb\<close> column read into \<^verbatim>\<open>[]catalog.Person\<close>: JSON null is the nil slice.\<close>

fun scan_persons :: "env \<Rightarrow> json \<Rightarrow> err + person list option" where
  "scan_persons E JNull = Inr None"
| "scan_persons E (JArr js) =
     (if list_all (\<lambda>j. unmarshal_person E j \<noteq> None) js
      then Inr (Some (map (\<lambda>j. the (unmarshal_person E j)) js)) else Inl ErrDriver)"
| "scan_persons E _ = Inl ErrDriver"

definition is_published :: "version_row \<Rightarrow> bool" where
  "is_published v \<longleftrightarrow> ver_status v = ''published''"

text \<open>The sort key of \<^verbatim>\<open>ORDER BY published_at DESC\<close>, where NULL comes first.\<close>

definition desc_nulls_first :: "time option \<Rightarrow> nat \<times> int" where
  "desc_nulls_first p = (case p of None \<Rightarrow> (0, 0) | Some t \<Rightarrow> (1, - t))"

definition latest_version :: "string \<Rightarrow> database \<Rightarrow> string" where
  "latest_version aid d =
     (case sort_key (\<lambda>v. desc_nulls_first (ver_published_at v))
             (filter (\<lambda>v. ver_app v = aid \<and> is_published v \<and> ver_channel v = ''stable'')
               (t_versions d)) of
        [] \<Rightarrow> [] | v # _ \<Rightarrow> ver_version v)"

definition uuid_or_empty :: "env \<Rightarrow> uuid option \<Rightarrow> string" where
  "uuid_or_empty E u = (case u of None \<Rightarrow> [] | Some v \<Rightarrow> pg_uuid_text E v)"

text \<open>One row of the query \<^verbatim>\<open>appColumns\<close>; \<open>None\<close> where the join finds no publisher.\<close>

definition scan_app_into :: "env \<Rightarrow> database \<Rightarrow> app_row \<Rightarrow> err + app option" where
  "scan_app_into E d a =
     (case find (\<lambda>p. pub_id p = app_publisher a) (t_publishers d) of
        None \<Rightarrow> Inr None
      | Some p \<Rightarrow>
          (case (scan_persons E (app_authors a), scan_persons E (app_maintainers a)) of
             (Inr authors, Inr maintainers) \<Rightarrow>
               Inr (Some
                 \<lparr>a_id = app_id a, a_publisher_id = pg_uuid_text E (app_publisher a),
                  a_slug = app_slug a, a_type = app_type a, a_name = app_name a,
                  a_description = app_description a, a_icon_url = app_icon_url a,
                  a_category = app_category a, a_visibility = app_visibility a,
                  a_created_at = app_created_at a, a_updated_at = app_updated_at a,
                  a_publisher_name = pub_name p, a_latest_version = latest_version (app_id a) d,
                  a_authors = authors, a_maintainers = maintainers,
                  a_repository = app_repository a, a_homepage = app_homepage a,
                  a_license = app_license a, a_created_by = uuid_or_empty E (app_created_by a),
                  a_updated_by = uuid_or_empty E (app_updated_by a)\<rparr>)
           | _ \<Rightarrow> Inl ErrDriver))"

definition scan_app :: "env \<Rightarrow> database \<Rightarrow> app_row option \<Rightarrow> err + app" where
  "scan_app E d row =
     (case row of
        None \<Rightarrow> Inl ErrNotFound
      | Some a \<Rightarrow>
          (case scan_app_into E d a of
             Inl e \<Rightarrow> Inl e | Inr None \<Rightarrow> Inl ErrNotFound | Inr (Some x) \<Rightarrow> Inr x))"

definition app_by_id :: "env \<Rightarrow> string \<Rightarrow> app act" where
  "app_by_id E aid = query (\<lambda>d. scan_app E d (find (\<lambda>a. app_id a = aid) (t_apps d)))"

definition app_by_slug :: "env \<Rightarrow> string \<Rightarrow> app act" where
  "app_by_slug E slug = query (\<lambda>d. scan_app E d (find (\<lambda>a. app_slug a = slug) (t_apps d)))"

fun scan_apps :: "env \<Rightarrow> database \<Rightarrow> app_row list \<Rightarrow> err + app list" where
  "scan_apps E d [] = Inr []"
| "scan_apps E d (a # as) =
     (case scan_app_into E d a of
        Inl e \<Rightarrow> Inl e
      | Inr x \<Rightarrow>
          (case scan_apps E d as of
             Inl e \<Rightarrow> Inl e
           | Inr xs \<Rightarrow> Inr (case x of None \<Rightarrow> xs | Some y \<Rightarrow> y # xs)))"

definition has_published :: "string \<Rightarrow> database \<Rightarrow> bool" where
  "has_published aid d \<longleftrightarrow> list_ex (\<lambda>v. ver_app v = aid \<and> is_published v) (t_versions d)"

definition listed_apps :: "env \<Rightarrow> string \<Rightarrow> database \<Rightarrow> err + app_row list" where
  "listed_apps E publisher_id d =
     (if publisher_id = []
      then Inr (sort_key app_name
             (filter (\<lambda>a. app_visibility a = ''public'' \<and> has_published (app_id a) d) (t_apps d)))
      else case pg_uuid E publisher_id of
          None \<Rightarrow> Inl ErrDriver
        | Some u \<Rightarrow> Inr (sort_key app_name (filter (\<lambda>a. app_publisher a = u) (t_apps d))))"

definition list_apps :: "env \<Rightarrow> string \<Rightarrow> app list act" where
  "list_apps E publisher_id =
     query (\<lambda>d. case listed_apps E publisher_id d of
                  Inl e \<Rightarrow> Inl e | Inr rows \<Rightarrow> scan_apps E d rows)"

definition app_owner :: "env \<Rightarrow> string \<Rightarrow> string option act" where
  "app_owner E aid =
     query (\<lambda>d. Inr (map_option (\<lambda>a. pg_uuid_text E (app_publisher a))
                          (find (\<lambda>a. app_id a = aid) (t_apps d))))"

text \<open>
  The row an app is written as, and its update on a conflicting id: neither the publisher nor
  \<^verbatim>\<open>created_by\<close> and \<^verbatim>\<open>updated_by\<close> are among the columns the statement sets.
\<close>

definition app_update :: "app \<Rightarrow> time \<Rightarrow> app_row \<Rightarrow> app_row" where
  "app_update a t r =
     r\<lparr>app_slug := a_slug a, app_type := a_type a, app_name := a_name a,
       app_description := a_description a, app_icon_url := a_icon_url a,
       app_category := a_category a, app_visibility := a_visibility a, app_updated_at := t\<rparr>"

definition app_insert :: "env \<Rightarrow> app \<Rightarrow> uuid \<Rightarrow> time \<Rightarrow> app_row" where
  "app_insert E a publisher t =
     app_update a t ((pg_app_defaults E)\<lparr>app_id := a_id a, app_publisher := publisher,
                        app_created_at := t\<rparr>)"

definition upsert_app_stmt ::
  "env \<Rightarrow> app \<Rightarrow> time \<Rightarrow> uuid \<Rightarrow> database \<Rightarrow> err + unit \<times> database" where
  "upsert_app_stmt E a t n d =
     (case pg_uuid E (a_publisher_id a) of
        None \<Rightarrow> Inl ErrDriver
      | Some publisher \<Rightarrow>
          if list_ex (\<lambda>r. app_slug r = a_slug a \<and> app_id r \<noteq> a_id a) (t_apps d)
          then Inl ErrUnique
          else Inr ((), d\<lparr>t_apps := upsert (\<lambda>r. app_id r = a_id a) (app_insert E a publisher t)
                                      (app_update a t) (t_apps d)\<rparr>))"

definition upsert_text_stmt ::
  "string \<Rightarrow> string \<times> app_text \<Rightarrow> time \<Rightarrow> uuid \<Rightarrow> database \<Rightarrow> err + unit \<times> database" where
  "upsert_text_stmt aid lt t n d =
     Inr ((), d\<lparr>t_texts :=
       upsert (\<lambda>r. tx_app r = aid \<and> tx_locale r = fst lt)
         \<lparr>tx_app = aid, tx_locale = fst lt, tx_text = snd lt\<rparr>
         (\<lambda>r. r\<lparr>tx_text := snd lt\<rparr>) (t_texts d)\<rparr>)"

definition upsert_app :: "env \<Rightarrow> app \<Rightarrow> (string \<times> app_text) list \<Rightarrow> unit act" where
  "upsert_app E a texts =
     transaction
       (andthen (app_owner E (a_id a))
         (\<lambda>owner. if owner \<noteq> None \<and> owner \<noteq> Some (a_publisher_id a) then fail ErrConflict
           else andthen
             (attempt (stmt (upsert_app_stmt E a))
               (\<lambda>r. case r of Inl e \<Rightarrow> fail (conflict_error e) | Inr u \<Rightarrow> ok u))
             (\<lambda>_. andthen (for_each (\<lambda>lt. stmt (upsert_text_stmt (a_id a) lt)) texts)
               (\<lambda>_. bump_revision))))"

definition texts_of :: "string \<Rightarrow> database \<Rightarrow> (string \<times> app_text) list" where
  "texts_of aid d =
     map (\<lambda>r. (tx_locale r, tx_text r)) (filter (\<lambda>r. tx_app r = aid) (t_texts d))"

definition app_texts :: "string \<Rightarrow> (string \<times> app_text) list act" where
  "app_texts aid = query (\<lambda>d. Inr (texts_of aid d))"

end
