(* ===== verification/StoreVersions.thy ===== *)
theory StoreVersions
  imports StoreApps
begin

text \<open>
  The second half of \<^verbatim>\<open>modules/registry/store.go\<close>: versions, the checks of a submission, the
  review queue, the decision that publishes, rejects or withdraws a version, and the reads the
  storefront and the reviewers use.
\<close>

section \<open>Versions\<close>

record external_registration =
  x_app_id :: string
  x_launch_url :: string
  x_sso_client_id :: string
  x_scopes :: "string list"
  x_embed :: string
  x_health_url :: string
  x_webhook_url :: string

record version =
  v_id :: string
  v_app_id :: string
  v_version :: string
  v_channel :: string
  v_min_platform :: string
  v_manifest :: manifest
  v_status :: string
  v_submitted_by :: string
  v_review_note :: string
  v_published_at :: "time option"
  v_created_at :: time
  v_app :: "app option"

definition version_of_row :: "env \<Rightarrow> manifest \<Rightarrow> version_row \<Rightarrow> version" where
  "version_of_row E m r =
     \<lparr>v_id = pg_uuid_text E (ver_id r), v_app_id = ver_app r, v_version = ver_version r,
      v_channel = ver_channel r, v_min_platform = ver_min_platform r, v_manifest = m,
      v_status = ver_status r, v_submitted_by = ver_submitted_by r, v_review_note = ver_note r,
      v_published_at = ver_published_at r, v_created_at = ver_created_at r, v_app = None\<rparr>"

definition scan_version :: "env \<Rightarrow> version_row option \<Rightarrow> err + version" where
  "scan_version E row =
     (case row of
        None \<Rightarrow> Inl ErrNotFound
      | Some r \<Rightarrow>
          (case unmarshal_manifest E (ver_manifest r) of
             None \<Rightarrow> Inl (ErrMsg ''decode manifest'')
           | Some m \<Rightarrow> Inr (version_of_row E m r)))"

definition version_by_id :: "env \<Rightarrow> string \<Rightarrow> version act" where
  "version_by_id E vid =
     query (\<lambda>d. case pg_uuid E vid of
                  None \<Rightarrow> Inl ErrDriver
                | Some u \<Rightarrow> scan_version E (find (\<lambda>r. ver_id r = u) (t_versions d)))"

fun scan_versions :: "env \<Rightarrow> version_row list \<Rightarrow> err + version list" where
  "scan_versions E [] = Inr []"
| "scan_versions E (r # rs) =
     (case unmarshal_manifest E (ver_manifest r) of
        None \<Rightarrow> Inl (ErrMsg ''decode manifest'')
      | Some m \<Rightarrow>
          (case scan_versions E rs of
             Inl e \<Rightarrow> Inl e | Inr vs \<Rightarrow> Inr (version_of_row E m r # vs)))"

definition versions_of :: "string \<Rightarrow> bool \<Rightarrow> database \<Rightarrow> version_row list" where
  "versions_of aid published_only d =
     (if published_only
      then sort_key (\<lambda>v. desc_nulls_first (ver_published_at v))
             (filter (\<lambda>v. ver_app v = aid \<and> is_published v) (t_versions d))
      else sort_key (\<lambda>v. - ver_created_at v) (filter (\<lambda>v. ver_app v = aid) (t_versions d)))"

definition list_versions :: "env \<Rightarrow> string \<Rightarrow> bool \<Rightarrow> version list act" where
  "list_versions E aid published_only =
     query (\<lambda>d. scan_versions E (versions_of aid published_only d))"

definition queue_rows :: "database \<Rightarrow> version_row list" where
  "queue_rows d = sort_key ver_created_at (filter (\<lambda>v. ver_status v = ''in_review'') (t_versions d))"

definition list_review_queue :: "env \<Rightarrow> version list act" where
  "list_review_queue E =
     andthen (query (\<lambda>d. scan_versions E (queue_rows d)))
       (for_each (\<lambda>v. attempt (app_by_id E (v_app_id v))
          (\<lambda>r. case r of Inl e \<Rightarrow> ok v | Inr a \<Rightarrow> ok (v\<lparr>v_app := Some a\<rparr>))))"

section \<open>JSON columns\<close>

text \<open>
  A Go \<^verbatim>\<open>any\<close>: the nil interface, or a value with what \<^verbatim>\<open>json.Marshal\<close> makes of it (\<open>None\<close> when
  it errs). A nil pointer passed as \<^verbatim>\<open>any\<close> is a value, which marshals to JSON null. A column
  value is \<open>None\<close> for SQL NULL.
\<close>

datatype go_any = NilInterface | Boxed "json option"

definition json_or_null :: "go_any \<Rightarrow> json option" where
  "json_or_null value =
     (case value of NilInterface \<Rightarrow> None | Boxed None \<Rightarrow> None | Boxed (Some raw) \<Rightarrow> Some raw)"

definition json_or_default :: "go_any \<Rightarrow> json \<Rightarrow> json" where
  "json_or_default value fallback =
     (case value of
        NilInterface \<Rightarrow> fallback
      | Boxed None \<Rightarrow> fallback
      | Boxed (Some raw) \<Rightarrow> if raw = JNull then fallback else raw)"

text \<open>The two fields of the manifest handed to them: a pointer and a slice.\<close>

definition box_notes :: "release_note option \<Rightarrow> go_any" where
  "box_notes p = Boxed (Some (case p of None \<Rightarrow> JNull | Some n \<Rightarrow> n))"

definition box_authors :: "person list option \<Rightarrow> go_any" where
  "box_authors s = Boxed (Some (case s of None \<Rightarrow> JNull | Some ps \<Rightarrow> JArr ps))"

record chronicle_entry =
  ce_version :: string
  ce_channel :: string
  ce_published_at :: "time option"
  ce_notes :: "release_note option"
  ce_authors :: "string list"

text \<open>
  \<^verbatim>\<open>json.Unmarshal\<close> into a \<^verbatim>\<open>*catalog.ReleaseNote\<close>: null leaves the zero value and is no
  error. Into \<^verbatim>\<open>[]string\<close>: an element of another kind is left empty, and the decoder goes on.
\<close>

definition unmarshal_note_into_zero :: "env \<Rightarrow> json \<Rightarrow> release_note option" where
  "unmarshal_note_into_zero E j = (if j = JNull then Some (zero_note E) else unmarshal_note E j)"

fun unmarshal_strings :: "json \<Rightarrow> string list" where
  "unmarshal_strings (JArr js) = map (\<lambda>j. case j of JStr s \<Rightarrow> s | _ \<Rightarrow> []) js"
| "unmarshal_strings _ = []"

definition chronicle_entry_of :: "env \<Rightarrow> version_row \<Rightarrow> chronicle_entry" where
  "chronicle_entry_of E r =
     \<lparr>ce_version = ver_version r, ce_channel = ver_channel r,
      ce_published_at = ver_published_at r,
      ce_notes = (case ver_release_notes r of
                    None \<Rightarrow> None | Some j \<Rightarrow> unmarshal_note_into_zero E j),
      ce_authors = unmarshal_strings (ver_authors r)\<rparr>"

text \<open>\<^verbatim>\<open>ORDER BY published_at DESC NULLS LAST, version DESC\<close>.\<close>

definition desc_nulls_last :: "time option \<Rightarrow> nat \<times> int" where
  "desc_nulls_last p = (case p of Some t \<Rightarrow> (0, - t) | None \<Rightarrow> (1, 0))"

definition chronicle_rows :: "string \<Rightarrow> database \<Rightarrow> version_row list" where
  "chronicle_rows aid d =
     sort_key (\<lambda>v. desc_nulls_last (ver_published_at v))
       (rev (sort_key ver_version
         (filter (\<lambda>v. ver_app v = aid \<and> is_published v) (t_versions d))))"

definition chronicle :: "env \<Rightarrow> string \<Rightarrow> chronicle_entry list act" where
  "chronicle E aid = query (\<lambda>d. Inr (map (chronicle_entry_of E) (chronicle_rows aid d)))"

section \<open>Submitting\<close>

text \<open>
  \<^verbatim>\<open>catalog.TypeExternal\<close> is the literal the handlers' messages and the catalogue files name.
\<close>

definition type_external :: string where
  "type_external = ''external''"

definition type_module :: string where
  "type_module = ''module''"

definition external_from_manifest :: "env \<Rightarrow> string \<Rightarrow> manifest \<Rightarrow> external_registration option" where
  "external_from_manifest E aid m =
     (if \<not> is_external E m then None
      else case mf_external m of
          None \<Rightarrow> None
        | Some x \<Rightarrow>
            Some \<lparr>x_app_id = aid, x_launch_url = es_launch_url x,
                  x_sso_client_id = es_sso_client_id x, x_scopes = es_scopes x,
                  x_embed = (if es_embed x = [] then ''new_tab'' else es_embed x),
                  x_health_url = es_health_url x, x_webhook_url = []\<rparr>)"

definition version_key :: "version_row \<Rightarrow> string \<times> string \<times> string" where
  "version_key r = (ver_app r, ver_version r, ver_channel r)"

definition insert_version_stmt ::
  "env \<Rightarrow> version \<Rightarrow> json \<Rightarrow> time \<Rightarrow> uuid \<Rightarrow> database \<Rightarrow> err + uuid \<times> database" where
  "insert_version_stmt E v mjson t n d =
     (let new = (pg_version_defaults E)
            \<lparr>ver_id := n, ver_app := v_app_id v, ver_version := v_version v,
             ver_channel := v_channel v, ver_min_platform := v_min_platform v,
             ver_manifest := mjson, ver_status := v_status v,
             ver_submitted_by := v_submitted_by v, ver_created_at := t,
             ver_release_notes := json_or_null (box_notes (mf_notes (v_manifest v))),
             ver_authors := json_or_default (box_authors (mf_authors (v_manifest v))) (JArr [])\<rparr>
      in if list_ex (\<lambda>r. pg_version_clash E (version_key r) (version_key new)) (t_versions d)
         then Inl ErrUnique
         else Inr (n, d\<lparr>t_versions := t_versions d @ [new]\<rparr>))"

definition external_update :: "external_registration \<Rightarrow> external_row \<Rightarrow> external_row" where
  "external_update x r =
     r\<lparr>ex_launch_url := x_launch_url x, ex_sso_client_id := x_sso_client_id x,
       ex_scopes := x_scopes x, ex_embed := x_embed x, ex_health_url := x_health_url x\<rparr>"

definition upsert_external_stmt ::
  "env \<Rightarrow> string \<Rightarrow> external_registration \<Rightarrow> time \<Rightarrow> uuid \<Rightarrow> database \<Rightarrow> err + unit \<times> database" where
  "upsert_external_stmt E aid x t n d =
     Inr ((), d\<lparr>t_externals :=
       upsert (\<lambda>r. ex_app r = aid)
         (external_update x ((pg_external_defaults E)\<lparr>ex_app := aid\<rparr>))
         (external_update x) (t_externals d)\<rparr>)"

definition insert_event_stmt ::
  "env \<Rightarrow> string \<Rightarrow> string \<Rightarrow> string \<Rightarrow> string \<Rightarrow> string \<Rightarrow> time \<Rightarrow> uuid \<Rightarrow> database \<Rightarrow>
   err + unit \<times> database" where
  "insert_event_stmt E vid actor_id actor action note t n d =
     (case (pg_uuid E vid, nullif_uuid E actor_id) of
        (Some u, Inr by) \<Rightarrow>
          Inr ((), d\<lparr>t_events := t_events d @
            [\<lparr>ev_version = u, ev_actor_id = by, ev_actor = actor, ev_action = action,
              ev_note = note, ev_created_at = t\<rparr>]\<rparr>)
      | _ \<Rightarrow> Inl ErrDriver)"

definition submit_version ::
  "env \<Rightarrow> version \<Rightarrow> external_registration option \<Rightarrow> version act" where
  "submit_version E v external =
     (case marshal_manifest E (v_manifest v) of
        None \<Rightarrow> fail (ErrMsg ''json: unsupported value'')
      | Some mjson \<Rightarrow>
          andthen
            (transaction
              (andthen
                (attempt (stmt (insert_version_stmt E v mjson))
                  (\<lambda>r. case r of Inl e \<Rightarrow> fail (conflict_error e) | Inr u \<Rightarrow> ok u))
                (\<lambda>u. andthen
                  (case external of
                     None \<Rightarrow> ok ()
                   | Some x \<Rightarrow> stmt (upsert_external_stmt E (v_app_id v) x))
                  (\<lambda>_. andthen
                    (stmt (insert_event_stmt E (pg_uuid_text E u) [] (v_submitted_by v)
                             ''submitted'' []))
                    (\<lambda>_. ok u)))))
            (\<lambda>u. version_by_id E (pg_uuid_text E u)))"

text \<open>The checks of a submission, in the code's order; \<open>None\<close> when it passes.\<close>

definition submission_error :: "env \<Rightarrow> app \<Rightarrow> string \<Rightarrow> manifest \<Rightarrow> string option" where
  "submission_error E a channel m =
     (if channel \<noteq> ''stable'' \<and> channel \<noteq> ''beta''
      then Some (''channel must be '' @ quoted ''stable'' @ '' or '' @ quoted ''beta'')
      else if mf_id m \<noteq> a_id a then Some ''the manifest id must match the app id''
      else if (mf_type m = type_external) \<noteq> (a_type a = type_external)
      then Some ''the manifest type must match the app type''
      else validate_manifest E m [])"

definition submitted_version :: "app \<Rightarrow> string \<Rightarrow> manifest \<Rightarrow> string \<Rightarrow> version" where
  "submitted_version a channel m submitted_by =
     \<lparr>v_id = [], v_app_id = a_id a, v_version = mf_version m, v_channel = channel,
      v_min_platform = (if mf_platform m = [] then ''>=0.1.0'' else mf_platform m),
      v_manifest = m, v_status = ''in_review'', v_submitted_by = submitted_by,
      v_review_note = [], v_published_at = None, v_created_at = zero_time, v_app = None\<rparr>"

definition submit_manifest :: "env \<Rightarrow> app \<Rightarrow> string \<Rightarrow> manifest \<Rightarrow> string \<Rightarrow> version act" where
  "submit_manifest E a channel m submitted_by =
     (let channel = (if channel = [] then ''stable'' else channel) in
      case submission_error E a channel m of
        Some msg \<Rightarrow> fail (ErrInvalidSubmission (''invalid submission: '' @ msg))
      | None \<Rightarrow>
          submit_version E (submitted_version a channel m submitted_by)
            (external_from_manifest E (a_id a) m))"

section \<open>Deciding\<close>

fun status_of_action :: "string \<Rightarrow> string option" where
  "status_of_action action =
     (if action = ''publish'' then Some ''published''
      else if action = ''reject'' then Some ''rejected''
      else if action = ''yank'' then Some ''yanked''
      else None)"

definition decide_stmt ::
  "env \<Rightarrow> string \<Rightarrow> string \<Rightarrow> string \<Rightarrow> time \<Rightarrow> uuid \<Rightarrow> database \<Rightarrow> err + nat \<times> database" where
  "decide_stmt E vid status note t n d =
     (case pg_uuid E vid of
        None \<Rightarrow> Inl ErrDriver
      | Some u \<Rightarrow>
          Inr (length (filter (\<lambda>r. ver_id r = u) (t_versions d)),
               d\<lparr>t_versions :=
                 update_where (\<lambda>r. ver_id r = u)
                   (\<lambda>r. r\<lparr>ver_status := status, ver_note := note,
                          ver_published_at :=
                            (if status = ''published'' then Some t else ver_published_at r)\<rparr>)
                   (t_versions d)\<rparr>))"

text \<open>PostgreSQL's \<^verbatim>\<open>jsonb -> text\<close> and \<^verbatim>\<open>jsonb ->> text\<close>; \<open>None\<close> is SQL NULL.\<close>

definition json_field :: "json \<Rightarrow> string \<Rightarrow> json option" where
  "json_field j k = (case j of JObj fs \<Rightarrow> map_of fs k | _ \<Rightarrow> None)"

definition json_field_text :: "env \<Rightarrow> json \<Rightarrow> string \<Rightarrow> string option" where
  "json_field_text E j k =
     (case json_field j k of
        None \<Rightarrow> None
      | Some JNull \<Rightarrow> None
      | Some (JStr s) \<Rightarrow> Some s
      | Some v \<Rightarrow> Some (json_text E v))"

definition coalesce :: "'a option \<Rightarrow> 'a \<Rightarrow> 'a" where
  "coalesce x y = (case x of None \<Rightarrow> y | Some v \<Rightarrow> v)"

definition take_provenance :: "env \<Rightarrow> json \<Rightarrow> uuid option \<Rightarrow> time \<Rightarrow> app_row \<Rightarrow> app_row" where
  "take_provenance E m by t a =
     a\<lparr>app_authors := coalesce (json_field m ''authors'') (JArr []),
       app_maintainers := coalesce (json_field m ''maintainers'') (JArr []),
       app_repository := coalesce (json_field_text E m ''repository'') [],
       app_homepage := coalesce (json_field_text E m ''homepage'') [],
       app_license := coalesce (json_field_text E m ''license'') [],
       app_updated_by := by, app_updated_at := t\<rparr>"

definition provenance_stmt ::
  "env \<Rightarrow> string \<Rightarrow> string \<Rightarrow> time \<Rightarrow> uuid \<Rightarrow> database \<Rightarrow> err + unit \<times> database" where
  "provenance_stmt E vid actor_id t n d =
     (case (pg_uuid E vid, nullif_uuid E actor_id) of
        (Some u, Inr by) \<Rightarrow>
          Inr ((), (case find (\<lambda>r. ver_id r = u) (t_versions d) of
                      None \<Rightarrow> d
                    | Some v \<Rightarrow>
                        d\<lparr>t_apps := update_where (\<lambda>a. app_id a = ver_app v)
                            (take_provenance E (ver_manifest v) by t) (t_apps d)\<rparr>))
      | _ \<Rightarrow> Inl ErrDriver)"

definition decide_version ::
  "env \<Rightarrow> string \<Rightarrow> string \<Rightarrow> string \<Rightarrow> string \<Rightarrow> string \<Rightarrow> unit act" where
  "decide_version E vid action actor_id actor note =
     (case status_of_action action of
        None \<Rightarrow> fail (ErrMsg (''unknown review action '' @ quoted action))
      | Some status \<Rightarrow>
          transaction
            (andthen (stmt (decide_stmt E vid status note))
              (\<lambda>rows. if rows = 0 then fail ErrNotFound
                else andthen
                  (if status = ''published'' then stmt (provenance_stmt E vid actor_id) else ok ())
                  (\<lambda>_. andthen (stmt (insert_event_stmt E vid actor_id actor action note))
                    (\<lambda>_. bump_revision)))))"

definition history_rows :: "uuid \<Rightarrow> database \<Rightarrow> event_row list" where
  "history_rows u d = sort_key ev_created_at (filter (\<lambda>e. ev_version e = u) (t_events d))"

text \<open>The columns \<^verbatim>\<open>actor, action, note, created_at\<close> of the events of a version.\<close>

definition review_history :: "env \<Rightarrow> string \<Rightarrow> (string \<times> string \<times> string \<times> time) list act" where
  "review_history E vid =
     query (\<lambda>d. case pg_uuid E vid of
                  None \<Rightarrow> Inl ErrDriver
                | Some u \<Rightarrow>
                    Inr (map (\<lambda>e. (ev_actor e, ev_action e, ev_note e, ev_created_at e))
                             (history_rows u d)))"

definition external_registration_of :: "string \<Rightarrow> external_registration act" where
  "external_registration_of aid =
     query (\<lambda>d. case find (\<lambda>r. ex_app r = aid) (t_externals d) of
                  None \<Rightarrow> Inl ErrNotFound
                | Some r \<Rightarrow>
                    Inr \<lparr>x_app_id = ex_app r, x_launch_url = ex_launch_url r,
                         x_sso_client_id = ex_sso_client_id r, x_scopes = ex_scopes r,
                         x_embed = ex_embed r, x_health_url = ex_health_url r,
                         x_webhook_url = ex_webhook_url r\<rparr>)"

end
