(* ===== verification/Catalog.thy ===== *)
theory Catalog
  imports Platforms StoreVersions
begin

text \<open>
  \<^verbatim>\<open>modules/registry/catalog.go\<close>: the signer, the selection of the versions a platform is
  offered, the signed document and its cache. \<open>build\<close> is the code's sequence of queries;
  \<open>build_pure\<close> is what it computes from the tables, and the first lemmas show that the code
  returns that or the error of a driver call, for every schedule.
\<close>

section \<open>Signing\<close>

record signer =
  sg_key_id :: string
  sg_private :: string

definition new_signer :: "env \<Rightarrow> string \<Rightarrow> string \<Rightarrow> err + signer" where
  "new_signer E key_id encoded =
     (case std_decode encoded of
        None \<Rightarrow> Inl (ErrMsg ''decode signing key'')
      | Some raw \<Rightarrow>
          if length raw = 64 then Inr \<lparr>sg_key_id = key_id, sg_private = raw\<rparr>
          else if length raw = 32 then Inr \<lparr>sg_key_id = key_id, sg_private = ed_from_seed E raw\<rparr>
          else Inl (ErrMsg ''signing key has the wrong length''))"

definition public_key :: "env \<Rightarrow> signer \<Rightarrow> string" where
  "public_key E s = std_encode (ed_public E (sg_private s))"

definition signed_message :: "string \<Rightarrow> string \<Rightarrow> string" where
  "signed_message generated_at apps = generated_at @ [CHR 0x0A] @ apps"

definition sign :: "env \<Rightarrow> signer \<Rightarrow> string \<Rightarrow> string \<Rightarrow> string" where
  "sign E s generated_at apps =
     std_encode (ed_sign E (sg_private s) (signed_message generated_at apps))"

text \<open>\<^verbatim>\<open>json.Marshal\<close> of the struct \<^verbatim>\<open>signedDocument\<close>, whose \<^verbatim>\<open>apps\<close> is embedded as it is.\<close>

definition json_key :: "string \<Rightarrow> string" where
  "json_key k = CHR 0x22 # k @ [CHR 0x22, CHR '':'']"

definition render_document :: "env \<Rightarrow> string \<Rightarrow> string \<Rightarrow> string \<Rightarrow> string \<Rightarrow> string" where
  "render_document E stamp key_id apps signature =
     ''{'' @ json_key ''generated_at'' @ json_quote E stamp @
     '','' @ json_key ''key_id'' @ json_quote E key_id @
     '','' @ json_key ''apps'' @ apps @
     '','' @ json_key ''signature'' @ json_quote E signature @ ''}''"

definition sign_document ::
  "env \<Rightarrow> signer \<Rightarrow> time \<Rightarrow> catalog_app list \<Rightarrow> err + string \<times> time" where
  "sign_document E s generated_at apps =
     (case marshal_apps E apps of
        None \<Rightarrow> Inl (ErrMsg ''json: unsupported value'')
      | Some apps_json \<Rightarrow>
          let g = (if generated_at = zero_time then 0 else generated_at);
              stamp = rfc3339 g
          in Inr (render_document E stamp (sg_key_id s) apps_json (sign E s stamp apps_json), g))"

section \<open>Selecting\<close>

definition platform_allows :: "env \<Rightarrow> string \<Rightarrow> string \<Rightarrow> bool" where
  "platform_allows E con platform =
     (if con = [] then True
      else case semver_constraint E con of None \<Rightarrow> False | Some check \<Rightarrow> check platform)"

text \<open>
  The rows of the catalogue query: an app and one of its published versions on the channel, for
  every app that is public or among the given ids, \<^verbatim>\<open>ORDER BY a.id, v.published_at\<close> (ascending,
  NULL last).
\<close>

definition visible :: "string list \<Rightarrow> app_row \<Rightarrow> bool" where
  "visible ids a \<longleftrightarrow> app_visibility a = ''public'' \<or> app_id a \<in> set ids"

definition offered :: "string \<Rightarrow> app_row \<Rightarrow> version_row \<Rightarrow> bool" where
  "offered channel a v \<longleftrightarrow> ver_app v = app_id a \<and> ver_channel v = channel \<and> is_published v"

definition asc_nulls_last :: "time option \<Rightarrow> nat \<times> int" where
  "asc_nulls_last p = (case p of Some t \<Rightarrow> (0, t) | None \<Rightarrow> (1, 0))"

definition row_key :: "app_row \<times> version_row \<Rightarrow> string \<times> nat \<times> int" where
  "row_key r = (app_id (fst r), asc_nulls_last (ver_published_at (snd r)))"

definition joined_rows :: "string \<Rightarrow> string list \<Rightarrow> database \<Rightarrow> (app_row \<times> version_row) list" where
  "joined_rows channel ids d =
     concat (map (\<lambda>a. map (Pair a) (filter (offered channel a) (t_versions d)))
                 (filter (visible ids) (t_apps d)))"

definition catalog_rows :: "string \<Rightarrow> string list \<Rightarrow> database \<Rightarrow> (app_row \<times> version_row) list" where
  "catalog_rows channel ids d = sort_key row_key (joined_rows channel ids d)"

definition catalog_entry :: "manifest \<Rightarrow> app_row \<times> version_row \<Rightarrow> catalog_app" where
  "catalog_entry m r =
     \<lparr>ca_id = app_id (fst r), ca_slug = app_slug (fst r), ca_name = app_name (fst r),
      ca_description = app_description (fst r), ca_icon_url = app_icon_url (fst r),
      ca_category = app_category (fst r), ca_visibility = app_visibility (fst r),
      ca_version = ver_version (snd r), ca_manifest = m, ca_translations = []\<rparr>"

record build_state =
  bs_generated :: time
  bs_chosen :: "string \<Rightarrow> catalog_app option"
  bs_order :: "string list"

definition build_init :: build_state where
  "build_init = \<lparr>bs_generated = zero_time, bs_chosen = (\<lambda>_. None), bs_order = []\<rparr>"

definition later :: "time option \<Rightarrow> time \<Rightarrow> time" where
  "later p g = (case p of None \<Rightarrow> g | Some t \<Rightarrow> if g < t then t else g)"

definition build_row ::
  "env \<Rightarrow> string \<Rightarrow> app_row \<times> version_row \<Rightarrow> build_state \<Rightarrow> err + build_state" where
  "build_row E platform r st =
     (if \<not> platform_allows E (ver_min_platform (snd r)) platform then Inr st
      else case unmarshal_manifest E (ver_manifest (snd r)) of
        None \<Rightarrow> Inl (ErrMsg ''decode manifest'')
      | Some m \<Rightarrow>
          let a = catalog_entry m r; aid = ca_id a in
          (case bs_chosen st aid of
             None \<Rightarrow>
               Inr (st\<lparr>bs_order := bs_order st @ [aid],
                       bs_chosen := (bs_chosen st)(aid := Some a),
                       bs_generated := later (ver_published_at (snd r)) (bs_generated st)\<rparr>)
           | Some held \<Rightarrow>
               if \<not> is_newer E (ca_version a) (ca_version held) then Inr st
               else Inr (st\<lparr>bs_chosen := (bs_chosen st)(aid := Some a),
                            bs_generated :=
                              later (ver_published_at (snd r)) (bs_generated st)\<rparr>)))"

fun build_rows ::
  "env \<Rightarrow> string \<Rightarrow> (app_row \<times> version_row) list \<Rightarrow> build_state \<Rightarrow> err + build_state" where
  "build_rows E platform [] st = Inr st"
| "build_rows E platform (r # rs) st =
     (case build_row E platform r st of
        Inl e \<Rightarrow> Inl e | Inr st' \<Rightarrow> build_rows E platform rs st')"

definition chosen_apps :: "build_state \<Rightarrow> catalog_app list" where
  "chosen_apps st = map (\<lambda>i. the (bs_chosen st i)) (bs_order st)"

definition with_texts :: "catalog_app \<Rightarrow> (string \<times> app_text) list \<Rightarrow> catalog_app" where
  "with_texts a ts = (if ts = [] then a else a\<lparr>ca_translations := ts\<rparr>)"

section \<open>Building\<close>

record snapshot =
  ss_revision :: int
  ss_generated_at :: time
  ss_etag :: string
  ss_document :: string

definition etag_of :: "env \<Rightarrow> string \<Rightarrow> string" where
  "etag_of E doc = CHR 0x22 # ''sha256:'' @ hex_encode (sha256 E doc) @ [CHR 0x22]"

text \<open>The last part of \<^verbatim>\<open>build\<close>: validate, sort, sign, hash.\<close>

definition finish ::
  "env \<Rightarrow> signer \<Rightarrow> string \<Rightarrow> int \<Rightarrow> time \<Rightarrow> catalog_app list \<Rightarrow> err + snapshot" where
  "finish E s platform rv generated_at apps =
     (case validate_catalog E apps platform of
        Some msg \<Rightarrow> Inl (ErrMsg (''refusing to sign an invalid catalog: '' @ msg))
      | None \<Rightarrow>
          (case sign_document E s generated_at (sort_key ca_id apps) of
             Inl e \<Rightarrow> Inl e
           | Inr (doc, g) \<Rightarrow>
               Inr \<lparr>ss_revision = rv, ss_generated_at = g, ss_etag = etag_of E doc,
                    ss_document = doc\<rparr>))"

definition build ::
  "env \<Rightarrow> signer \<Rightarrow> string \<Rightarrow> string \<Rightarrow> int \<Rightarrow> audience \<Rightarrow> snapshot act" where
  "build E s channel platform rv aud =
     (if \<not> semver_valid E platform then fail (ErrMsg ''invalid platform version'')
      else andthen (query (\<lambda>d. Inr (catalog_rows channel (aud_app_ids aud) d)))
        (\<lambda>rows. case build_rows E platform rows build_init of
            Inl e \<Rightarrow> fail e
          | Inr st \<Rightarrow>
              andthen
                (for_each (\<lambda>a. andthen (app_texts (ca_id a)) (\<lambda>ts. ok (with_texts a ts)))
                  (chosen_apps st))
                (\<lambda>apps. lift_err (finish E s platform rv (bs_generated st) apps))))"

definition selected_apps ::
  "env \<Rightarrow> string \<Rightarrow> string \<Rightarrow> audience \<Rightarrow> database \<Rightarrow> err + time \<times> catalog_app list" where
  "selected_apps E channel platform aud d =
     (case build_rows E platform (catalog_rows channel (aud_app_ids aud) d) build_init of
        Inl e \<Rightarrow> Inl e
      | Inr st \<Rightarrow>
          Inr (bs_generated st,
               map (\<lambda>a. with_texts a (texts_of (ca_id a) d)) (chosen_apps st)))"

definition build_pure ::
  "env \<Rightarrow> signer \<Rightarrow> string \<Rightarrow> string \<Rightarrow> int \<Rightarrow> audience \<Rightarrow> database \<Rightarrow> err + snapshot" where
  "build_pure E s channel platform rv aud d =
     (if \<not> semver_valid E platform then Inl (ErrMsg ''invalid platform version'')
      else case selected_apps E channel platform aud d of
          Inl e \<Rightarrow> Inl e
        | Inr (g, apps) \<Rightarrow> finish E s platform rv g apps)"

section \<open>The cache\<close>

definition snapshot_of_row :: "snapshot_row \<Rightarrow> snapshot" where
  "snapshot_of_row r =
     \<lparr>ss_revision = sn_revision r, ss_generated_at = sn_generated_at r, ss_etag = sn_etag r,
      ss_document = sn_document r\<rparr>"

definition row_of_snapshot :: "string \<Rightarrow> string \<Rightarrow> snapshot \<Rightarrow> time \<Rightarrow> snapshot_row" where
  "row_of_snapshot channel platform s t =
     \<lparr>sn_channel = channel, sn_platform = platform, sn_revision = ss_revision s,
      sn_generated_at = ss_generated_at s, sn_etag = ss_etag s, sn_document = ss_document s,
      sn_built_at = t\<rparr>"

definition at_key :: "string \<Rightarrow> string \<Rightarrow> snapshot_row \<Rightarrow> bool" where
  "at_key channel platform r \<longleftrightarrow> sn_channel r = channel \<and> sn_platform r = platform"

definition load_public :: "string \<times> string \<Rightarrow> database \<Rightarrow> snapshot option" where
  "load_public k d =
     map_option snapshot_of_row (find (at_key (fst k) (snd k)) (t_snapshots d))"

definition load_private :: "uuid \<times> string \<times> string \<Rightarrow> database \<Rightarrow> snapshot option" where
  "load_private k d =
     map_option (\<lambda>p. snapshot_of_row (snd p))
       (find (\<lambda>p. fst p = fst k \<and> at_key (fst (snd k)) (snd (snd k)) (snd p)) (t_private d))"

definition load_snapshot :: "env \<Rightarrow> string \<Rightarrow> string \<Rightarrow> audience \<Rightarrow> snapshot option act" where
  "load_snapshot E channel platform aud =
     (if anonymous aud then query (\<lambda>d. Inr (load_public (channel, platform) d))
      else query (\<lambda>d. case pg_uuid E (aud_platform_id aud) of
                        None \<Rightarrow> Inl ErrDriver
                      | Some u \<Rightarrow> Inr (load_private (u, channel, platform) d)))"

definition store_public :: "string \<times> string \<Rightarrow> snapshot \<Rightarrow> time \<Rightarrow> database \<Rightarrow> database" where
  "store_public k s t d =
     d\<lparr>t_snapshots :=
       upsert (at_key (fst k) (snd k)) (row_of_snapshot (fst k) (snd k) s t)
         (\<lambda>r. row_of_snapshot (fst k) (snd k) s t) (t_snapshots d)\<rparr>"

definition store_private ::
  "uuid \<times> string \<times> string \<Rightarrow> snapshot \<Rightarrow> time \<Rightarrow> database \<Rightarrow> database" where
  "store_private k s t d =
     d\<lparr>t_private :=
       upsert (\<lambda>p. fst p = fst k \<and> at_key (fst (snd k)) (snd (snd k)) (snd p))
         (fst k, row_of_snapshot (fst (snd k)) (snd (snd k)) s t)
         (\<lambda>p. (fst k, row_of_snapshot (fst (snd k)) (snd (snd k)) s t)) (t_private d)\<rparr>"

text \<open>
  The columns of \<^verbatim>\<open>store_private_snapshots\<close> are bounded, and its platform must exist.
\<close>

definition save_private_stmt ::
  "env \<Rightarrow> string \<Rightarrow> string \<Rightarrow> string \<Rightarrow> snapshot \<Rightarrow> time \<Rightarrow> uuid \<Rightarrow> database \<Rightarrow>
   err + unit \<times> database" where
  "save_private_stmt E platform_id channel platform s t n d =
     (case pg_uuid E platform_id of
        None \<Rightarrow> Inl ErrDriver
      | Some u \<Rightarrow>
          if 16 < char_count channel \<or> 32 < char_count platform \<or> 80 < char_count (ss_etag s)
             \<or> \<not> list_ex (\<lambda>p. pl_id p = u) (t_platforms d)
          then Inl ErrDriver
          else Inr ((), store_private (u, channel, platform) s t d))"

definition save_public_stmt ::
  "string \<Rightarrow> string \<Rightarrow> snapshot \<Rightarrow> time \<Rightarrow> uuid \<Rightarrow> database \<Rightarrow> err + unit \<times> database" where
  "save_public_stmt channel platform s t n d = Inr ((), store_public (channel, platform) s t d)"

definition max_snapshots_per_channel :: nat where
  "max_snapshots_per_channel = 64"

definition kept_platforms :: "string \<Rightarrow> database \<Rightarrow> string list" where
  "kept_platforms channel d =
     map sn_platform
       (take max_snapshots_per_channel
         (sort_key (\<lambda>r. - sn_built_at r)
           (filter (\<lambda>r. sn_channel r = channel) (t_snapshots d))))"

definition prune_stmt :: "string \<Rightarrow> time \<Rightarrow> uuid \<Rightarrow> database \<Rightarrow> err + unit \<times> database" where
  "prune_stmt channel t n d =
     Inr ((), d\<lparr>t_snapshots :=
       filter (\<lambda>r. \<not> (sn_channel r = channel \<and> sn_platform r \<notin> set (kept_platforms channel d)))
         (t_snapshots d)\<rparr>)"

definition prune_snapshots :: "string \<Rightarrow> unit act" where
  "prune_snapshots channel = stmt (prune_stmt channel)"

text \<open>The deferred prune runs after the insert, whatever the insert returned.\<close>

definition save_snapshot ::
  "env \<Rightarrow> string \<Rightarrow> string \<Rightarrow> audience \<Rightarrow> snapshot \<Rightarrow> unit act" where
  "save_snapshot E channel platform aud s =
     (if \<not> anonymous aud
      then stmt (save_private_stmt E (aud_platform_id aud) channel platform s)
      else attempt (stmt (save_public_stmt channel platform s))
        (\<lambda>r. attempt (prune_snapshots channel) (\<lambda>_. lift_err r)))"

definition default_platform :: string where
  "default_platform = ''1.0.0''"

definition or_default :: "string \<Rightarrow> string \<Rightarrow> string" where
  "or_default s fallback = (if s = [] then fallback else s)"

definition catalog :: "env \<Rightarrow> signer \<Rightarrow> string \<Rightarrow> string \<Rightarrow> audience \<Rightarrow> snapshot act" where
  "catalog E s channel platform aud =
     (let channel = or_default channel ''stable'';
          platform = or_default platform default_platform in
      andthen revision (\<lambda>rv.
        andthen (load_snapshot E channel platform aud)
          (\<lambda>held.
            if (case held of None \<Rightarrow> False | Some h \<Rightarrow> ss_revision h = rv)
            then ok (the held)
            else andthen (build E s channel platform rv aud)
              (\<lambda>built. attempt (save_snapshot E channel platform aud built) (\<lambda>_. ok built)))))"

end
