(* ===== verification/CatalogLaws.thy ===== *)
theory CatalogLaws
  imports Catalog "HOL-Library.Multiset"
begin

text \<open>
  What the catalogue builder computes. \<open>newest\<close> is the reference for the loop over the rows: for
  each app the newest version the platform can run, with ties going to the earlier row. The
  lemmas give the refinement of the effectful builder by \<open>build_pure\<close>, the correspondence of the
  loop with \<open>newest\<close>, and the facts about selection, order and the time stamp that the
  properties rest on.
\<close>

section \<open>The effectful builder computes build_pure\<close>

text \<open>A loop of queries, each a function of the tables.\<close>

definition reads :: "(database \<Rightarrow> 'a) \<Rightarrow> 'a act \<Rightarrow> bool" where
  "reads g m \<longleftrightarrow>
     (\<forall>w. m w = (if fails w then (Inl ErrDriver, tick w) else (Inr (g (tables w)), tick w)))"

lemma reads_texts:
  "reads (\<lambda>d. with_texts a (texts_of (ca_id a) d))
     (andthen (app_texts (ca_id a)) (\<lambda>ts. ok (with_texts a ts)))"
  by (simp add: reads_def app_texts_def query_def andthen_apply)

lemma for_each_reads:
  assumes "\<And>x. reads (g x) (f x)" and "for_each f xs w = (r, w')"
  shows "tables w' = tables w \<and> (r = Inl ErrDriver \<or> r = Inr (map (\<lambda>x. g x (tables w)) xs))"
  using assms(2)
proof (induction xs arbitrary: w r w')
  case (Cons x xs)
  have f: "f x w = (if fails w then (Inl ErrDriver, tick w) else (Inr (g x (tables w)), tick w))"
    using assms(1) by (simp add: reads_def)
  obtain r1 w1 where rest: "for_each f xs (tick w) = (r1, w1)" by fastforce
  from Cons.IH [OF this] have "tables w1 = tables w"
    and "r1 = Inl ErrDriver \<or> r1 = Inr (map (\<lambda>x. g x (tables w)) xs)"
    by simp_all
  with f rest Cons.prems show ?case
    by (auto simp: andthen_apply split: if_splits)
qed simp

lemma for_each_reads_quiet:
  assumes "\<And>x. reads (g x) (f x)" and "quiet w"
  shows "fst (for_each f xs w) = Inr (map (\<lambda>x. g x (tables w)) xs)"
  using assms(2)
proof (induction xs arbitrary: w)
  case (Cons x xs)
  have f: "f x w = (Inr (g x (tables w)), tick w)"
    using assms(1) Cons.prems by (simp add: reads_def)
  from f Cons.IH [of "tick w"] Cons.prems show ?case
    by (auto simp: andthen_apply split: prod.splits sum.splits)
qed simp

lemma build_result:
  assumes "build E s channel platform rv aud w = (r, w')"
  shows "tables w' = tables w \<and>
         (r = Inl ErrDriver \<or> r = build_pure E s channel platform rv aud (tables w))"
proof (cases "\<not> semver_valid E platform \<or> fails w")
  case True
  with assms show ?thesis
    by (auto simp: build_def build_pure_def query_def andthen_apply)
next
  case False
  show ?thesis
  proof (cases "build_rows E platform (catalog_rows channel (aud_app_ids aud) (tables w)) build_init")
    case (Inl e)
    with False assms show ?thesis
      by (auto simp: build_def build_pure_def selected_apps_def query_def andthen_apply)
  next
    case (Inr st)
    obtain r1 w1 where texts:
      "for_each (\<lambda>a. andthen (app_texts (ca_id a)) (\<lambda>ts. ok (with_texts a ts)))
         (chosen_apps st) (tick w) = (r1, w1)" by fastforce
    from for_each_reads [OF reads_texts this] have "tables w1 = tables w"
      and "r1 = Inl ErrDriver \<or>
           r1 = Inr (map (\<lambda>a. with_texts a (texts_of (ca_id a) (tables w))) (chosen_apps st))"
      by simp_all
    with False Inr texts assms show ?thesis
      by (auto simp: build_def build_pure_def selected_apps_def query_def andthen_apply)
  qed
qed

lemma build_quiet [quiet_rules]:
  assumes "quiet w"
  shows "fst (build E s channel platform rv aud w) = build_pure E s channel platform rv aud (tables w)"
proof (cases "semver_valid E platform")
  case True
  show ?thesis
  proof (cases "build_rows E platform (catalog_rows channel (aud_app_ids aud) (tables w)) build_init")
    case (Inl e)
    with True assms show ?thesis
      by (simp add: build_def build_pure_def selected_apps_def query_quiet andthen_apply)
  next
    case (Inr st)
    have "fst (for_each (\<lambda>a. andthen (app_texts (ca_id a)) (\<lambda>ts. ok (with_texts a ts)))
           (chosen_apps st) (tick w)) =
          Inr (map (\<lambda>a. with_texts a (texts_of (ca_id a) (tables w))) (chosen_apps st))"
      using for_each_reads_quiet [OF reads_texts, of "tick w"] assms by simp
    with Inr True assms show ?thesis
      by (auto simp: build_def build_pure_def selected_apps_def query_quiet andthen_apply
          split: prod.splits)
  qed
qed (simp add: build_def build_pure_def)

lemma keeps_quiet_build [keeps_intros]: "keeps quiet (build E s channel platform rv aud)"
  unfolding build_def app_texts_def by (intro keeps_intros)

section \<open>The loop and its reference\<close>

definition allowed :: "env \<Rightarrow> string \<Rightarrow> app_row \<times> version_row \<Rightarrow> bool" where
  "allowed E platform r \<longleftrightarrow> platform_allows E (ver_min_platform (snd r)) platform"

definition candidates ::
  "env \<Rightarrow> string \<Rightarrow> string \<Rightarrow> (app_row \<times> version_row) list \<Rightarrow> (app_row \<times> version_row) list" where
  "candidates E platform i rs = filter (\<lambda>r. app_id (fst r) = i \<and> allowed E platform r) rs"

fun newest ::
  "env \<Rightarrow> (app_row \<times> version_row) option \<Rightarrow> (app_row \<times> version_row) list \<Rightarrow>
   (app_row \<times> version_row) option" where
  "newest E held [] = held"
| "newest E None (r # rs) = newest E (Some r) rs"
| "newest E (Some h) (r # rs) =
     newest E (Some (if is_newer E (ver_version (snd r)) (ver_version (snd h)) then r else h)) rs"

definition entry_of :: "env \<Rightarrow> app_row \<times> version_row \<Rightarrow> catalog_app" where
  "entry_of E r = catalog_entry (the (unmarshal_manifest E (ver_manifest (snd r)))) r"

lemma entry_of_simps [simp]:
  "ca_id (entry_of E r) = app_id (fst r)" "ca_version (entry_of E r) = ver_version (snd r)"
  "ca_visibility (entry_of E r) = app_visibility (fst r)" "ca_translations (entry_of E r) = []"
  by (simp_all add: entry_of_def catalog_entry_def)

text \<open>The documented behaviour of \<^verbatim>\<open>catalog.IsNewerVersion\<close>: a strict order.\<close>

definition newer_order :: "env \<Rightarrow> bool" where
  "newer_order E \<longleftrightarrow>
     (\<forall>a. \<not> is_newer E a a) \<and> (\<forall>a b c. is_newer E a b \<longrightarrow> is_newer E b c \<longrightarrow> is_newer E a c)"

lemma newest_member:
  "newest E h rs = Some r \<Longrightarrow> h = Some r \<or> r \<in> set rs"
  by (induction E h rs rule: newest.induct) (auto split: if_splits)

lemma newest_None: "newest E h rs = None \<longleftrightarrow> h = None \<and> rs = []"
  by (induction E h rs rule: newest.induct) auto

lemma newer_irrefl: "newer_order E \<Longrightarrow> \<not> is_newer E a a"
  by (simp add: newer_order_def)

lemma newer_trans: "newer_order E \<Longrightarrow> is_newer E a b \<Longrightarrow> is_newer E b c \<Longrightarrow> is_newer E a c"
  unfolding newer_order_def by blast

lemma newest_improves:
  assumes "newer_order E" and "newest E (Some h) rs = Some r"
  shows "r = h \<or> is_newer E (ver_version (snd r)) (ver_version (snd h))"
  using assms(2)
proof (induction rs arbitrary: h)
  case (Cons x rs)
  show ?case
  proof (cases "is_newer E (ver_version (snd x)) (ver_version (snd h))")
    case True
    with Cons.prems have "r = x \<or> is_newer E (ver_version (snd r)) (ver_version (snd x))"
      by (intro Cons.IH) simp
    with True show ?thesis using newer_trans [OF assms(1)] by blast
  next
    case False
    with Cons.prems show ?thesis by (intro Cons.IH) simp
  qed
qed simp

lemma newest_maximal:
  assumes "newer_order E" and "newest E h rs = Some r" and "r' \<in> set rs \<union> set_option h"
  shows "\<not> is_newer E (ver_version (snd r')) (ver_version (snd r))"
  using assms(2,3)
proof (induction rs arbitrary: h)
  case Nil
  then show ?case using newer_irrefl [OF assms(1)] by auto
next
  case (Cons x rs)
  let ?v = "\<lambda>r. ver_version (snd r)"
  show ?case
  proof (cases h)
    case None
    with Cons show ?thesis by auto
  next
    case (Some y)
    let ?b = "if is_newer E (?v x) (?v y) then x else y"
    have r: "newest E (Some ?b) rs = Some r"
      using Cons.prems(1) Some by simp
    have best: "r = ?b \<or> is_newer E (?v r) (?v ?b)"
      by (rule newest_improves [OF assms(1) r])
    show ?thesis
    proof (cases "r' \<in> set rs \<union> {?b}")
      case True
      then have "r' \<in> set rs \<union> set_option (Some ?b)" by simp
      with r show ?thesis by (rule Cons.IH)
    next
      case False
      with Cons.prems(2) Some
      have r': "r' = (if is_newer E (?v x) (?v y) then y else x)"
        by auto
      show ?thesis
      proof
        assume n: "is_newer E (?v r') (?v r)"
        with best have "is_newer E (?v r') (?v ?b)"
          using newer_trans [OF assms(1)] by blast
        with r' show False
          using newer_irrefl [OF assms(1)] newer_trans [OF assms(1)]
          by (auto split: if_splits)
      qed
    qed
  qed
qed

text \<open>The loop, row by row: what is chosen for an app is the newest of its allowed rows.\<close>

lemma newest_append:
  "newest E h (rs @ [r]) =
     (case newest E h rs of
        None \<Rightarrow> Some r
      | Some b \<Rightarrow> Some (if is_newer E (ver_version (snd r)) (ver_version (snd b)) then r else b))"
  by (induction E h rs rule: newest.induct) (auto split: option.split)

lemma build_rows_append:
  "build_rows E platform (rs @ qs) st =
     (case build_rows E platform rs st of Inl e \<Rightarrow> Inl e | Inr st' \<Rightarrow> build_rows E platform qs st')"
  by (induction rs arbitrary: st) (auto split: sum.split)

lemma build_rows_snoc_Inr:
  assumes "build_rows E platform (rs @ [r]) st = Inr st2"
  obtains st1 where "build_rows E platform rs st = Inr st1" and "build_row E platform r st1 = Inr st2"
  using assms by (auto simp: build_rows_append split: sum.splits)

lemma candidates_snoc:
  "candidates E platform i (rs @ [r]) =
     (if app_id (fst r) = i \<and> allowed E platform r
      then candidates E platform i rs @ [r] else candidates E platform i rs)"
  by (simp add: candidates_def)

lemma candidates_member:
  "r \<in> set (candidates E platform i rs) \<longleftrightarrow>
     r \<in> set rs \<and> app_id (fst r) = i \<and> allowed E platform r"
  by (auto simp: candidates_def)

lemma chosen_newest:
  assumes "build_rows E platform rs build_init = Inr st"
  shows "bs_chosen st i = map_option (entry_of E) (newest E None (candidates E platform i rs))"
  using assms
proof (induction rs arbitrary: st rule: rev_induct)
  case Nil
  then show ?case by (auto simp: build_init_def candidates_def)
next
  case (snoc r rs)
  from build_rows_snoc_Inr [OF snoc.prems] obtain st1
    where st1: "build_rows E platform rs build_init = Inr st1"
      and row: "build_row E platform r st1 = Inr st" .
  from snoc.IH [OF st1]
  have ih: "bs_chosen st1 i = map_option (entry_of E) (newest E None (candidates E platform i rs))" .
  show ?case
  proof (cases "app_id (fst r) = i \<and> allowed E platform r")
    case True
    with row obtain m where m: "unmarshal_manifest E (ver_manifest (snd r)) = Some m"
      by (auto simp: build_row_def allowed_def split: option.splits)
    then have e: "catalog_entry m r = entry_of E r" by (simp add: entry_of_def)
    from True row m ih show ?thesis
      by (cases "newest E None (candidates E platform i rs)")
        (auto simp: build_row_def allowed_def e candidates_snoc newest_append
          split: option.splits if_splits)
  next
    case False
    with row ih show ?thesis
      by (auto simp: build_row_def allowed_def candidates_snoc Let_def catalog_entry_def
          split: option.splits if_splits)
  qed
qed

lemma order_candidates:
  assumes "build_rows E platform rs build_init = Inr st"
  shows "distinct (bs_order st) \<and> set (bs_order st) = {i. bs_chosen st i \<noteq> None}"
  using assms
proof (induction rs arbitrary: st rule: rev_induct)
  case Nil
  then show ?case by (auto simp: build_init_def)
next
  case (snoc r rs)
  from build_rows_snoc_Inr [OF snoc.prems] obtain st1
    where st1: "build_rows E platform rs build_init = Inr st1"
      and row: "build_row E platform r st1 = Inr st" .
  from snoc.IH [OF st1] row show ?case
    by (auto simp: build_row_def Let_def split: option.splits if_splits)
qed

lemma build_rows_decodes:
  assumes "build_rows E platform rs st = Inr st'" and "r \<in> set rs" and "allowed E platform r"
  shows "unmarshal_manifest E (ver_manifest (snd r)) \<noteq> None"
  using assms
proof (induction rs arbitrary: st)
  case (Cons x rs)
  then show ?case
    by (auto simp: build_row_def allowed_def split: option.splits if_splits sum.splits)
qed simp

lemma build_rows_total:
  assumes "\<And>r. r \<in> set rs \<Longrightarrow> allowed E platform r \<Longrightarrow>
      unmarshal_manifest E (ver_manifest (snd r)) \<noteq> None"
  shows "\<exists>st'. build_rows E platform rs st = Inr st'"
  using assms
proof (induction rs arbitrary: st)
  case (Cons r rs)
  have "\<exists>st1. build_row E platform r st = Inr st1"
    using Cons.prems [of r] by (auto simp: build_row_def allowed_def Let_def split: option.split)
  with Cons show ?case by auto
qed simp

section \<open>What a document lists\<close>

text \<open>The rows an audience is offered for a platform, and the reference for its choice.\<close>

definition eligible ::
  "env \<Rightarrow> string \<Rightarrow> string \<Rightarrow> string list \<Rightarrow> database \<Rightarrow> app_row \<times> version_row \<Rightarrow> bool" where
  "eligible E channel platform ids d r \<longleftrightarrow>
     fst r \<in> set (t_apps d) \<and> visible ids (fst r) \<and> snd r \<in> set (t_versions d)
     \<and> offered channel (fst r) (snd r) \<and> allowed E platform r"

lemma set_catalog_rows:
  "r \<in> set (catalog_rows channel ids d) \<longleftrightarrow>
     fst r \<in> set (t_apps d) \<and> visible ids (fst r) \<and> snd r \<in> set (t_versions d)
     \<and> offered channel (fst r) (snd r)"
  by (cases r) (auto simp: catalog_rows_def joined_rows_def)

lemma candidates_eligible:
  "r \<in> set (candidates E platform i (catalog_rows channel ids d)) \<longleftrightarrow>
     eligible E channel platform ids d r \<and> app_id (fst r) = i"
  by (auto simp: candidates_member set_catalog_rows eligible_def)

lemma set_chosen_apps:
  assumes "build_rows E platform rs build_init = Inr st"
  shows "set (chosen_apps st) =
    {a. \<exists>i r. newest E None (candidates E platform i rs) = Some r \<and> a = entry_of E r}"
proof -
  have "set (bs_order st) = {i. \<exists>r. newest E None (candidates E platform i rs) = Some r}"
    using order_candidates [OF assms] by (auto simp: chosen_newest [OF assms])
  then show ?thesis
    by (force simp: chosen_apps_def chosen_newest [OF assms])
qed

lemma newest_id:
  "newest E None (candidates E platform i rs) = Some r \<Longrightarrow>
   app_id (fst r) = i \<and> r \<in> set rs \<and> allowed E platform r"
  by (drule newest_member) (auto simp: candidates_member)

lemma ids_chosen_apps:
  assumes "build_rows E platform rs build_init = Inr st"
  shows "map ca_id (chosen_apps st) = bs_order st"
proof -
  have "ca_id (the (bs_chosen st i)) = i" if "i \<in> set (bs_order st)" for i
    using that order_candidates [OF assms] newest_id
    by (fastforce simp: chosen_newest [OF assms])
  then show ?thesis by (simp add: chosen_apps_def map_idI)
qed

lemma with_texts_simps [simp]:
  "ca_id (with_texts a ts) = ca_id a" "ca_version (with_texts a ts) = ca_version a"
  "ca_visibility (with_texts a ts) = ca_visibility a"
  "ca_manifest (with_texts a ts) = ca_manifest a"
  by (simp_all add: with_texts_def)

lemma selected_appsE:
  assumes "selected_apps E channel platform aud d = Inr (g, apps)"
  obtains st where
    "build_rows E platform (catalog_rows channel (aud_app_ids aud) d) build_init = Inr st"
    and "g = bs_generated st"
    and "apps = map (\<lambda>a. with_texts a (texts_of (ca_id a) d)) (chosen_apps st)"
  using assms by (auto simp: selected_apps_def split: sum.splits)

lemma selected_ids_distinct:
  assumes "selected_apps E channel platform aud d = Inr (g, apps)"
  shows "distinct (map ca_id apps)"
proof -
  from assms obtain st where
    st: "build_rows E platform (catalog_rows channel (aud_app_ids aud) d) build_init = Inr st"
    and "apps = map (\<lambda>a. with_texts a (texts_of (ca_id a) d)) (chosen_apps st)"
    by (rule selected_appsE)
  then have "map ca_id apps = bs_order st"
    by (simp add: o_def ids_chosen_apps [OF st, symmetric])
  then show ?thesis using order_candidates [OF st] by simp
qed

lemma selected_member:
  assumes "selected_apps E channel platform aud d = Inr (g, apps)"
  shows "a \<in> set apps \<longleftrightarrow>
    (\<exists>i r. newest E None
              (candidates E platform i (catalog_rows channel (aud_app_ids aud) d)) = Some r
           \<and> a = with_texts (entry_of E r) (texts_of i d))"
proof -
  from assms obtain st where
    st: "build_rows E platform (catalog_rows channel (aud_app_ids aud) d) build_init = Inr st"
    and "apps = map (\<lambda>a. with_texts a (texts_of (ca_id a) d)) (chosen_apps st)"
    by (rule selected_appsE)
  then show ?thesis
    by (force simp: set_chosen_apps [OF st] dest: newest_id)
qed

section \<open>The time stamp\<close>

lemma later_upper: "p = Some t \<Longrightarrow> t \<le> later p g"
  by (simp add: later_def)

lemma later_mono: "g \<le> later p g"
  by (simp add: later_def split: option.split)

abbreviation chosen_row where
  "chosen_row E platform i rs \<equiv> newest E None (candidates E platform i rs)"

lemma chosen_row_other:
  "app_id (fst r) \<noteq> j \<Longrightarrow> chosen_row E platform j (rs @ [r]) = chosen_row E platform j rs"
  by (simp add: candidates_snoc)

text \<open>One row either replaces the choice for its app and moves the stamp, or changes nothing.\<close>

lemma build_row_effect:
  assumes st1: "build_rows E platform rs build_init = Inr st1" and row: "build_row E platform r st1 = Inr st2"
  obtains (skip) "bs_generated st2 = bs_generated st1"
      and "chosen_row E platform (app_id (fst r)) (rs @ [r]) = chosen_row E platform (app_id (fst r)) rs"
  | (taken) "bs_generated st2 = later (ver_published_at (snd r)) (bs_generated st1)"
      and "chosen_row E platform (app_id (fst r)) (rs @ [r]) = Some r"
proof (cases "allowed E platform r")
  case False
  with row show ?thesis by (intro skip) (auto simp: build_row_def allowed_def candidates_snoc)
next
  case True
  with row obtain m where m: "unmarshal_manifest E (ver_manifest (snd r)) = Some m"
    by (auto simp: build_row_def allowed_def split: option.splits)
  have c: "bs_chosen st1 (app_id (fst r)) =
      map_option (entry_of E) (chosen_row E platform (app_id (fst r)) rs)"
    by (rule chosen_newest [OF st1])
  show ?thesis
  proof (cases "chosen_row E platform (app_id (fst r)) rs")
    case None
    with True row m c show ?thesis
      by (intro taken)
        (auto simp: build_row_def allowed_def Let_def catalog_entry_def candidates_snoc newest_append)
  next
    case (Some b)
    show ?thesis
    proof (cases "is_newer E (ver_version (snd r)) (ver_version (snd b))")
      case newer: True
      with True row m c Some show ?thesis
        by (intro taken)
          (auto simp: build_row_def allowed_def Let_def catalog_entry_def candidates_snoc newest_append)
    next
      case older: False
      with True row m c Some show ?thesis
        by (intro skip)
          (auto simp: build_row_def allowed_def Let_def catalog_entry_def candidates_snoc newest_append)
    qed
  qed
qed

lemma stamp_upper:
  assumes "build_rows E platform rs build_init = Inr st"
    and "chosen_row E platform i rs = Some r" and "ver_published_at (snd r) = Some t"
  shows "t \<le> bs_generated st"
  using assms
proof (induction rs arbitrary: st r t rule: rev_induct)
  case Nil
  then show ?case by (simp add: candidates_def)
next
  case (snoc q rs)
  from build_rows_snoc_Inr [OF snoc.prems(1)] obtain st1
    where st1: "build_rows E platform rs build_init = Inr st1"
      and row: "build_row E platform q st1 = Inr st" .
  from st1 row show ?case
  proof (cases rule: build_row_effect)
    case skip
    have "chosen_row E platform i rs = Some r"
      using skip(2) snoc.prems(2) chosen_row_other [of q i E platform rs]
      by (cases "app_id (fst q) = i") auto
    with snoc.IH [OF st1] snoc.prems(3) skip(1) show ?thesis by simp
  next
    case taken
    show ?thesis
    proof (cases "app_id (fst q) = i")
      case True
      with taken snoc.prems(2,3) show ?thesis by (auto intro: later_upper)
    next
      case False
      with snoc.prems(2) have "chosen_row E platform i rs = Some r"
        by (simp add: chosen_row_other)
      with snoc.IH [OF st1] snoc.prems(3) have "t \<le> bs_generated st1" by simp
      also have "\<dots> \<le> bs_generated st" unfolding taken(1) by (rule later_mono)
      finally show ?thesis .
    qed
  qed
qed

text \<open>
  Attained: with the rows in the query's order, and no published version without its date, a
  choice that is replaced is replaced by one published no earlier.
\<close>

text \<open>A later row that does not move the stamp leaves it a stamp of a chosen row.\<close>

lemma stamp_held:
  assumes "chosen_row E platform i rs = Some r" and t: "ver_published_at (snd r) = Some g"
    and "sorted (map row_key (rs @ [q]))" and u: "ver_published_at (snd q) = Some u" and "\<not> g < u"
    and "chosen_row E platform (app_id (fst q)) (rs @ [q]) = Some q"
  shows "\<exists>i r. chosen_row E platform i (rs @ [q]) = Some r \<and> ver_published_at (snd r) = Some g"
proof (cases "app_id (fst q) = i")
  case True
  from newest_id [OF assms(1)] True assms(3) have "row_key r \<le> row_key q" and "app_id (fst r) = app_id (fst q)"
    by (auto simp: sorted_append)
  with t u have "g \<le> u" by (simp add: row_key_def asc_nulls_last_def less_eq_prod_def)
  with assms(5) u have "ver_published_at (snd q) = Some g" by simp
  with assms(6) show ?thesis by blast
next
  case False
  with assms(1) have "chosen_row E platform i (rs @ [q]) = Some r" by (simp add: chosen_row_other)
  with t show ?thesis by blast
qed

lemma stamp_attained:
  assumes "build_rows E platform rs build_init = Inr st" and "sorted (map row_key rs)"
    and "\<forall>r\<in>set rs. ver_published_at (snd r) \<noteq> None"
  shows "bs_generated st = zero_time \<or>
    (\<exists>i r. chosen_row E platform i rs = Some r \<and> ver_published_at (snd r) = Some (bs_generated st))"
  using assms
proof (induction rs arbitrary: st rule: rev_induct)
  case Nil
  then show ?case by (auto simp: build_init_def)
next
  case (snoc q rs)
  from build_rows_snoc_Inr [OF snoc.prems(1)] obtain st1
    where st1: "build_rows E platform rs build_init = Inr st1"
      and row: "build_row E platform q st1 = Inr st" .
  have ih: "bs_generated st1 = zero_time \<or>
    (\<exists>i r. chosen_row E platform i rs = Some r \<and> ver_published_at (snd r) = Some (bs_generated st1))"
    using snoc.IH [OF st1] snoc.prems(2,3) by (simp add: sorted_append)
  from snoc.prems(3) obtain u where u: "ver_published_at (snd q) = Some u" by auto
  from st1 row show ?case
  proof (cases rule: build_row_effect)
    case skip
    then have "chosen_row E platform i (rs @ [q]) = chosen_row E platform i rs" for i
      by (cases "app_id (fst q) = i") (auto simp: chosen_row_other)
    with ih skip(1) show ?thesis by simp
  next
    case taken
    show ?thesis
    proof (cases "bs_generated st1 < u")
      case True
      with taken u have "ver_published_at (snd q) = Some (bs_generated st)"
        by (simp add: later_def)
      with taken(2) show ?thesis by blast
    next
      case False
      with taken u have "bs_generated st = bs_generated st1" by (simp add: later_def)
      with ih stamp_held [OF _ _ snoc.prems(2) u False taken(2)] show ?thesis by metis
    qed
  qed
qed

lemma sorted_catalog_rows: "sorted (map row_key (catalog_rows channel ids d))"
  by (simp add: catalog_rows_def)

section \<open>The order of the tables does not matter\<close>

lemma mset_joined_rows:
  assumes "mset (t_apps d) = mset (t_apps d')" and "mset (t_versions d) = mset (t_versions d')"
  shows "mset (joined_rows channel ids d) = mset (joined_rows channel ids d')"
proof -
  have "mset (joined_rows channel ids e) =
      (\<Sum>a\<in>#filter_mset (visible ids) (mset (t_apps e)).
         image_mset (Pair a) (filter_mset (offered channel a) (mset (t_versions e))))" for e
  proof -
    have "sum_list (map f xs) = (\<Sum>x\<in>#mset xs. f x)" for f :: "app_row \<Rightarrow> (app_row \<times> version_row) multiset" and xs
      by (simp only: mset_map [symmetric] sum_mset_sum_list)
    then show ?thesis by (simp add: joined_rows_def mset_concat o_def)
  qed
  then show ?thesis using assms by simp
qed

lemma catalog_rows_mset:
  assumes "mset (t_apps d) = mset (t_apps d')" and "mset (t_versions d) = mset (t_versions d')"
    and "distinct (map row_key (joined_rows channel ids d))"
  shows "catalog_rows channel ids d = catalog_rows channel ids d'"
  unfolding catalog_rows_def
proof (rule sort_key_unique)
  have m: "mset (joined_rows channel ids d) = mset (joined_rows channel ids d')"
    using assms(1,2) by (rule mset_joined_rows)
  then show "set (joined_rows channel ids d) = set (joined_rows channel ids d')"
    by (rule mset_eq_setD)
  show "distinct (map row_key (joined_rows channel ids d'))"
    using assms(3) mset_eq_imp_distinct_iff [of "map row_key (joined_rows channel ids d)"
        "map row_key (joined_rows channel ids d')"] m by simp
qed (rule assms(3))

lemma eligible_listed:
  assumes "selected_apps E channel platform aud d = Inr (g, apps)"
    and "eligible E channel platform (aud_app_ids aud) d r"
  shows "\<exists>c\<in>set apps. ca_id c = app_id (fst r)
    \<and> (newer_order E \<longrightarrow> \<not> is_newer E (ver_version (snd r)) (ca_version c))"
proof -
  let ?rows = "catalog_rows channel (aud_app_ids aud) d" and ?i = "app_id (fst r)"
  have r: "r \<in> set (candidates E platform ?i ?rows)" using assms(2) by (simp add: candidates_eligible)
  with newest_None [of E None "candidates E platform ?i ?rows"] obtain x
    where x: "newest E None (candidates E platform ?i ?rows) = Some x"
    by (cases "newest E None (candidates E platform ?i ?rows)") auto
  then have "with_texts (entry_of E x) (texts_of ?i d) \<in> set apps"
    unfolding selected_member [OF assms(1)] by blast
  moreover have "\<not> is_newer E (ver_version (snd r)) (ver_version (snd x))" if "newer_order E"
    using newest_maximal [OF that x, of r] r by simp
  ultimately show ?thesis using newest_id [OF x] by force
qed

end
