(* ===== verification/Http.thy ===== *)
theory Http
  imports World
begin

text \<open>
  What a handler is given and what it answers. A request carries its query, headers and path
  parameters as functions (empty text where absent, as \<^verbatim>\<open>url.Values.Get\<close> and
  \<^verbatim>\<open>http.Header.Get\<close> answer), the tenant as the core's \<^verbatim>\<open>RequireTenant\<close> resolves it (\<open>Inl\<close> the
  status that function has already answered with) and the claims of the session. A JSON body
  arrives decoded, \<open>None\<close> when it is malformed or over its size limit. A handler is an effect
  that always answers; the payload of a JSON answer is the Go value before encoding.
\<close>

record claims =
  cl_user_id :: string
  cl_email :: string

record request =
  rq_query :: "string \<Rightarrow> string"
  rq_header :: "string \<Rightarrow> string"
  rq_param :: "string \<Rightarrow> string"
  rq_tenant :: "nat + string"
  rq_claims :: "claims option"

datatype 'b body = NoBody | Bytes string | ErrorText string | Json 'b

record 'b response =
  rs_status :: nat
  rs_headers :: "(string \<times> string) list"
  rs_body :: "'b body"

definition respond :: "nat \<Rightarrow> 'b body \<Rightarrow> 'b response" where
  "respond status b = \<lparr>rs_status = status, rs_headers = [], rs_body = b\<rparr>"

definition answer_json :: "nat \<Rightarrow> 'b \<Rightarrow> 'b response act" where
  "answer_json status x = ok (respond status (Json x))"

definition answer_error :: "nat \<Rightarrow> string \<Rightarrow> 'b response act" where
  "answer_error status msg = ok (respond status (ErrorText msg))"

definition no_request :: request where
  "no_request =
     \<lparr>rq_query = (\<lambda>_. []), rq_header = (\<lambda>_. []), rq_param = (\<lambda>_. []), rq_tenant = Inl 403,
      rq_claims = None\<rparr>"

text \<open>The user of the session, empty when there is none (\<^verbatim>\<open>actor\<close>).\<close>

definition actor_of :: "request \<Rightarrow> string" where
  "actor_of r = (case rq_claims r of None \<Rightarrow> [] | Some c \<Rightarrow> cl_user_id c)"

text \<open>
  The two checks the state-changing handlers begin with: the tenant, whose refusal the core has
  already answered, then the claims.
\<close>

definition require_session ::
  "request \<Rightarrow> (string \<Rightarrow> claims \<Rightarrow> 'b response act) \<Rightarrow> 'b response act" where
  "require_session r k =
     (case rq_tenant r of
        Inl status \<Rightarrow> answer_error status []
      | Inr tenant \<Rightarrow>
          (case rq_claims r of
             None \<Rightarrow> answer_error 401 ''unauthorized''
           | Some c \<Rightarrow> k tenant c))"

text \<open>\<open>answers m\<close>: the effect never ends in an error value.\<close>

definition answers :: "'a act \<Rightarrow> bool" where
  "answers m \<longleftrightarrow> (\<forall>w. \<exists>x w'. m w = (Inr x, w'))"

named_theorems answers_intros \<open>effects that always answer\<close>

lemma answers_ok [answers_intros]: "answers (ok x)"
  by (simp add: answers_def)

lemma answers_json [answers_intros]: "answers (answer_json s x)"
  by (simp add: answer_json_def answers_ok)

lemma answers_error [answers_intros]: "answers (answer_error s x)"
  by (simp add: answer_error_def answers_ok)

lemma answers_attempt [answers_intros]: "(\<And>r. answers (k r)) \<Longrightarrow> answers (attempt m k)"
  by (auto simp: answers_def attempt_def split: prod.splits)

lemma answers_andthen [answers_intros]:
  "answers m \<Longrightarrow> (\<And>x. answers (k x)) \<Longrightarrow> answers (andthen m k)"
  unfolding answers_def by (metis andthen_Inr)

lemma answers_for_each [answers_intros]: "(\<And>x. answers (f x)) \<Longrightarrow> answers (for_each f xs)"
  by (induction xs) (auto intro!: answers_intros)

lemma answers_if [answers_intros]: "answers m \<Longrightarrow> answers n \<Longrightarrow> answers (if b then m else n)"
  by simp

lemma answers_case_option [answers_intros]:
  "answers m \<Longrightarrow> (\<And>y. answers (f y)) \<Longrightarrow> answers (case x of None \<Rightarrow> m | Some y \<Rightarrow> f y)"
  by (cases x) simp_all

lemma answers_case_sum [answers_intros]:
  "(\<And>e. answers (f e)) \<Longrightarrow> (\<And>y. answers (g y)) \<Longrightarrow>
   answers (case x of Inl e \<Rightarrow> f e | Inr y \<Rightarrow> g y)"
  by (cases x) simp_all

lemma answers_audit [answers_intros]: "answers (record_audit a)"
  by (simp add: answers_def record_audit_def)

end
