(* ===== verification/Public.thy ===== *)
theory Public
  imports Http Catalog
begin

text \<open>
  \<^verbatim>\<open>modules/registry/public.go\<close> and the constructor of \<^verbatim>\<open>registry.go\<close>: the catalogue endpoint,
  the storefront's reads, the published keys and the two operator endpoints beside them.
\<close>

section \<open>The module\<close>

text \<open>\<open>m_catalog\<close> is the catalogue service, which is its signer; \<open>None\<close> is the nil pointer.\<close>

record module =
  m_catalog :: "signer option"
  m_signer :: "signer option"

definition new_module :: "env \<Rightarrow> string \<Rightarrow> string \<Rightarrow> module" where
  "new_module E key_id_env key_env =
     (if key_env \<noteq> []
      then case new_signer E (or_default key_id_env ''appstore-2026'') key_env of
          Inl e \<Rightarrow> \<lparr>m_catalog = None, m_signer = None\<rparr>
        | Inr s \<Rightarrow> \<lparr>m_catalog = Some s, m_signer = Some s\<rparr>
      else \<lparr>m_catalog = None, m_signer = None\<rparr>)"

definition require_catalogue :: "module \<Rightarrow> (signer \<Rightarrow> 'b response act) \<Rightarrow> 'b response act" where
  "require_catalogue m k =
     (case m_catalog m of
        None \<Rightarrow> answer_error 503 ''this instance does not publish an app catalogue''
      | Some s \<Rightarrow> k s)"

section \<open>Text helpers\<close>

definition etag_matches :: "string \<Rightarrow> string \<Rightarrow> bool" where
  "etag_matches header etag \<longleftrightarrow>
     list_ex (\<lambda>candidate.
         let c = trim_space candidate in
         c = ''*'' \<or> c = etag \<or> trim_prefix ''W/'' c = etag)
       (split_on (CHR '','') header)"

definition locale_from :: "env \<Rightarrow> request \<Rightarrow> string" where
  "locale_from E r =
     (if rq_query r ''locale'' \<noteq> [] then rq_query r ''locale''
      else if rq_header r ''Accept-Language'' = [] then ''en''
      else to_lower E (trim_space
        (before_first (CHR ''-'') (before_first (CHR '','') (rq_header r ''Accept-Language'')))))"

section \<open>The payloads\<close>

record app_view =
  vw_id :: string
  vw_slug :: string
  vw_type :: string
  vw_name :: string
  vw_description :: string
  vw_icon_url :: string
  vw_category :: string
  vw_publisher :: string
  vw_latest_version :: string
  vw_updated_at :: time
  vw_authors :: "person list option"
  vw_maintainers :: "person list option"
  vw_repository :: string
  vw_homepage :: string
  vw_license :: string
  vw_translations :: "(string \<times> app_text) list option"
  vw_versions :: "version list option"
  vw_manifest :: "manifest option"
  vw_external :: "external_registration option"

datatype public_payload =
    PKeys "(string \<times> string \<times> string) list"
  | PApps "app_view list"
  | PApp app_view
  | PVersions "version list"
  | PChronicle string string "chronicle_entry list"
  | PState int string string
  | PDiscarded nat

section \<open>The handlers\<close>

definition valid_catalog_query :: "env \<Rightarrow> string \<Rightarrow> string \<Rightarrow> string option" where
  "valid_catalog_query E channel platform =
     (if platform \<noteq> [] \<and> \<not> semver_valid E platform
      then Some ''platform must be a semver version, for example 1.0.0''
      else if channel \<noteq> [] \<and> channel \<noteq> ''stable'' \<and> channel \<noteq> ''beta''
      then Some (''channel must be '' @ quoted ''stable'' @ '' or '' @ quoted ''beta'')
      else None)"

definition catalog_headers :: "snapshot \<Rightarrow> audience \<Rightarrow> (string \<times> string) list" where
  "catalog_headers s aud =
     [(''ETag'', ss_etag s),
      (''Cache-Control'',
         if anonymous aud then ''public, max-age=60'' else ''private, max-age=60''),
      (''Vary'', ''Authorization'')]"

definition catalog_response :: "request \<Rightarrow> snapshot \<Rightarrow> audience \<Rightarrow> public_payload response" where
  "catalog_response r s aud =
     (let match = rq_header r ''If-None-Match'' in
      if match \<noteq> [] \<and> etag_matches match (ss_etag s)
      then \<lparr>rs_status = 304, rs_headers = catalog_headers s aud, rs_body = NoBody\<rparr>
      else \<lparr>rs_status = 200,
            rs_headers = catalog_headers s aud @ [(''Content-Type'', ''application/json'')],
            rs_body = Bytes (ss_document s)\<rparr>)"

definition handle_catalog :: "env \<Rightarrow> module \<Rightarrow> request \<Rightarrow> public_payload response act" where
  "handle_catalog E m r =
     require_catalogue m (\<lambda>s.
       let channel = rq_query r ''channel''; platform = rq_query r ''platform'' in
       case valid_catalog_query E channel platform of
         Some msg \<Rightarrow> answer_error 400 msg
       | None \<Rightarrow>
           attempt (audience_for E (bearer_token (rq_header r ''Authorization'')))
             (\<lambda>res. case res of
                 Inl e \<Rightarrow> answer_error 500 ''could not build the catalog''
               | Inr aud \<Rightarrow>
                   andthen
                     (if \<not> anonymous aud then touch_platform E (aud_platform_id aud) else ok ())
                     (\<lambda>_. attempt (catalog E s channel platform aud)
                       (\<lambda>res. case res of
                           Inl e \<Rightarrow> answer_error 500 ''could not build the catalog''
                         | Inr snap \<Rightarrow> ok (catalog_response r snap aud)))))"

definition app_view_base :: "app \<Rightarrow> app_view" where
  "app_view_base a =
     \<lparr>vw_id = a_id a, vw_slug = a_slug a, vw_type = a_type a, vw_name = a_name a,
      vw_description = a_description a, vw_icon_url = a_icon_url a, vw_category = a_category a,
      vw_publisher = a_publisher_name a, vw_latest_version = a_latest_version a,
      vw_updated_at = a_updated_at a, vw_authors = a_authors a,
      vw_maintainers = a_maintainers a, vw_repository = a_repository a,
      vw_homepage = a_homepage a, vw_license = a_license a, vw_translations = None,
      vw_versions = None, vw_manifest = None, vw_external = None\<rparr>"

definition translate_view ::
  "(string \<times> app_text) list \<Rightarrow> string \<Rightarrow> app_view \<Rightarrow> app_view" where
  "translate_view texts loc v =
     (let v = v\<lparr>vw_translations := Some texts\<rparr> in
      case map_of texts loc of
        None \<Rightarrow> v
      | Some t \<Rightarrow>
          v\<lparr>vw_name := (if at_name t \<noteq> [] then at_name t else vw_name v),
            vw_description :=
              (if at_description t \<noteq> [] then at_description t else vw_description v),
            vw_category := (if at_category t \<noteq> [] then at_category t else vw_category v)\<rparr>)"

definition app_view :: "app \<Rightarrow> string \<Rightarrow> app_view act" where
  "app_view a loc =
     attempt (app_texts (a_id a))
       (\<lambda>res. case res of
           Inl e \<Rightarrow> ok (app_view_base a)
         | Inr texts \<Rightarrow> ok (translate_view texts loc (app_view_base a)))"

definition handle_list_apps :: "env \<Rightarrow> request \<Rightarrow> public_payload response act" where
  "handle_list_apps E r =
     attempt (list_apps E [])
       (\<lambda>res. case res of
           Inl e \<Rightarrow> answer_error 500 ''could not list apps''
         | Inr apps \<Rightarrow>
             andthen (for_each (\<lambda>a. app_view a (locale_from E r)) apps)
               (\<lambda>views. answer_json 200 (PApps views)))"

text \<open>The look-up by slug that three handlers begin with.\<close>

definition with_app_by_slug ::
  "env \<Rightarrow> request \<Rightarrow> (app \<Rightarrow> public_payload response act) \<Rightarrow> public_payload response act" where
  "with_app_by_slug E r k =
     attempt (app_by_slug E (rq_param r ''slug''))
       (\<lambda>res. case res of
           Inl e \<Rightarrow>
             if e = ErrNotFound then answer_error 404 ''app not found''
             else answer_error 500 ''could not load the app''
         | Inr a \<Rightarrow> k a)"

definition handle_get_app :: "env \<Rightarrow> request \<Rightarrow> public_payload response act" where
  "handle_get_app E r =
     with_app_by_slug E r (\<lambda>a.
       attempt (list_versions E (a_id a) True)
         (\<lambda>res. case res of
             Inl e \<Rightarrow> answer_error 500 ''could not load versions''
           | Inr versions \<Rightarrow>
               andthen (app_view a (locale_from E r))
                 (\<lambda>view.
                   let view = view\<lparr>vw_versions := Some versions,
                         vw_manifest := (case versions of [] \<Rightarrow> None
                                          | v # _ \<Rightarrow> Some (v_manifest v))\<rparr>
                   in attempt (external_registration_of (a_id a))
                        (\<lambda>res. case res of
                            Inl e \<Rightarrow> answer_json 200 (PApp view)
                          | Inr x \<Rightarrow> answer_json 200 (PApp (view\<lparr>vw_external := Some x\<rparr>))))))"

definition handle_list_versions :: "env \<Rightarrow> request \<Rightarrow> public_payload response act" where
  "handle_list_versions E r =
     with_app_by_slug E r (\<lambda>a.
       attempt (list_versions E (a_id a) True)
         (\<lambda>res. case res of
             Inl e \<Rightarrow> answer_error 500 ''could not load versions''
           | Inr versions \<Rightarrow> answer_json 200 (PVersions versions)))"

definition handle_chronicle :: "env \<Rightarrow> request \<Rightarrow> public_payload response act" where
  "handle_chronicle E r =
     attempt (app_by_slug E (rq_param r ''slug''))
       (\<lambda>res. case res of
           Inl e \<Rightarrow> answer_error 404 ''app not found''
         | Inr a \<Rightarrow>
             attempt (chronicle E (a_id a))
               (\<lambda>res. case res of
                   Inl e \<Rightarrow> answer_error 500 ''could not load the chronicle''
                 | Inr entries \<Rightarrow> answer_json 200 (PChronicle (a_id a) (a_slug a) entries)))"

text \<open>
  The two fields are set together by \<open>new_module\<close>, so the handlers that read the signer after
  \<open>require_catalogue\<close> read the service's own.
\<close>

definition handle_keys :: "env \<Rightarrow> module \<Rightarrow> public_payload response act" where
  "handle_keys E m =
     require_catalogue m (\<lambda>s.
       answer_json 200 (PKeys [(sg_key_id (the (m_signer m)), ''Ed25519'',
                                public_key E (the (m_signer m)))]))"

definition handle_registry_state :: "env \<Rightarrow> module \<Rightarrow> public_payload response act" where
  "handle_registry_state E m =
     require_catalogue m (\<lambda>s.
       attempt revision
         (\<lambda>res. case res of
             Inl e \<Rightarrow> answer_error 500 ''could not read the registry state''
           | Inr n \<Rightarrow> answer_json 200 (PState n (sg_key_id (the (m_signer m)))
                        (public_key E (the (m_signer m))))))"

definition handle_rebuild_snapshots :: "module \<Rightarrow> public_payload response act" where
  "handle_rebuild_snapshots m =
     require_catalogue m (\<lambda>s.
       attempt discard_snapshots
         (\<lambda>res. case res of
             Inl e \<Rightarrow> answer_error 500 ''could not discard the snapshots''
           | Inr n \<Rightarrow> answer_json 200 (PDiscarded n)))"

end
