(* ===== verification/PlatformHandlers.thy ===== *)
theory PlatformHandlers
  imports Http Platforms StoreApps
begin

text \<open>
  \<^verbatim>\<open>modules/registry/platform_handlers.go\<close>: the operators' endpoints. A change of what a
  platform may see discards that platform's cached documents; the error of that discard is
  only logged.
\<close>

datatype platform_payload =
    PPlatforms "platform list"
  | PCreated platform string
  | PEnabled string bool
  | PGranted string string bool

record create_platform_body =
  cp_name :: string
  cp_origin :: string
  cp_note :: string

definition platform_audit :: "request \<Rightarrow> string \<Rightarrow> (string \<times> audit_value) list \<Rightarrow> audit" where
  "platform_audit r action details =
     \<lparr>au_tenant = [], au_user = actor_of r, au_action = action, au_kind = ''platform'',
      au_details = details\<rparr>"

definition handle_list_platforms :: "env \<Rightarrow> platform_payload response act" where
  "handle_list_platforms E =
     attempt (list_platforms E)
       (\<lambda>res. case res of
           Inl e \<Rightarrow> answer_error 500 ''could not list platforms''
         | Inr ps \<Rightarrow> answer_json 200 (PPlatforms ps))"

definition handle_create_platform ::
  "env \<Rightarrow> request \<Rightarrow> create_platform_body option \<Rightarrow> platform_payload response act" where
  "handle_create_platform E r body =
     (case body of
        None \<Rightarrow> answer_error 400 ''invalid request body''
      | Some b \<Rightarrow>
          if trim_space (cp_name b) = [] then answer_error 400 ''a platform needs a name''
          else attempt (create_platform E (cp_name b) (cp_origin b) (cp_note b) (actor_of r))
            (\<lambda>res. case res of
                Inl e \<Rightarrow> answer_error 500 ''could not register the platform''
              | Inr pt \<Rightarrow>
                  andthen
                    (record_audit
                      (platform_audit r ''appstore.platform_registered''
                        [(''platform_id'', AuditText (p_id (fst pt))), (''name'', AuditText (p_name (fst pt)))]))
                    (\<lambda>_. answer_json 201 (PCreated (fst pt) (snd pt)))))"

text \<open>A body decodes to its field \<^verbatim>\<open>enabled\<close>.\<close>

definition handle_set_platform_enabled ::
  "env \<Rightarrow> request \<Rightarrow> bool option \<Rightarrow> platform_payload response act" where
  "handle_set_platform_enabled E r body =
     (case body of
        None \<Rightarrow> answer_error 400 ''invalid request body''
      | Some on \<Rightarrow>
          attempt (set_platform_enabled E (rq_param r ''id'') on)
            (\<lambda>res. case res of
                Inl e \<Rightarrow>
                  if e = ErrNotFound then answer_error 404 ''platform not found''
                  else answer_error 500 ''could not change the platform''
              | Inr _ \<Rightarrow>
                  attempt (discard_private_snapshots E (rq_param r ''id''))
                    (\<lambda>_. andthen
                      (record_audit
                        (platform_audit r ''appstore.platform_access_changed''
                          [(''platform_id'', AuditText (rq_param r ''id'')), (''enabled'', AuditFlag on)]))
                      (\<lambda>_. answer_json 200 (PEnabled (rq_param r ''id'') on)))))"

definition handle_grant :: "env \<Rightarrow> request \<Rightarrow> platform_payload response act" where
  "handle_grant E r =
     (let platform_id = rq_param r ''id''; aid = rq_param r ''appID'' in
      attempt (app_by_id E aid)
        (\<lambda>res. case res of
            Inl e \<Rightarrow>
              if e = ErrNotFound then answer_error 404 ''app not found''
              else answer_error 500 ''could not load the app''
          | Inr a \<Rightarrow>
              if a_visibility a \<noteq> ''private''
              then answer_error 400 ''only a private app is granted to a platform; this one is public and every platform already has it''
              else attempt (grant E aid platform_id (actor_of r))
                (\<lambda>res. case res of
                    Inl e \<Rightarrow> answer_error 500 ''could not grant the app''
                  | Inr _ \<Rightarrow>
                      attempt (discard_private_snapshots E platform_id)
                        (\<lambda>_. andthen
                          (record_audit (platform_audit r ''appstore.app_granted''
                            [(''platform_id'', AuditText platform_id), (''app_id'', AuditText aid)]))
                          (\<lambda>_. answer_json 200 (PGranted platform_id aid True))))))"

definition handle_revoke :: "env \<Rightarrow> request \<Rightarrow> platform_payload response act" where
  "handle_revoke E r =
     (let platform_id = rq_param r ''id''; aid = rq_param r ''appID'' in
      attempt (revoke E aid platform_id)
        (\<lambda>res. case res of
            Inl e \<Rightarrow> answer_error 500 ''could not revoke the app''
          | Inr _ \<Rightarrow>
              attempt (discard_private_snapshots E platform_id)
                (\<lambda>_. andthen
                  (record_audit (platform_audit r ''appstore.app_revoked''
                    [(''platform_id'', AuditText platform_id), (''app_id'', AuditText aid)]))
                  (\<lambda>_. answer_json 200 (PGranted platform_id aid False)))))"

end
