(* ===== verification/Review.thy ===== *)
theory Review
  imports Http StoreVersions
begin

text \<open>
  \<^verbatim>\<open>modules/review/review.go\<close>: the review queue and the decisions that end it.
\<close>

datatype review_payload =
    RQueue "version list"
  | RHistory "(string \<times> string \<times> string \<times> time) list"
  | RDecided string
  | RPublishers "publisher list"
  | RVerified bool

record decision_body =
  de_action :: string
  de_note :: string

definition handle_queue :: "env \<Rightarrow> review_payload response act" where
  "handle_queue E =
     attempt (list_review_queue E)
       (\<lambda>res. case res of
           Inl e \<Rightarrow> answer_error 500 ''could not load the review queue''
         | Inr vs \<Rightarrow> answer_json 200 (RQueue vs))"

definition handle_history :: "env \<Rightarrow> request \<Rightarrow> review_payload response act" where
  "handle_history E r =
     attempt (review_history E (rq_param r ''id''))
       (\<lambda>res. case res of
           Inl e \<Rightarrow> answer_error 500 ''could not load the review history''
         | Inr h \<Rightarrow> answer_json 200 (RHistory h))"

definition decision_error :: "decision_body \<Rightarrow> string option" where
  "decision_error b =
     (if de_action b \<noteq> ''publish'' \<and> de_action b \<noteq> ''reject'' \<and> de_action b \<noteq> ''yank''
      then Some (''action must be '' @ quoted ''publish'' @ '', '' @ quoted ''reject'' @ '' or '' @ quoted ''yank'')
      else if de_action b \<noteq> ''publish'' \<and> trim_space (de_note b) = []
      then Some ''say why: a rejected or withdrawn version needs a reason its publisher can act on''
      else None)"

definition handle_decision ::
  "env \<Rightarrow> request \<Rightarrow> decision_body option \<Rightarrow> review_payload response act" where
  "handle_decision E r body =
     require_session r (\<lambda>tenant c.
       case body of
         None \<Rightarrow> answer_error 400 ''malformed request body''
       | Some b \<Rightarrow>
           (case decision_error b of
              Some msg \<Rightarrow> answer_error 400 msg
            | None \<Rightarrow>
                attempt (decide_version E (rq_param r ''id'') (de_action b) (cl_user_id c)
                           (cl_email c) (trim_space (de_note b)))
                  (\<lambda>res. case res of
                      Inl e \<Rightarrow>
                        if e = ErrNotFound then answer_error 404 ''no such version''
                        else answer_error 500 ''could not record the decision''
                    | Inr _ \<Rightarrow>
                        andthen
                          (record_audit \<lparr>au_tenant = tenant, au_user = cl_user_id c,
                             au_action = ''review.'' @ de_action b,
                             au_kind = ''store_app_version'',
                             au_details = [(''version_id'', AuditText (rq_param r ''id'')), (''note'', AuditText (de_note b))]\<rparr>)
                          (\<lambda>_. answer_json 200 (RDecided (de_action b))))))"

definition handle_publishers :: "env \<Rightarrow> review_payload response act" where
  "handle_publishers E =
     attempt (list_publishers E)
       (\<lambda>res. case res of
           Inl e \<Rightarrow> answer_error 500 ''could not load publishers''
         | Inr ps \<Rightarrow> answer_json 200 (RPublishers ps))"

definition handle_verify_publisher :: "env \<Rightarrow> request \<Rightarrow> review_payload response act" where
  "handle_verify_publisher E r =
     require_session r (\<lambda>tenant c.
       let verified = rq_query r ''verified'' \<noteq> ''false'' in
       attempt (set_publisher_verified E (rq_param r ''id'') verified (cl_user_id c))
         (\<lambda>res. case res of
             Inl e \<Rightarrow>
               if e = ErrNotFound then answer_error 404 ''no such publisher''
               else answer_error 500 ''could not record the decision''
           | Inr _ \<Rightarrow>
               andthen
                 (record_audit \<lparr>au_tenant = tenant, au_user = cl_user_id c,
                    au_action = ''review.publisher_verified'', au_kind = ''publisher'',
                    au_details = [(''publisher_id'', AuditText (rq_param r ''id'')), (''verified'', AuditFlag verified)]\<rparr>)
                 (\<lambda>_. answer_json 200 (RVerified verified))))"

end
