(* ===== verification/Publisher.thy ===== *)
theory Publisher
  imports Http StoreVersions
begin

text \<open>
  \<^verbatim>\<open>modules/publisher/publisher.go\<close>: an organisation's publishing profile, its apps and the
  versions it submits.
\<close>

datatype publisher_payload =
    BProfile publisher
  | BApps "app list"
  | BApp app
  | BVersions "version list"
  | BVersion version

record profile_body =
  pb_slug :: string
  pb_name :: string
  pb_contact_email :: string

record app_body =
  ab_id :: string
  ab_slug :: string
  ab_type :: string
  ab_name :: string
  ab_description :: string
  ab_icon_url :: string
  ab_category :: string
  ab_visibility :: string
  ab_texts :: "(string \<times> app_text) list"

record submit_body =
  sb_channel :: string
  sb_manifest :: manifest

definition publisher_for ::
  "env \<Rightarrow> request \<Rightarrow> (publisher \<Rightarrow> string \<Rightarrow> publisher_payload response act) \<Rightarrow>
   publisher_payload response act" where
  "publisher_for E r k =
     (case rq_tenant r of
        Inl status \<Rightarrow> answer_error status []
      | Inr tenant \<Rightarrow>
          attempt (publisher_by_tenant E tenant)
            (\<lambda>res. case res of
                Inl e \<Rightarrow>
                  if e = ErrNotFound
                  then answer_error 404 ''this organisation has no publishing profile yet''
                  else answer_error 500 ''could not load the publishing profile''
              | Inr p \<Rightarrow> k p tenant))"

definition handle_profile :: "env \<Rightarrow> request \<Rightarrow> publisher_payload response act" where
  "handle_profile E r = publisher_for E r (\<lambda>p _. answer_json 200 (BProfile p))"

definition handle_save_profile ::
  "env \<Rightarrow> request \<Rightarrow> profile_body option \<Rightarrow> publisher_payload response act" where
  "handle_save_profile E r body =
     require_session r (\<lambda>tenant c.
       case body of
         None \<Rightarrow> answer_error 400 ''malformed request body''
       | Some b \<Rightarrow>
           let slug = to_lower E (trim_space (pb_slug b)); name = trim_space (pb_name b) in
           if \<not> is_valid_slug E slug
           then answer_error 400 ''the publisher handle must be a slug: lowercase letters, digits and dashes''
           else if name = [] then answer_error 400 ''a publisher name is required''
           else attempt
             (upsert_publisher E
               \<lparr>b_id = [], b_tenant_id = tenant, b_slug = slug, b_name = name,
                b_contact_email = trim_space (pb_contact_email b), b_verified = False,
                b_verified_at = None, b_created_at = zero_time\<rparr>)
             (\<lambda>res. case res of
                 Inl e \<Rightarrow>
                   if e = ErrConflict
                   then answer_error 409 ''another organisation already publishes under that handle''
                   else answer_error 500 ''could not save the publishing profile''
               | Inr saved \<Rightarrow>
                   andthen
                     (record_audit \<lparr>au_tenant = tenant, au_user = cl_user_id c,
                        au_action = ''publisher.profile_saved'', au_kind = ''publisher'',
                        au_details = [(''slug'', AuditText (b_slug saved))]\<rparr>)
                     (\<lambda>_. answer_json 200 (BProfile saved))))"

definition handle_list_own_apps :: "env \<Rightarrow> request \<Rightarrow> publisher_payload response act" where
  "handle_list_own_apps E r =
     publisher_for E r (\<lambda>p _.
       attempt (list_apps E (b_id p))
         (\<lambda>res. case res of
             Inl e \<Rightarrow> answer_error 500 ''could not load your apps''
           | Inr apps \<Rightarrow> answer_json 200 (BApps apps)))"

text \<open>The checks and defaults of an app's registration, in the code's order.\<close>

definition normalise_app_body :: "env \<Rightarrow> app_body \<Rightarrow> string + app_body" where
  "normalise_app_body E b =
     (if ab_id b = [] \<or> \<not> is_valid_slug E (ab_slug b) \<or> trim_space (ab_name b) = []
      then Inl ''an app needs an id, a valid slug and a name''
      else
        let b = (if ab_type b = [] then b\<lparr>ab_type := type_module\<rparr> else b) in
        if ab_type b \<noteq> type_module \<and> ab_type b \<noteq> type_external
        then Inl (''type must be '' @ quoted ''module'' @ '' or '' @ quoted ''external'')
        else
          let b = (if ab_visibility b = [] then b\<lparr>ab_visibility := ''public''\<rparr> else b) in
          if ab_visibility b \<noteq> ''public'' \<and> ab_visibility b \<noteq> ''private''
          then Inl (''visibility must be '' @ quoted ''public'' @ '' or '' @ quoted ''private'')
          else Inr (if ab_category b = [] then b\<lparr>ab_category := ''General''\<rparr> else b))"

definition app_of_body :: "publisher \<Rightarrow> claims \<Rightarrow> app_body \<Rightarrow> app" where
  "app_of_body p c b =
     \<lparr>a_id = ab_id b, a_publisher_id = b_id p, a_slug = ab_slug b, a_type = ab_type b,
      a_name = trim_space (ab_name b), a_description = ab_description b,
      a_icon_url = ab_icon_url b, a_category = ab_category b, a_visibility = ab_visibility b,
      a_created_at = zero_time, a_updated_at = zero_time, a_publisher_name = [],
      a_latest_version = [], a_authors = None, a_maintainers = None, a_repository = [],
      a_homepage = [], a_license = [], a_created_by = cl_user_id c,
      a_updated_by = cl_user_id c\<rparr>"

definition handle_upsert_app ::
  "env \<Rightarrow> request \<Rightarrow> app_body option \<Rightarrow> publisher_payload response act" where
  "handle_upsert_app E r body =
     publisher_for E r (\<lambda>p tenant.
       case rq_claims r of
         None \<Rightarrow> answer_error 401 ''unauthorized''
       | Some c \<Rightarrow>
           (case body of
              None \<Rightarrow> answer_error 400 ''malformed request body''
            | Some b \<Rightarrow>
                (case normalise_app_body E b of
                   Inl msg \<Rightarrow> answer_error 400 msg
                 | Inr b \<Rightarrow>
                     attempt (upsert_app E (app_of_body p c b) (ab_texts b))
                       (\<lambda>res. case res of
                           Inl e \<Rightarrow>
                             if e = ErrConflict
                             then answer_error 409 ''that app id belongs to another publisher''
                             else answer_error 500 ''could not save the app''
                         | Inr _ \<Rightarrow>
                             andthen
                               (record_audit \<lparr>au_tenant = tenant, au_user = cl_user_id c,
                                  au_action = ''publisher.app_saved'', au_kind = ''store_app'',
                                  au_details = [(''app_id'', AuditText (ab_id b))]\<rparr>)
                               (\<lambda>_. answer_json 200 (BApp (app_of_body p c b)))))))"

definition own_app ::
  "env \<Rightarrow> request \<Rightarrow> (app \<Rightarrow> string \<Rightarrow> publisher_payload response act) \<Rightarrow>
   publisher_payload response act" where
  "own_app E r k =
     publisher_for E r (\<lambda>p tenant.
       attempt (app_by_slug E (rq_param r ''slug''))
         (\<lambda>res. case res of
             Inl e \<Rightarrow> answer_error 404 ''app not found''
           | Inr a \<Rightarrow>
               if a_publisher_id a \<noteq> b_id p then answer_error 404 ''app not found''
               else k a tenant))"

definition handle_list_own_versions :: "env \<Rightarrow> request \<Rightarrow> publisher_payload response act" where
  "handle_list_own_versions E r =
     own_app E r (\<lambda>a _.
       attempt (list_versions E (a_id a) False)
         (\<lambda>res. case res of
             Inl e \<Rightarrow> answer_error 500 ''could not load versions''
           | Inr versions \<Rightarrow> answer_json 200 (BVersions versions)))"

definition handle_submit_version ::
  "env \<Rightarrow> request \<Rightarrow> submit_body option \<Rightarrow> publisher_payload response act" where
  "handle_submit_version E r body =
     own_app E r (\<lambda>a tenant.
       case rq_claims r of
         None \<Rightarrow> answer_error 401 ''unauthorized''
       | Some c \<Rightarrow>
           (case body of
              None \<Rightarrow> answer_error 400 ''malformed request body''
            | Some b \<Rightarrow>
                attempt (submit_manifest E a (sb_channel b) (sb_manifest b) (cl_email c))
                  (\<lambda>res. case res of
                      Inl (ErrInvalidSubmission msg) \<Rightarrow> answer_error 400 msg
                    | Inl ErrConflict \<Rightarrow>
                        answer_error 409 ''that version already exists; a published version is immutable, so submit a new number''
                    | Inl _ \<Rightarrow> answer_error 500 ''could not submit the version''
                    | Inr saved \<Rightarrow>
                        andthen
                          (record_audit \<lparr>au_tenant = tenant, au_user = cl_user_id c,
                             au_action = ''publisher.version_submitted'',
                             au_kind = ''store_app_version'',
                             au_details = [(''app_id'', AuditText (a_id a)), (''version'', AuditText (v_version saved))]\<rparr>)
                          (\<lambda>_. answer_json 201 (BVersion saved)))))"

end
