(* ===== verification/Operations.thy ===== *)
theory Operations
  imports CatalogLaws Public PlatformHandlers Review Publisher
begin

text \<open>
  The interface between the store and the handlers. \<open>store_operations\<close> and \<open>operations\<close>: a property of the world that
  every operation of the store keeps, whatever the schedule of driver calls; every handler then
  keeps it. \<open>statement_closed\<close>: a property kept by each SQL statement on its own, which is the
  stronger contract. That a run stays quiet and that identifiers only grow are its first
  instances.
\<close>

section \<open>Audiences\<close>

text \<open>
  An audience is a platform's with its grants, which are not empty, or the empty one:
  \<open>audience_for\<close> makes no other.
\<close>

definition proper_audience :: "audience \<Rightarrow> bool" where
  "proper_audience aud \<longleftrightarrow> (anonymous aud \<longrightarrow> aud_app_ids aud = [])"

definition audience_view :: "env \<Rightarrow> string \<Rightarrow> database \<Rightarrow> audience" where
  "audience_view E token d =
     (if token = [] then no_audience
      else case find (\<lambda>r. pl_digest r = token_digest E token) (t_platforms d) of
          None \<Rightarrow> no_audience
        | Some r \<Rightarrow>
            if pl_disabled_at r \<noteq> None \<or> grants_of (pl_id r) d = [] then no_audience
            else \<lparr>aud_platform_id = pg_uuid_text E (pl_id r), aud_app_ids = grants_of (pl_id r) d\<rparr>)"

lemma audience_for_result:
  assumes "uuid_codec E" and "audience_for E token w = (r, w')"
  shows "tables w' = tables w \<and> (r = Inl ErrDriver \<or> r = Inr (audience_view E token (tables w)))"
  using assms(2) uuid_codecD(1) [OF assms(1)]
  by (auto simp: audience_for_def platform_by_token_def granted_app_ids_def query_def
      andthen_apply audience_view_def enabled_def scan_platform_def
      split: if_splits option.splits sum.splits)

lemma audience_for_quiet [quiet_rules]:
  assumes "uuid_codec E" and "quiet w"
  shows "fst (audience_for E token w) = Inr (audience_view E token (tables w))"
  using assms(2) uuid_codecD(1) [OF assms(1)]
  by (auto simp: audience_for_def platform_by_token_def granted_app_ids_def query_quiet
      andthen_apply audience_view_def enabled_def scan_platform_def
      split: if_splits option.splits sum.splits)

lemma audience_view_proper: "uuid_codec E \<Longrightarrow> proper_audience (audience_view E token d)"
  by (auto simp: audience_view_def proper_audience_def anonymous_def no_audience_def
      uuid_codecD(2) split: option.split)

lemma audience_proper:
  "uuid_codec E \<Longrightarrow> audience_for E token w = (Inr aud, w') \<Longrightarrow> proper_audience aud"
  using audience_for_result [of E token w "Inr aud" w'] audience_view_proper [of E token "tables w"]
  by simp

section \<open>The contract of the store\<close>

locale core_operations =
  fixes E :: env and I :: "world \<Rightarrow> bool"
  assumes op_tick: "\<And>w. I w \<Longrightarrow> I (tick w)"
    and op_audit: "\<And>a. keeps I (record_audit a)"
    and op_touch: "\<And>p. keeps I (touch_platform E p)"
    and op_create: "\<And>name origin note actor. keeps I (create_platform E name origin note actor)"
    and op_enable: "\<And>p on. keeps I (set_platform_enabled E p on)"
    and op_discard_private: "\<And>p. keeps I (discard_private_snapshots E p)"
    and op_discard: "keeps I discard_snapshots"
    and op_publisher: "\<And>p. keeps I (upsert_publisher E p)"
    and op_app: "\<And>a texts. keeps I (upsert_app E a texts)"
    and op_submit: "\<And>v x. v_status v = ''in_review'' \<Longrightarrow> keeps I (submit_version E v x)"
begin

lemma op_query: "keeps I (query q)"
  by (rule keepsI) (simp add: query_world op_tick)

lemmas op_rules = op_query op_audit op_touch op_create op_enable
  op_discard_private op_discard op_publisher op_app

lemma keeps_answers: "keeps I (answer_json n x)" "keeps I (answer_error n m)"
  by (simp_all add: answer_json_def answer_error_def keeps_ok)

lemmas handler_rules = op_rules keeps_answers keeps_intros

lemma keeps_reads:
  "keeps I (app_by_id E i)" "keeps I (app_by_slug E i)" "keeps I (app_texts i)"
  "keeps I (list_apps E i)" "keeps I (list_versions E i b)" "keeps I (chronicle E i)"
  "keeps I revision" "keeps I (external_registration_of i)" "keeps I (list_platforms E)"
  "keeps I (publisher_by_tenant E i)" "keeps I (list_publishers E)" "keeps I (review_history E i)"
  "keeps I (granted_app_ids E i)" "keeps I (version_by_id E i)"
  by (simp_all only: app_by_id_def app_by_slug_def app_texts_def list_apps_def list_versions_def
      chronicle_def revision_def external_registration_of_def list_platforms_def
      publisher_by_tenant_def list_publishers_def review_history_def granted_app_ids_def
      version_by_id_def op_query)

lemma keeps_audience: "keeps I (audience_for E token)"
  unfolding audience_for_def platform_by_token_def
  by (intro keeps_reads handler_rules)

lemma keeps_review_queue: "keeps I (list_review_queue E)"
  unfolding list_review_queue_def by (intro keeps_reads handler_rules)

lemma keeps_app_view: "keeps I (app_view a loc)"
  unfolding app_view_def by (intro keeps_reads handler_rules)

lemma keeps_submit_manifest: "keeps I (submit_manifest E a channel m by)"
  unfolding submit_manifest_def Let_def
  by (intro handler_rules op_submit) (simp add: submitted_version_def)

lemma keeps_public_handlers:
  "keeps I (handle_list_apps E r)" "keeps I (handle_get_app E r)"
  "keeps I (handle_list_versions E r)" "keeps I (handle_chronicle E r)"
  "keeps I (handle_keys E m)" "keeps I (handle_registry_state E m)"
  "keeps I (handle_rebuild_snapshots m)"
  unfolding handle_list_apps_def handle_get_app_def handle_list_versions_def
    handle_chronicle_def handle_keys_def handle_registry_state_def handle_rebuild_snapshots_def
    require_catalogue_def with_app_by_slug_def Let_def
  by (intro keeps_reads keeps_app_view handler_rules)+

lemma keeps_platform_handlers:
  "keeps I (handle_list_platforms E)" "keeps I (handle_create_platform E r cb)"
  "keeps I (handle_set_platform_enabled E r eb)"
  unfolding handle_list_platforms_def handle_create_platform_def handle_set_platform_enabled_def
    Let_def
  by (intro keeps_reads handler_rules)+

lemma keeps_review_reads:
  "keeps I (handle_queue E)" "keeps I (handle_history E r)" "keeps I (handle_publishers E)"
  unfolding handle_queue_def handle_history_def handle_publishers_def
  by (intro keeps_reads keeps_review_queue handler_rules)+

lemma keeps_publisher_handlers:
  "keeps I (handle_profile E r)" "keeps I (handle_save_profile E r pb)"
  "keeps I (handle_list_own_apps E r)" "keeps I (handle_upsert_app E r ab)"
  "keeps I (handle_list_own_versions E r)"
  unfolding handle_profile_def handle_save_profile_def handle_list_own_apps_def
    handle_upsert_app_def handle_list_own_versions_def own_app_def publisher_for_def
    require_session_def Let_def
  by (intro keeps_reads handler_rules)+

lemma keeps_decide_handler:
  "(\<And>v action aid actor note. keeps I (decide_version E v action aid actor note)) \<Longrightarrow>
   keeps I (handle_decision E r db)"
  unfolding handle_decision_def require_session_def by (intro handler_rules)

lemma keeps_verify_handler:
  "(\<And>b v actor. keeps I (set_publisher_verified E b v actor)) \<Longrightarrow>
   keeps I (handle_verify_publisher E r)"
  unfolding handle_verify_publisher_def require_session_def Let_def by (intro handler_rules)

lemma keeps_submit_handler: "keeps I (handle_submit_version E r sb)"
  unfolding handle_submit_version_def own_app_def publisher_for_def
  by (intro keeps_reads keeps_submit_manifest handler_rules)

end

text \<open>The reviewers' two decisions, apart from the rest: some properties hold of everything else.\<close>

locale store_operations = core_operations +
  assumes op_verify: "\<And>b v actor. keeps I (set_publisher_verified E b v actor)"
    and op_decide: "\<And>v action aid actor note. keeps I (decide_version E v action aid actor note)"
begin

lemma keeps_decision_handlers:
  "keeps I (handle_decision E r db)" "keeps I (handle_verify_publisher E r)"
  by (intro keeps_decide_handler keeps_verify_handler op_verify op_decide)+

end

text \<open>
  What decides which private documents are right: the grants, and the request that builds and
  saves a document.
\<close>

locale catalog_operations = core_operations E I for E I +
  fixes S :: "signer set"
  assumes op_grant: "\<And>a p actor. keeps I (grant E a p actor)"
    and op_revoke: "\<And>a p. keeps I (revoke E a p)"
    and op_catalog: "\<And>s channel platform aud. s \<in> S \<Longrightarrow> proper_audience aud \<Longrightarrow>
        keeps I (catalog E s channel platform aud)"
begin

lemma keeps_handle_catalog:
  "uuid_codec E \<Longrightarrow> set_option (m_catalog m) \<subseteq> S \<Longrightarrow> keeps I (handle_catalog E m r)"
  unfolding handle_catalog_def require_catalogue_def Let_def
  by (intro keeps_attempt_of [where m = "audience_for E t" for t] keeps_audience op_catalog
      handler_rules; auto dest: audience_proper)

lemma keeps_grant_handlers: "keeps I (handle_grant E r)" "keeps I (handle_revoke E r)"
  unfolding handle_grant_def handle_revoke_def Let_def
  by (intro keeps_reads op_grant op_revoke handler_rules)+

end

locale operations = catalog_operations E I S + store_operations E I for E I S

section \<open>Properties kept by each statement\<close>

text \<open>
  Statements are assumed one by one, in the order of the source; the audit log, the schedule and
  the random source are the world's own steps. A transaction may roll back after its body has
  handed out identifiers, hence the premise that the body only lets them grow.
\<close>

locale statement_core =
  fixes E :: env and I :: "world \<Rightarrow> bool"
  assumes st_tick: "\<And>w. I w \<Longrightarrow> I (tick w)"
    and st_audit: "\<And>w a. I w \<Longrightarrow> I (w\<lparr>audits := a\<rparr>)"
    and st_entropy: "\<And>w e. I w \<Longrightarrow> I (w\<lparr>entropy := e\<rparr>)"
    and st_begin: "\<And>w t. I w \<Longrightarrow> I (w\<lparr>tx_start := t\<rparr>)"
    and st_rollback: "\<And>w w'. I w \<Longrightarrow> I w' \<Longrightarrow> next_uuid w \<le> next_uuid w' \<Longrightarrow>
        I (w'\<lparr>tables := tables w\<rparr>)"
    and st_touch: "\<And>p. keeps I (stmt (touch_stmt E p))"
    and st_create: "\<And>name origin note g actor.
        keeps I (stmt (insert_platform_stmt E name origin note g actor))"
    and st_enable: "\<And>p on. keeps I (stmt (set_enabled_stmt E p on))"
    and st_grant: "\<And>a p actor. keeps I (stmt (grant_stmt E a p actor))"
    and st_revoke: "\<And>a p. keeps I (stmt (revoke_stmt E a p))"
    and st_discard_private: "\<And>p. keeps I (stmt (discard_private_stmt E p))"
    and st_discard: "keeps I discard_snapshots"
    and st_save: "\<And>channel platform s. keeps I (stmt (save_public_stmt channel platform s))"
    and st_save_private: "\<And>p channel platform s.
        keeps I (stmt (save_private_stmt E p channel platform s))"
    and st_prune: "\<And>channel. keeps I (stmt (prune_stmt channel))"
    and st_bump: "keeps I (stmt bump_stmt)"
    and st_publisher: "\<And>p. keeps I (stmt (upsert_publisher_stmt E p))"
    and st_app: "\<And>a. keeps I (stmt (upsert_app_stmt E a))"
    and st_text: "\<And>aid lt. keeps I (stmt (upsert_text_stmt aid lt))"
    and st_version: "\<And>v j. v_status v = ''in_review'' \<Longrightarrow> keeps I (stmt (insert_version_stmt E v j))"
    and st_external: "\<And>aid x. keeps I (stmt (upsert_external_stmt E aid x))"
    and st_event: "\<And>v aid actor action note.
        keeps I (stmt (insert_event_stmt E v aid actor action note))"
begin

lemma st_query: "keeps I (query q)"
  by (rule keepsI) (simp add: query_world st_tick)

lemma st_rand: "keeps I (rand_read n)"
  by (rule keepsI) (simp add: rand_read_def st_entropy)

lemma st_transaction:
  assumes "keeps I body" and "grows body"
  shows "keeps I (transaction body)"
proof (rule keepsI)
  fix w assume w: "I w"
  define w1 where "w1 = (tick w)\<lparr>tx_start := Some (now (tick w))\<rparr>"
  define w2 where "w2 = snd (body w1)"
  have w1: "I w1" using w by (simp add: w1_def st_begin st_tick)
  then have w2: "I w2" unfolding w2_def by (rule keepsD [OF assms(1)])
  have "next_uuid w \<le> next_uuid w1" using next_uuid_tick [of w] by (simp add: w1_def)
  also have "\<dots> \<le> next_uuid w2" unfolding w2_def by (rule growsD [OF assms(2)])
  finally have n: "next_uuid w \<le> next_uuid w2" .
  then have m: "next_uuid w \<le> next_uuid (tick w2)"
    using next_uuid_tick [of w2] by linarith
  have "I (w2\<lparr>tables := tables w, tx_start := None\<rparr>)"
    using st_begin [OF st_rollback [OF w w2 n], of None] by simp
  moreover have "I ((tick w2)\<lparr>tables := tables w, tx_start := None\<rparr>)"
    using st_begin [OF st_rollback [OF w st_tick [OF w2] m], of None] by simp
  moreover have "I ((tick w2)\<lparr>tx_start := None\<rparr>)" and "I (tick w)"
    using w w2 by (simp_all add: st_begin st_tick)
  ultimately show "I (snd (transaction body w))"
    by (auto simp: transaction_def Let_def w2_def w1_def split: prod.splits sum.splits)
qed

lemmas st_rules = st_query st_rand st_touch st_create st_enable st_grant st_revoke
  st_discard_private st_discard st_save st_save_private st_prune st_bump st_publisher
  st_app st_text st_external st_event

lemma keeps_build: "keeps I (build E s channel platform rv aud)"
  unfolding build_def app_texts_def by (intro st_query keeps_intros)

lemma keeps_catalog: "keeps I (catalog E s channel platform aud)"
  unfolding catalog_def load_snapshot_def save_snapshot_def prune_snapshots_def revision_def Let_def
  by (intro keeps_build st_rules keeps_intros)

lemma keeps_upsert_app: "keeps I (upsert_app E a texts)"
  unfolding upsert_app_def app_owner_def bump_revision_def
  by (intro st_transaction st_rules keeps_intros)

lemma keeps_submit: "v_status v = ''in_review'' \<Longrightarrow> keeps I (submit_version E v x)"
  unfolding submit_version_def version_by_id_def
  by (intro st_transaction st_rules st_version keeps_intros)

end

sublocale statement_core \<subseteq> catalog_operations E I UNIV
proof unfold_locales
  show "keeps I (record_audit a)" for a
    by (rule keepsI) (simp add: record_audit_def st_audit)
  show "keeps I (create_platform E name origin comment actor)" for name origin comment actor
    unfolding create_platform_def new_token_def Let_def by (intro st_rules keeps_intros)
  show "keeps I (submit_version E v x)" if "v_status v = ''in_review''" for v x
    using that by (rule keeps_submit)
qed (simp_all only: st_tick touch_platform_def set_platform_enabled_def grant_def revoke_def
    discard_private_snapshots_def upsert_publisher_def publisher_by_id_def
    keeps_catalog keeps_upsert_app,
    (intro st_rules keeps_intros)+)

locale statement_closed = statement_core +
  assumes st_verify: "\<And>b v actor. keeps I (stmt (set_verified_stmt E b v actor))"
    and st_decide: "\<And>v status note. keeps I (stmt (decide_stmt E v status note))"
    and st_provenance: "\<And>v aid. keeps I (stmt (provenance_stmt E v aid))"

sublocale statement_closed \<subseteq> operations E I UNIV
proof unfold_locales
  show "keeps I (set_publisher_verified E b v actor)" for b v actor
    unfolding set_publisher_verified_def by (intro st_verify keeps_intros)
  show "keeps I (decide_version E v action aid actor nt)" for v action aid actor nt
    unfolding decide_version_def bump_revision_def
    by (intro st_transaction st_rules st_decide st_provenance keeps_intros)
qed

section \<open>Quiet runs and fresh identifiers\<close>

interpretation quiet_run: statement_closed E quiet for E
proof unfold_locales
qed (simp_all add: keeps_quiet_stmt discard_snapshots_def)

lemma keeps_uuid_stmt: "keeps (\<lambda>w. n \<le> next_uuid w) (stmt q)"
  using grows_stmt [of q] by (simp add: grows_def)

lemma uuid_tick_le: "n \<le> next_uuid w \<Longrightarrow> n \<le> next_uuid (tick w)"
  using next_uuid_tick [of w] by linarith

interpretation fresh_ids: statement_closed E "\<lambda>w. n \<le> next_uuid w" for E n
proof unfold_locales
qed (simp_all add: keeps_uuid_stmt uuid_tick_le discard_snapshots_def)

end
