(* ===== verification/Frames.thy ===== *)
theory Frames
  imports Operations
begin

text \<open>
  What each statement writes (one table), and properties of an operation's effect: \<open>moves R m\<close>
  relates the tables before \<open>m\<close> to those after, errors and rollbacks included. \<open>two_state\<close> gives
  the closure rules for any reflexive and transitive relation.
\<close>

section \<open>Which table a statement writes\<close>

lemma platform_frames [frame]:
  "touch_stmt E p t n d = Inr (x, d') \<Longrightarrow> \<exists>v. d' = d\<lparr>t_platforms := v\<rparr>"
  "insert_platform_stmt E name origin nt g actor t n d = Inr (y, d') \<Longrightarrow> \<exists>v. d' = d\<lparr>t_platforms := v\<rparr>"
  "set_enabled_stmt E p on t n d = Inr (z, d') \<Longrightarrow> \<exists>v. d' = d\<lparr>t_platforms := v\<rparr>"
  by (auto simp: touch_stmt_def insert_platform_stmt_def set_enabled_stmt_def Let_def
      split: option.splits sum.splits if_splits)

lemma grant_frames [frame]:
  "grant_stmt E a p actor t n d = Inr (x, d') \<Longrightarrow> \<exists>v. d' = d\<lparr>t_grants := v\<rparr>"
  "revoke_stmt E a p t n d = Inr (x, d') \<Longrightarrow> \<exists>v. d' = d\<lparr>t_grants := v\<rparr>"
proof -
  assume "grant_stmt E a p actor t n d = Inr (x, d')"
  then have "d' = d \<or> (\<exists>v. d' = d\<lparr>t_grants := v\<rparr>)"
    by (auto simp: grant_stmt_def split: option.splits sum.splits if_splits)
  moreover have "d = d\<lparr>t_grants := t_grants d\<rparr>" by simp
  ultimately show "\<exists>v. d' = d\<lparr>t_grants := v\<rparr>" by metis
next
  assume "revoke_stmt E a p t n d = Inr (x, d')"
  then show "\<exists>v. d' = d\<lparr>t_grants := v\<rparr>"
    by (auto simp: revoke_stmt_def split: option.splits)
qed

lemma snapshot_frames [frame]:
  "discard_private_stmt E p t n d = Inr (x, d') \<Longrightarrow> \<exists>v. d' = d\<lparr>t_private := v\<rparr>"
  "save_private_stmt E p channel platform s t n d = Inr (x, d') \<Longrightarrow> \<exists>v. d' = d\<lparr>t_private := v\<rparr>"
  "save_public_stmt channel platform s t n d = Inr (x, d') \<Longrightarrow> \<exists>v. d' = d\<lparr>t_snapshots := v\<rparr>"
  "prune_stmt channel t n d = Inr (x, d') \<Longrightarrow> \<exists>v. d' = d\<lparr>t_snapshots := v\<rparr>"
  by (auto simp: discard_private_stmt_def save_private_stmt_def save_public_stmt_def prune_stmt_def
      store_public_def store_private_def split: option.splits if_splits)

lemma publisher_frames [frame]:
  "upsert_publisher_stmt E p t n d = Inr (y, d') \<Longrightarrow> \<exists>v. d' = d\<lparr>t_publishers := v\<rparr>"
  "set_verified_stmt E b verified actor t n d = Inr (z, d') \<Longrightarrow> \<exists>v. d' = d\<lparr>t_publishers := v\<rparr>"
  by (auto simp: upsert_publisher_stmt_def set_verified_stmt_def Let_def
      split: option.splits sum.splits if_splits)

lemma provenance_frame [frame]:
  assumes "provenance_stmt E v aid t n d = Inr (x, d')"
  shows "\<exists>v. d' = d\<lparr>t_apps := v\<rparr>"
proof -
  have "d' = d \<or> (\<exists>v. d' = d\<lparr>t_apps := v\<rparr>)"
    using assms by (auto simp: provenance_stmt_def split: option.splits sum.splits)
  moreover have "d = d\<lparr>t_apps := t_apps d\<rparr>" by simp
  ultimately show ?thesis by metis
qed

lemma app_frames [frame]:
  "upsert_app_stmt E a t n d = Inr (x, d') \<Longrightarrow> \<exists>v. d' = d\<lparr>t_apps := v\<rparr>"
  "upsert_text_stmt aid lt t n d = Inr (x, d') \<Longrightarrow> \<exists>v. d' = d\<lparr>t_texts := v\<rparr>"
  "bump_stmt t n d = Inr (x, d') \<Longrightarrow> \<exists>v. d' = d\<lparr>t_revision := v\<rparr>"
  by (auto simp: upsert_app_stmt_def upsert_text_stmt_def bump_stmt_def split: option.splits if_splits)

lemma version_frames [frame]:
  "insert_version_stmt E v j t n d = Inr (y, d') \<Longrightarrow> \<exists>v. d' = d\<lparr>t_versions := v\<rparr>"
  "decide_stmt E i status nt t n d = Inr (z, d') \<Longrightarrow> \<exists>v. d' = d\<lparr>t_versions := v\<rparr>"
  "upsert_external_stmt E aid xr t n d = Inr (x, d') \<Longrightarrow> \<exists>v. d' = d\<lparr>t_externals := v\<rparr>"
  "insert_event_stmt E i actor_id actor action nt t n d = Inr (x, d') \<Longrightarrow> \<exists>v. d' = d\<lparr>t_events := v\<rparr>"
  by (auto simp: insert_version_stmt_def decide_stmt_def upsert_external_stmt_def
      insert_event_stmt_def Let_def split: option.splits sum.splits if_splits)

section \<open>Two-state properties\<close>

definition moves :: "(database \<Rightarrow> database \<Rightarrow> bool) \<Rightarrow> 'a act \<Rightarrow> bool" where
  "moves R m \<longleftrightarrow> (\<forall>w. R (tables w) (tables (snd (m w))))"

lemma movesD: "moves R m \<Longrightarrow> m w = (r, w') \<Longrightarrow> R (tables w) (tables w')"
  unfolding moves_def by (metis snd_conv)

lemma moves_weaken: "moves R m \<Longrightarrow> (\<And>d d'. R d d' \<Longrightarrow> R' d d') \<Longrightarrow> moves R' m"
  by (simp add: moves_def)

text \<open>A property of the tables that a statement keeps, and that its frame mostly decides.\<close>

lemma keeps_stmt_tables:
  "(\<And>t n d x d'. q t n d = Inr (x, d') \<Longrightarrow> P d \<Longrightarrow> P d') \<Longrightarrow> keeps (\<lambda>w. P (tables w)) (stmt q)"
  by (rule keepsI) (auto simp: stmt_def Let_def split: sum.split)

text \<open>A property carried along the relation is kept by the operation.\<close>

lemma moves_keeps:
  "moves R m \<Longrightarrow> (\<And>d d'. R d d' \<Longrightarrow> P d \<Longrightarrow> P d') \<Longrightarrow> keeps (\<lambda>w. P (tables w)) m"
  by (auto simp: moves_def keeps_def)

locale two_state =
  fixes R :: "database \<Rightarrow> database \<Rightarrow> bool"
  assumes R_refl: "R d d" and R_trans: "R d1 d2 \<Longrightarrow> R d2 d3 \<Longrightarrow> R d1 d3"
begin

lemma moves_andthen: "moves R m \<Longrightarrow> (\<And>x. moves R (k x)) \<Longrightarrow> moves R (andthen m k)"
  unfolding moves_def andthen_def
  by (auto split: prod.splits sum.splits intro: R_refl) (metis R_trans snd_conv)+

lemma moves_attempt: "moves R m \<Longrightarrow> (\<And>r. moves R (k r)) \<Longrightarrow> moves R (attempt m k)"
  unfolding moves_def attempt_def by (auto split: prod.splits) (metis R_trans snd_conv)

lemma moves_ok: "moves R (ok x)" "moves R (fail e)" "moves R (lift_err r)"
  by (simp_all add: moves_def R_refl)

lemma moves_for_each: "(\<And>x. moves R (f x)) \<Longrightarrow> moves R (for_each f xs)"
  by (induction xs) (auto intro!: moves_andthen moves_ok)

lemma moves_if: "moves R m \<Longrightarrow> moves R m' \<Longrightarrow> moves R (if b then m else m')"
  by simp

lemma moves_case_option:
  "(x = None \<Longrightarrow> moves R m) \<Longrightarrow> (\<And>y. x = Some y \<Longrightarrow> moves R (f y)) \<Longrightarrow>
   moves R (case x of None \<Rightarrow> m | Some y \<Rightarrow> f y)"
  by (cases x) simp_all

lemma moves_case_sum:
  "(\<And>e. moves R (f e)) \<Longrightarrow> (\<And>y. moves R (g y)) \<Longrightarrow>
   moves R (case x of Inl e \<Rightarrow> f e | Inr y \<Rightarrow> g y)"
  by (cases x) simp_all

lemma moves_query: "moves R (query q)"
  by (simp add: moves_def R_refl)

lemma moves_rand: "moves R (rand_read n)"
  by (simp add: moves_def rand_read_def R_refl)

lemma moves_audit: "moves R (record_audit a)"
  by (simp add: moves_def record_audit_def R_refl)

lemma moves_stmt:
  "(\<And>t n d x d'. q t n d = Inr (x, d') \<Longrightarrow> R d d') \<Longrightarrow> moves R (stmt q)"
  by (auto simp: moves_def stmt_def Let_def R_refl split: sum.split)

text \<open>A transaction shows what its body has done when it commits, and nothing otherwise.\<close>

lemma moves_commit:
  assumes "\<And>w x w'. body w = (Inr x, w') \<Longrightarrow> R (tables w) (tables w')"
  shows "moves R (transaction body)"
proof -
  have "R (tables w) (tables w')" if "transaction body w = (r, w')" for w r w'
  proof (cases r)
    case (Inl e)
    with that have "tables w' = tables w" by (auto intro: transaction_error_unchanged)
    then show ?thesis by (simp add: R_refl)
  next
    case (Inr x)
    with that have "transaction body w = (Inr x, w')" by simp
    then obtain w1 w2 where "w1 = (tick w)\<lparr>tx_start := Some (now (tick w))\<rparr>"
      and "body w1 = (Inr x, w2)" and "tables w' = tables w2"
      by (rule transaction_okD)
    then show ?thesis using assms [of w1 x w2] by simp
  qed
  then show ?thesis by (metis moves_def prod.collapse)
qed

lemma moves_transaction: "moves R body \<Longrightarrow> moves R (transaction body)"
  by (rule moves_commit) (rule movesD)

lemmas moves_rules = moves_query moves_rand moves_audit moves_andthen moves_attempt moves_ok
  moves_for_each moves_if moves_case_option moves_case_sum

lemma keeps_moves: "moves R m \<Longrightarrow> keeps (\<lambda>w. R d (tables w)) m"
  by (erule moves_keeps) (rule R_trans)

end

text \<open>\<open>silent m\<close>: \<open>m\<close> adds nothing to the audit trail, whatever it returns.\<close>

definition silent :: "'a act \<Rightarrow> bool" where
  "silent m \<longleftrightarrow> (\<forall>A. keeps (\<lambda>w. audits w = A) m)"

lemma silentD: "silent m \<Longrightarrow> audits (snd (m w)) = audits w"
  by (simp add: silent_def keeps_def)

lemma silent_stmt: "silent (stmt q)" "silent (query q')" "silent (rand_read n)"
  unfolding silent_def
  by (intro allI keepsI; auto simp: stmt_def query_def rand_read_def Let_def split: sum.split)+

lemma silent_transaction: "silent body \<Longrightarrow> silent (transaction body)"
  unfolding silent_def
proof (intro allI keepsI)
  fix A and w :: world assume b: "\<forall>A. keeps (\<lambda>w. audits w = A) body" and w: "audits w = A"
  have "audits (snd (body ((tick w)\<lparr>tx_start := Some (now (tick w))\<rparr>))) = A"
    by (rule keepsD [OF b [rule_format]]) (use w in simp)
  with w show "audits (snd (transaction body w)) = A"
    by (auto simp: transaction_def Let_def split: prod.splits sum.splits)
qed

lemma silent_combinators:
  "silent m \<Longrightarrow> (\<And>x. silent (k x)) \<Longrightarrow> silent (andthen m k)"
  "silent m \<Longrightarrow> (\<And>r. silent (k' r)) \<Longrightarrow> silent (attempt m k')"
  "(\<And>y. silent (f y)) \<Longrightarrow> silent (for_each f ys)"
  "silent (ok z)" "silent (fail e)" "silent (lift_err r)"
  by (auto simp: silent_def intro!: keeps_intros)

lemma silent_if: "silent m \<Longrightarrow> silent m' \<Longrightarrow> silent (if b then m else m')"
  by simp

lemma silent_case_option: "silent m \<Longrightarrow> (\<And>y. silent (f y)) \<Longrightarrow> silent (case x of None \<Rightarrow> m | Some y \<Rightarrow> f y)"
  by (cases x) simp_all

lemma silent_case_sum:
  "(\<And>e. silent (f e)) \<Longrightarrow> (\<And>y. silent (g y)) \<Longrightarrow> silent (case x of Inl e \<Rightarrow> f e | Inr y \<Rightarrow> g y)"
  by (cases x) simp_all

lemmas silent_rules = silent_stmt silent_transaction silent_combinators silent_if silent_case_option
  silent_case_sum

text \<open>The tables that are neither the catalogue's content nor its public cache.\<close>

definition same_catalogue :: "database \<Rightarrow> database \<Rightarrow> bool" where
  "same_catalogue d d' \<longleftrightarrow> t_apps d' = t_apps d \<and> t_texts d' = t_texts d
     \<and> t_versions d' = t_versions d \<and> t_revision d' = t_revision d \<and> t_snapshots d' = t_snapshots d"

interpretation catalogue_frame: two_state same_catalogue
  by unfold_locales (simp_all add: same_catalogue_def)

lemma same_catalogue_stmt:
  assumes "\<And>t n d x d'. q t n d = Inr (x, d') \<Longrightarrow> (\<exists>v. d' = d\<lparr>t_platforms := v\<rparr>) \<or>
      (\<exists>v. d' = d\<lparr>t_grants := v\<rparr>) \<or> (\<exists>v. d' = d\<lparr>t_private := v\<rparr>) \<or>
      (\<exists>v. d' = d\<lparr>t_publishers := v\<rparr>) \<or> (\<exists>v. d' = d\<lparr>t_externals := v\<rparr>) \<or>
      (\<exists>v. d' = d\<lparr>t_events := v\<rparr>)"
  shows "moves same_catalogue (stmt q)"
  by (rule catalogue_frame.moves_stmt, drule assms) (auto simp: same_catalogue_def)

lemma same_catalogue_side_stmts:
  "moves same_catalogue (stmt (save_private_stmt E p channel platform s))"
  "moves same_catalogue (stmt (upsert_external_stmt E i x))"
  "moves same_catalogue (stmt (insert_event_stmt E i actor_id actor action nt))"
  by (rule same_catalogue_stmt; simp add: frame)+

lemma same_catalogue_platform_ops:
  "moves same_catalogue (touch_platform E p)"
  "moves same_catalogue (create_platform E name origin nt actor)"
  "moves same_catalogue (set_platform_enabled E p on)"
  "moves same_catalogue (grant E a p actor)"
  "moves same_catalogue (revoke E a p)"
  "moves same_catalogue (discard_private_snapshots E p)"
  unfolding touch_platform_def create_platform_def new_token_def Let_def set_platform_enabled_def
    grant_def revoke_def discard_private_snapshots_def
  by (intro catalogue_frame.moves_rules same_catalogue_stmt; simp add: frame)+

lemma same_catalogue_publisher_ops:
  "moves same_catalogue (upsert_publisher E b)"
  "moves same_catalogue (set_publisher_verified E i v actor)"
  unfolding upsert_publisher_def publisher_by_id_def set_publisher_verified_def
  by (intro catalogue_frame.moves_rules same_catalogue_stmt; simp add: frame)+

end
