(* ===== verification/Cache.thy ===== *)
theory Cache
  imports CatalogLaws
begin

text \<open>
  The two snapshot caches behind one interface. \<open>snapshot_cache\<close> states what loading returns
  after a store and after rows are dropped; its client, the coherence of a cache with what it
  should hold, is proved once and used for the public table and for the private one. The bound on
  the public table follows.
\<close>

section \<open>The interface of a cache\<close>

locale snapshot_cache =
  fixes load :: "'k \<Rightarrow> database \<Rightarrow> snapshot option"
    and store :: "'k \<Rightarrow> snapshot \<Rightarrow> time \<Rightarrow> database \<Rightarrow> database"
  assumes load_store: "load k (store k s t d) = Some s"
    and load_store_other: "k' \<noteq> k \<Longrightarrow> load k' (store k s t d) = load k' d"
begin

definition shrinks :: "database \<Rightarrow> database \<Rightarrow> bool" where
  "shrinks d d' \<longleftrightarrow> (\<forall>k. load k d' = None \<or> load k d' = load k d)"

definition coherent :: "('k \<Rightarrow> snapshot \<Rightarrow> bool) \<Rightarrow> database \<Rightarrow> bool" where
  "coherent good d \<longleftrightarrow> (\<forall>k s. load k d = Some s \<longrightarrow> good k s)"

lemma coherentD: "coherent good d \<Longrightarrow> load k d = Some s \<Longrightarrow> good k s"
  by (simp add: coherent_def)

lemma coherent_store: "coherent good d \<Longrightarrow> good k s \<Longrightarrow> coherent good (store k s t d)"
  unfolding coherent_def by (metis load_store load_store_other option.inject)

lemma coherent_shrinks: "coherent good d \<Longrightarrow> shrinks d d' \<Longrightarrow> coherent good d'"
  unfolding coherent_def shrinks_def by (metis option.distinct(1))

lemma coherent_mono: "coherent good d \<Longrightarrow> (\<And>k s. good k s \<Longrightarrow> good' k s) \<Longrightarrow> coherent good' d"
  by (simp add: coherent_def)

lemma shrinks_refl: "shrinks d d"
  by (simp add: shrinks_def)

lemma shrinks_trans: "shrinks d1 d2 \<Longrightarrow> shrinks d2 d3 \<Longrightarrow> shrinks d1 d3"
  unfolding shrinks_def by metis

lemma store_twice: "load k' (store k s2 t2 (store k s1 t1 d)) = load k' (store k s2 t2 d)"
  by (cases "k' = k") (simp_all add: load_store load_store_other)

end

section \<open>The public table\<close>

lemma snapshot_of_row_of_snapshot [simp]: "snapshot_of_row (row_of_snapshot c p s t) = s"
  by (simp add: snapshot_of_row_def row_of_snapshot_def)

lemma at_key_row [simp]: "at_key c p (row_of_snapshot c' p' s t) \<longleftrightarrow> c' = c \<and> p' = p"
  by (simp add: at_key_def row_of_snapshot_def)

interpretation public_cache: snapshot_cache load_public store_public
proof unfold_locales
  show "load_public k (store_public k s t d) = Some s" for k s t d
    by (simp add: load_public_def store_public_def find_upsert split: option.split)
  show "load_public k' (store_public k s t d) = load_public k' d" if "k' \<noteq> k" for k k' s t d
  proof -
    have "find (at_key (fst k') (snd k')) (upsert (at_key (fst k) (snd k))
        (row_of_snapshot (fst k) (snd k) s t) (\<lambda>r. row_of_snapshot (fst k) (snd k) s t)
        (t_snapshots d)) = find (at_key (fst k') (snd k')) (t_snapshots d)"
      by (rule find_upsert_other) (use that in \<open>auto simp: at_key_def row_of_snapshot_def prod_eq_iff\<close>)
    then show ?thesis by (simp add: load_public_def store_public_def)
  qed
qed

section \<open>The private table\<close>

interpretation private_cache: snapshot_cache load_private store_private
proof unfold_locales
  show "load_private k (store_private k s t d) = Some s" for k s t d
    by (simp add: load_private_def store_private_def find_upsert split: option.split)
  show "load_private k' (store_private k s t d) = load_private k' d" if "k' \<noteq> k" for k k' s t d
  proof -
    let ?P = "\<lambda>k p. fst p = fst k \<and> at_key (fst (snd k)) (snd (snd k)) (snd p)"
    let ?new = "(fst k, row_of_snapshot (fst (snd k)) (snd (snd k)) s t)"
    have "find (?P k') (upsert (?P k) ?new (\<lambda>p. ?new) (t_private d)) = find (?P k') (t_private d)"
      by (rule find_upsert_other) (use that in \<open>auto simp: at_key_def row_of_snapshot_def prod_eq_iff\<close>)
    then show ?thesis by (simp add: load_private_def store_private_def)
  qed
qed

section \<open>Dropping rows\<close>

text \<open>A filter that treats the rows of one key alike hides a key or leaves it.\<close>

lemma find_filter_keyed:
  assumes "\<And>x y. P x \<Longrightarrow> P y \<Longrightarrow> Q x = Q y"
  shows "find P (filter Q xs) = None \<or> find P (filter Q xs) = find P xs"
proof (induction xs)
  case (Cons x xs)
  show ?case
  proof (cases "P x \<and> \<not> Q x")
    case True
    then have "find P (filter Q xs) = None"
      using assms by (auto simp: find_None_iff)
    with True show ?thesis by simp
  qed (use Cons in auto)
qed simp

lemma public_shrinks_filter:
  assumes "\<And>r r'. sn_channel r = sn_channel r' \<Longrightarrow> sn_platform r = sn_platform r' \<Longrightarrow> Q r = Q r'"
  shows "public_cache.shrinks d (d\<lparr>t_snapshots := filter Q (t_snapshots d)\<rparr>)"
  unfolding public_cache.shrinks_def
proof
  fix k :: "string \<times> string"
  have "find (at_key (fst k) (snd k)) (filter Q (t_snapshots d)) = None \<or>
    find (at_key (fst k) (snd k)) (filter Q (t_snapshots d)) = find (at_key (fst k) (snd k)) (t_snapshots d)"
    by (rule find_filter_keyed) (unfold at_key_def, metis assms)
  then show "load_public k (d\<lparr>t_snapshots := filter Q (t_snapshots d)\<rparr>) = None \<or>
      load_public k (d\<lparr>t_snapshots := filter Q (t_snapshots d)\<rparr>) = load_public k d"
    by (auto simp: load_public_def)
qed

lemma prune_shrinks:
  "prune_stmt channel t n d = Inr (x, d') \<Longrightarrow> public_cache.shrinks d d'"
  by (auto simp: prune_stmt_def intro!: public_shrinks_filter)

lemma discard_shrinks: "public_cache.shrinks d (d\<lparr>t_snapshots := []\<rparr>)"
  by (simp add: public_cache.shrinks_def load_public_def)

lemma discard_private_shrinks:
  assumes "discard_private_stmt E p t n d = Inr (x, d')"
  shows "private_cache.shrinks d d'"
proof -
  have "private_cache.shrinks d (d\<lparr>t_private := filter (\<lambda>s. fst s \<noteq> u) (t_private d)\<rparr>)" for u
    unfolding private_cache.shrinks_def
  proof
    fix k :: "uuid \<times> string \<times> string"
    let ?P = "\<lambda>p. fst p = fst k \<and> at_key (fst (snd k)) (snd (snd k)) (snd p)"
    have "find ?P (filter (\<lambda>s. fst s \<noteq> u) (t_private d)) = None \<or>
        find ?P (filter (\<lambda>s. fst s \<noteq> u) (t_private d)) = find ?P (t_private d)"
      by (rule find_filter_keyed) auto
    then show "load_private k (d\<lparr>t_private := filter (\<lambda>s. fst s \<noteq> u) (t_private d)\<rparr>) = None \<or>
        load_private k (d\<lparr>t_private := filter (\<lambda>s. fst s \<noteq> u) (t_private d)\<rparr>) = load_private k d"
      by (auto simp: load_private_def)
  qed
  moreover have "private_cache.shrinks d (d\<lparr>t_private := []\<rparr>)"
    by (simp add: private_cache.shrinks_def load_private_def)
  ultimately show ?thesis
    using assms by (auto simp: discard_private_stmt_def split: if_splits option.splits)
qed

text \<open>After a platform's documents are discarded none of them is served.\<close>

lemma load_private_discarded:
  assumes "discard_private_stmt E p t n d = Inr (x, d')" and "p = [] \<or> pg_uuid E p = Some u"
  shows "load_private (u, k) d' = None"
  using assms
  by (auto simp: discard_private_stmt_def load_private_def find_None_iff split: if_splits)

section \<open>The bound of the public table\<close>

definition snapshot_key :: "snapshot_row \<Rightarrow> string \<times> string" where
  "snapshot_key r = (sn_channel r, sn_platform r)"

definition channel_rows :: "string \<Rightarrow> database \<Rightarrow> snapshot_row list" where
  "channel_rows channel d = filter (\<lambda>r. sn_channel r = channel) (t_snapshots d)"

lemma at_key_snapshot_key: "at_key c p r \<longleftrightarrow> snapshot_key r = (c, p)"
  by (simp add: at_key_def snapshot_key_def)

lemma distinct_store_public:
  assumes "distinct (map snapshot_key (t_snapshots d))"
  shows "distinct (map snapshot_key (t_snapshots (store_public k s t d)))"
proof -
  have "distinct (map snapshot_key (upsert (at_key (fst k) (snd k)) (row_of_snapshot (fst k) (snd k) s t)
      (\<lambda>r. row_of_snapshot (fst k) (snd k) s t) (t_snapshots d)))"
    by (rule distinct_key_upsert [OF assms])
      (auto simp: at_key_snapshot_key snapshot_key_def row_of_snapshot_def)
  then show ?thesis by (simp add: store_public_def)
qed

lemma platform_distinct:
  assumes "distinct (map snapshot_key (t_snapshots d))"
  shows "distinct (map sn_platform (channel_rows channel d))"
proof -
  have "distinct (map snapshot_key (channel_rows channel d))"
    using assms unfolding channel_rows_def by (rule distinct_map_filter)
  moreover have "inj_on sn_platform (set (channel_rows channel d)) \<longleftrightarrow>
      inj_on snapshot_key (set (channel_rows channel d))"
    by (auto simp: inj_on_def channel_rows_def snapshot_key_def)
  ultimately show ?thesis by (simp add: distinct_map)
qed

lemma kept_channel_rows:
  "kept_platforms channel d =
     map sn_platform (take 64 (sort_key (\<lambda>r. - sn_built_at r) (channel_rows channel d)))"
  by (simp add: kept_platforms_def channel_rows_def max_snapshots_per_channel_def)

lemma prune_bound:
  assumes "distinct (map snapshot_key (t_snapshots d))" and "prune_stmt channel t n d = Inr (x, d')"
  shows "length (channel_rows channel d') \<le> 64"
proof -
  have r: "channel_rows channel d' =
      filter (\<lambda>r. sn_platform r \<in> set (kept_platforms channel d)) (channel_rows channel d)"
    using assms(2)
    by (auto simp: prune_stmt_def channel_rows_def intro: filter_cong)
  have "distinct (map sn_platform (channel_rows channel d'))"
    unfolding r by (intro distinct_map_filter platform_distinct assms(1))
  then have "length (channel_rows channel d') = card (set (map sn_platform (channel_rows channel d')))"
    by (metis distinct_card length_map)
  also have "\<dots> \<le> card (set (kept_platforms channel d))"
    by (rule card_mono) (auto simp: r)
  also have "\<dots> \<le> length (kept_platforms channel d)"
    by (rule card_length)
  also have "\<dots> \<le> 64" by (simp add: kept_channel_rows)
  finally show ?thesis .
qed

end
