(* ===== verification/Revision.thy ===== *)
theory Revision
  imports Frames Cache
begin

text \<open>
  The revision counter: nothing changes what a public document would list without moving it, and
  that is what makes the cache sound. \<open>rev_step\<close> and \<open>public_step\<close> relate the tables before an
  operation to those after it; \<open>public_ok\<close> is the coherence of the public cache, kept by every
  operation under every schedule of driver calls.
\<close>

section \<open>What the documents depend on\<close>

type_synonym catalogue_content = "app_row list \<times> text_row list \<times> version_row list"

definition content :: "database \<Rightarrow> catalogue_content" where
  "content d = (t_apps d, t_texts d, filter is_published (t_versions d))"

lemma joined_rows_content:
  "joined_rows channel ids d =
     concat (map (\<lambda>a. map (Pair a) (filter (\<lambda>v. ver_app v = app_id a \<and> ver_channel v = channel)
                                      (snd (snd (content d)))))
                 (filter (visible ids) (fst (content d))))"
  by (simp add: joined_rows_def content_def offered_def [abs_def] conj_ac)

lemma texts_of_content: "texts_of i d =
    map (\<lambda>r. (tx_locale r, tx_text r)) (filter (\<lambda>r. tx_app r = i) (fst (snd (content d))))"
  by (simp add: texts_of_def content_def)

lemma build_pure_content:
  assumes "content d = content d'"
  shows "build_pure E s channel platform rv aud d = build_pure E s channel platform rv aud d'"
proof -
  have rows: "joined_rows channel ids d = joined_rows channel ids d'" for ids
    by (simp only: joined_rows_content assms)
  have texts: "texts_of i d = texts_of i d'" for i
    by (simp only: texts_of_content assms)
  show ?thesis
    unfolding build_pure_def selected_apps_def catalog_rows_def rows texts by (rule refl)
qed

lemma build_pure_ids:
  assumes "aud_app_ids aud = aud_app_ids aud'"
  shows "build_pure E s channel platform rv aud d = build_pure E s channel platform rv aud' d"
  unfolding build_pure_def selected_apps_def assms by (rule refl)

lemma build_pure_revision:
  "build_pure E s channel platform rv aud d = Inr sn \<Longrightarrow> ss_revision sn = rv"
  by (auto simp: build_pure_def finish_def split: if_splits sum.splits option.splits prod.splits)

section \<open>The counter moves with the content\<close>

definition rev_step :: "database \<Rightarrow> database \<Rightarrow> bool" where
  "rev_step d d' \<longleftrightarrow>
     (case t_revision d of
        None \<Rightarrow> t_revision d' = None
      | Some r \<Rightarrow> (\<exists>r'. t_revision d' = Some r' \<and> r \<le> r' \<and> (r' = r \<longrightarrow> content d' = content d)))"

definition public_step :: "database \<Rightarrow> database \<Rightarrow> bool" where
  "public_step d d' \<longleftrightarrow> rev_step d d' \<and> public_cache.shrinks d d'"

interpretation rev: two_state rev_step
proof unfold_locales
  show "rev_step d d" for d by (simp add: rev_step_def split: option.split)
  show "rev_step d1 d3" if "rev_step d1 d2" and "rev_step d2 d3" for d1 d2 d3
    using that by (fastforce simp: rev_step_def split: option.splits)
qed

interpretation public: two_state public_step
proof unfold_locales
  show "public_step d d" for d
    by (simp add: public_step_def rev.R_refl public_cache.shrinks_refl)
  show "public_step d1 d3" if "public_step d1 d2" and "public_step d2 d3" for d1 d2 d3
    using that unfolding public_step_def by (metis rev.R_trans public_cache.shrinks_trans)
qed

lemma public_rev: "public_step d d' \<Longrightarrow> rev_step d d'"
  by (simp add: public_step_def)

lemma rev_step_frame:
  "t_revision d' = t_revision d \<Longrightarrow> content d' = content d \<Longrightarrow> rev_step d d'"
  by (simp add: rev_step_def split: option.split)

lemma same_catalogue_step: "same_catalogue d d' \<Longrightarrow> public_step d d'"
  by (simp add: same_catalogue_def public_step_def rev_step_frame content_def
      public_cache.shrinks_def load_public_def)

lemma bumped_step:
  "t_revision d' = map_option (\<lambda>r. r + 1) (t_revision d) \<Longrightarrow> t_snapshots d' = t_snapshots d \<Longrightarrow>
   public_step d d'"
  by (auto simp: public_step_def rev_step_def public_cache.shrinks_def load_public_def
      split: option.split)

section \<open>Transactions that end by moving the counter\<close>

definition same_counter :: "database \<Rightarrow> database \<Rightarrow> bool" where
  "same_counter d d' \<longleftrightarrow> t_revision d' = t_revision d \<and> t_snapshots d' = t_snapshots d
     \<and> t_private d' = t_private d \<and> t_grants d' = t_grants d"

interpretation counter: two_state same_counter
  by unfold_locales (simp_all add: same_counter_def)

lemma same_counter_stmts:
  "moves same_counter (stmt (upsert_app_stmt E a))"
  "moves same_counter (stmt (upsert_text_stmt i lt))"
  "moves same_counter (stmt (decide_stmt E v status nt))"
  "moves same_counter (stmt (provenance_stmt E v aid))"
  "moves same_counter (stmt (insert_event_stmt E v aid actor action nt))"
  by (rule counter.moves_stmt; drule frame; auto simp: same_counter_def)+

definition bumped :: "database \<Rightarrow> database \<Rightarrow> bool" where
  "bumped d d' \<longleftrightarrow> t_revision d' = map_option (\<lambda>r. r + 1) (t_revision d)
     \<and> t_snapshots d' = t_snapshots d \<and> t_private d' = t_private d \<and> t_grants d' = t_grants d"

definition bumps :: "'a act \<Rightarrow> bool" where
  "bumps m \<longleftrightarrow> (\<forall>w x w'. m w = (Inr x, w') \<longrightarrow> bumped (tables w) (tables w'))"

lemma bumpsD: "bumps m \<Longrightarrow> m w = (Inr x, w') \<Longrightarrow> bumped (tables w) (tables w')"
  by (simp add: bumps_def)

lemma bumps_bump: "bumps bump_revision"
  by (auto simp: bumps_def bumped_def bump_revision_def stmt_def bump_stmt_def Let_def
      split: if_splits)

lemma bumps_fail: "bumps (fail e)"
  by (simp add: bumps_def)

lemma bumps_if: "bumps m \<Longrightarrow> bumps m' \<Longrightarrow> bumps (if b then m else m')"
  by simp

lemma bumps_andthen:
  assumes "moves same_counter m" and "\<And>x. bumps (k x)"
  shows "bumps (andthen m k)"
  unfolding bumps_def
proof (intro allI impI)
  fix w y w' assume "andthen m k w = (Inr y, w')"
  then obtain x w1 where "m w = (Inr x, w1)" and k: "k x w1 = (Inr y, w')"
    by (rule andthen_Inr_E)
  from movesD [OF assms(1) this(1)] bumpsD [OF assms(2) k]
  show "bumped (tables w) (tables w')"
    by (simp add: same_counter_def bumped_def)
qed

lemma bumps_commit: "bumps body \<Longrightarrow> moves (\<lambda>d d'. d' = d \<or> bumped d d') (transaction body)"
  unfolding moves_def
proof
  fix w assume b: "bumps body"
  obtain r w' where t: "transaction body w = (r, w')" by fastforce
  show "tables (snd (transaction body w)) = tables w \<or> bumped (tables w) (tables (snd (transaction body w)))"
  proof (cases r)
    case (Inl e)
    with t show ?thesis by (simp add: transaction_error_unchanged)
  next
    case (Inr x)
    with t show ?thesis
      using b by (auto elim!: transaction_okD dest: bumpsD)
  qed
qed

text \<open>The two operations that change what is listed either do nothing or move the counter.\<close>

lemma upsert_app_bumps: "moves (\<lambda>d d'. d' = d \<or> bumped d d') (upsert_app E a texts)"
  unfolding upsert_app_def app_owner_def
  by (rule bumps_commit)
    (intro bumps_andthen bumps_bump bumps_fail bumps_if same_counter_stmts counter.moves_rules)

lemma decide_version_bumps:
  "moves (\<lambda>d d'. d' = d \<or> bumped d d') (decide_version E v action aid actor nt)"
proof (cases "status_of_action action")
  case None
  then show ?thesis by (simp add: decide_version_def moves_def)
next
  case (Some status)
  then show ?thesis
    unfolding decide_version_def Some option.case
    by (intro bumps_commit)
      (intro bumps_andthen bumps_bump bumps_fail bumps_if same_counter_stmts counter.moves_rules)
qed

lemma bumped_public_step: "d' = d \<or> bumped d d' \<Longrightarrow> public_step d d'"
  by (auto simp: public.R_refl bumped_def intro: bumped_step)

lemma upsert_app_step: "moves public_step (upsert_app E a texts)"
  by (rule moves_weaken [OF upsert_app_bumps]) (rule bumped_public_step)

lemma decide_version_step: "moves public_step (decide_version E v action aid actor nt)"
  by (rule moves_weaken [OF decide_version_bumps]) (rule bumped_public_step)

section \<open>A submission changes no document\<close>

lemma insert_version_content:
  assumes "v_status v \<noteq> ''published''" and "insert_version_stmt E v j t n d = Inr (u, d')"
  shows "public_step d d'"
proof -
  from assms(2) obtain r where "d' = d\<lparr>t_versions := t_versions d @ [r]\<rparr>" and "ver_status r = v_status v"
    by (auto simp: insert_version_stmt_def Let_def split: if_splits)
  with assms(1) show ?thesis
    by (auto simp: public_step_def content_def is_published_def public_cache.shrinks_def
        load_public_def intro!: rev_step_frame)
qed

lemma submit_version_step:
  "v_status v \<noteq> ''published'' \<Longrightarrow> moves public_step (submit_version E v x)"
  unfolding submit_version_def version_by_id_def
  by (intro public.moves_rules public.moves_transaction public.moves_stmt;
      (erule insert_version_content, assumption)?;
      (drule frame; auto simp: public_step_def content_def public_cache.shrinks_def load_public_def
        intro!: rev_step_frame)?)

section \<open>What a request for the document does\<close>

definition load_for ::
  "env \<Rightarrow> string \<Rightarrow> string \<Rightarrow> audience \<Rightarrow> database \<Rightarrow> err + snapshot option" where
  "load_for E channel platform aud d =
     (if anonymous aud then Inr (load_public (channel, platform) d)
      else case pg_uuid E (aud_platform_id aud) of
          None \<Rightarrow> Inl ErrDriver
        | Some u \<Rightarrow> Inr (load_private (u, channel, platform) d))"

lemma load_snapshot_query: "load_snapshot E channel platform aud = query (load_for E channel platform aud)"
  by (simp add: load_snapshot_def load_for_def [abs_def])

lemma query_cases:
  assumes "query q w = (r, w')"
  obtains (failed) "w' = tick w" and "r = Inl ErrDriver" and "fails w"
    | (read) "w' = tick w" and "r = q (tables w)" and "\<not> fails w"
  using assms by (cases "fails w") (simp_all add: query_def)

lemma revision_cases:
  assumes "revision w = (r, w')"
  obtains (failed) "w' = tick w" and "r = Inl ErrDriver"
    | (read) rv where "w' = tick w" and "r = Inr rv" and "t_revision (tables w) = Some rv"
  using assms unfolding revision_def by (cases rule: query_cases) (auto split: option.splits)

lemma load_snapshot_cases:
  assumes "load_snapshot E channel platform aud w = (r, w')"
  obtains (failed) "w' = tick w" and "r = Inl ErrDriver"
    | (read) held where "w' = tick w" and "r = Inr held" and "load_for E channel platform aud (tables w) = Inr held"
  using assms unfolding load_snapshot_query by (cases rule: query_cases) (auto simp: load_for_def split: if_splits option.splits)

text \<open>
  The three outcomes: an error, which leaves the tables alone; a document on file at the current
  revision; a document built from the tables as they are, which is then saved, or not.
\<close>

lemma catalog_cases:
  assumes "catalog E s channel platform aud w = (r, w')"
  obtains (err) e where "r = Inl e" and "tables w' = tables w"
    and "e = ErrDriver \<or> (\<exists>rv. t_revision (tables w) = Some rv \<and>
           build_pure E s (or_default channel ''stable'') (or_default platform default_platform)
             rv aud (tables w) = Inl e)"
  | (hit) rv h where "r = Inr h" and "tables w' = tables w" and "t_revision (tables w) = Some rv"
    and "load_for E (or_default channel ''stable'') (or_default platform default_platform) aud
           (tables w) = Inr (Some h)" and "ss_revision h = rv"
  | (built) rv b w1 where "r = Inr b" and "tables w1 = tables w" and "t_revision (tables w) = Some rv"
    and "build_pure E s (or_default channel ''stable'') (or_default platform default_platform)
           rv aud (tables w) = Inr b"
    and "w' = snd (save_snapshot E (or_default channel ''stable'')
           (or_default platform default_platform) aud b w1)"
    and "quiet w \<Longrightarrow> quiet w1"
proof -
  let ?c = "or_default channel ''stable''" and ?p = "or_default platform default_platform"
  from assms show thesis
    unfolding catalog_def Let_def
  proof (cases rule: andthen_E)
    case (stops e)
    from stops(1) stops(2) err show thesis by (cases rule: revision_cases) auto
  next
    case (goes rv w1)
    from goes(1) have w1: "w1 = tick w" and cur: "t_revision (tables w) = Some rv"
      by (cases rule: revision_cases; simp)+
    from goes(2) show thesis
    proof (cases rule: andthen_E)
      case (stops e)
      from stops(1) stops(2) w1 err show thesis by (cases rule: load_snapshot_cases) auto
    next
      case load: (goes held w2)
      from load(1) w1 have w2: "w2 = tick (tick w)" and held: "load_for E ?c ?p aud (tables w) = Inr held"
        by (cases rule: load_snapshot_cases; simp)+
      show thesis
      proof (cases "case held of None \<Rightarrow> False | Some h \<Rightarrow> ss_revision h = rv")
        case True
        then obtain h where "held = Some h" and "ss_revision h = rv" by (cases held) auto
        with load(2) held w2 cur show thesis by (intro hit [of h rv]) auto
      next
        case False
        with load(2) have run: "andthen (build E s ?c ?p rv aud)
            (\<lambda>b. attempt (save_snapshot E ?c ?p aud b) (\<lambda>_. ok b)) w2 = (r, w')" by simp
        obtain rb w3 where b: "build E s ?c ?p rv aud w2 = (rb, w3)" by fastforce
        from build_result [OF this] w2 have t: "tables w3 = tables w"
          and rb: "rb = Inl ErrDriver \<or> rb = build_pure E s ?c ?p rv aud (tables w)" by simp_all
        have q: "quiet w \<Longrightarrow> quiet w3"
          using keepsD [OF keeps_quiet_build, of w2 E s ?c ?p rv aud] b w2 by simp
        show thesis
        proof (cases rb)
          case (Inl e)
          with run b t rb cur show thesis by (intro err [of e]) auto
        next
          case (Inr x)
          with run b have "r = Inr x" and "w' = snd (save_snapshot E ?c ?p aud x w3)"
            by (auto simp: attempt_def split: prod.splits)
          with Inr t rb cur q show thesis by (intro built [of x w3 rv]) auto
        qed
      qed
    qed
  qed
qed

section \<open>The coherence of the public cache\<close>

definition good_public :: "env \<Rightarrow> signer \<Rightarrow> database \<Rightarrow> string \<times> string \<Rightarrow> snapshot \<Rightarrow> bool" where
  "good_public E s d k sn \<longleftrightarrow>
     (\<forall>rv. t_revision d = Some rv \<longrightarrow> ss_revision sn \<le> rv \<and>
       (ss_revision sn = rv \<longrightarrow> build_pure E s (fst k) (snd k) rv no_audience d = Inr sn))"

definition public_ok :: "env \<Rightarrow> signer \<Rightarrow> database \<Rightarrow> bool" where
  "public_ok E s d \<longleftrightarrow> public_cache.coherent (good_public E s d) d"

lemma good_public_step:
  assumes "rev_step d d'" and "good_public E s d k sn"
  shows "good_public E s d' k sn"
proof (cases "t_revision d")
  case None
  with assms(1) show ?thesis by (simp add: rev_step_def good_public_def)
next
  case (Some r)
  with assms(1) obtain r' where r': "t_revision d' = Some r'" "r \<le> r'"
    and c: "r' = r \<Longrightarrow> content d' = content d"
    by (auto simp: rev_step_def)
  from assms(2) Some have "ss_revision sn \<le> r"
    and "ss_revision sn = r \<Longrightarrow> build_pure E s (fst k) (snd k) r no_audience d = Inr sn"
    by (auto simp: good_public_def)
  moreover have "build_pure E s (fst k) (snd k) r no_audience d' =
      build_pure E s (fst k) (snd k) r no_audience d" if "r' = r"
    using c [OF that] by (rule build_pure_content)
  ultimately show ?thesis
    using r' by (auto simp: good_public_def)
qed

lemma public_ok_step: "public_step d d' \<Longrightarrow> public_ok E s d \<Longrightarrow> public_ok E s d'"
  unfolding public_ok_def public_step_def
  by (metis public_cache.coherent_shrinks public_cache.coherent_mono good_public_step)

lemma load_public_frame: "t_snapshots d' = t_snapshots d \<Longrightarrow> load_public k d' = load_public k d"
  by (simp add: load_public_def)

lemma store_public_fields [simp]:
  "t_revision (store_public k s t d) = t_revision d" "content (store_public k s t d) = content d"
  "t_apps (store_public k s t d) = t_apps d" "t_versions (store_public k s t d) = t_versions d"
  "t_grants (store_public k s t d) = t_grants d" "t_private (store_public k s t d) = t_private d"
  "t_platforms (store_public k s t d) = t_platforms d"
  by (simp_all add: store_public_def content_def)

lemma good_public_built:
  assumes "build_pure E s (fst k) (snd k) rv aud d = Inr b" and "t_revision d = Some rv"
    and "anonymous aud" and "aud_app_ids aud = []"
  shows "good_public E s d k b"
proof -
  have "build_pure E s (fst k) (snd k) rv no_audience d = Inr b"
    using assms(1,4) build_pure_ids [of no_audience aud] by (simp add: no_audience_def)
  with build_pure_revision [OF this] assms(2) show ?thesis by (simp add: good_public_def)
qed

lemma save_public_step:
  assumes "save_public_stmt channel platform b t n d = Inr (x, d')"
    and "good_public E s d (channel, platform) b" and "public_ok E s d"
  shows "public_ok E s d'"
proof -
  from assms(1) have d': "d' = store_public (channel, platform) b t d"
    by (simp add: save_public_stmt_def)
  from assms(2,3) have "public_cache.coherent (good_public E s d) d'"
    unfolding d' public_ok_def by (intro public_cache.coherent_store)
  moreover have "good_public E s d' k sn" if "good_public E s d k sn" for k sn
    using that by (rule good_public_step [rotated]) (simp add: rev_step_frame d')
  ultimately show ?thesis
    unfolding public_ok_def by (rule public_cache.coherent_mono)
qed

lemma save_snapshot_public_ok:
  assumes "proper_audience aud" and "public_ok E s (tables w)"
    and "t_revision (tables w) = Some rv"
    and "build_pure E s channel platform rv aud (tables w) = Inr b"
  shows "public_ok E s (tables (snd (save_snapshot E channel platform aud b w)))"
proof (cases "anonymous aud")
  case False
  then show ?thesis
    using assms(2) movesD [OF same_catalogue_side_stmts(1)] same_catalogue_step public_ok_step
    by (simp add: save_snapshot_def) (metis prod.collapse)
next
  case True
  with assms(1) have "aud_app_ids aud = []" by (simp add: proper_audience_def)
  with True assms(3,4) have good: "good_public E s (tables w) (channel, platform) b"
    by (intro good_public_built [where aud = aud]) simp_all
  obtain r1 w1 where save: "stmt (save_public_stmt channel platform b) w = (r1, w1)" by fastforce
  have "public_ok E s (tables w1)"
    using save save_public_step [OF _ good assms(2)] assms(2)
    by (auto simp: stmt_def Let_def split: if_splits sum.splits)
  moreover have "public_step (tables w1) (tables (snd (prune_snapshots channel w1)))"
  proof -
    have "moves public_step (prune_snapshots channel)"
      unfolding prune_snapshots_def
      by (rule public.moves_stmt)
        (auto simp: public_step_def prune_shrinks prune_stmt_def content_def intro!: rev_step_frame
          intro: public_shrinks_filter)
    then show ?thesis by (simp add: moves_def)
  qed
  ultimately have "public_ok E s (tables (snd (prune_snapshots channel w1)))"
    by (rule public_ok_step [rotated])
  with True save show ?thesis
    by (auto simp: save_snapshot_def attempt_def split: prod.splits)
qed

lemma catalog_public_ok:
  assumes "proper_audience aud"
  shows "keeps (\<lambda>w. public_ok E s (tables w)) (catalog E s channel platform aud)"
proof (rule keepsI)
  fix w :: world assume ok: "public_ok E s (tables w)"
  obtain r w' where c: "catalog E s channel platform aud w = (r, w')" by fastforce
  from c show "public_ok E s (tables (snd (catalog E s channel platform aud w)))"
  proof (cases rule: catalog_cases)
    case (built rv b w1)
    with ok c save_snapshot_public_ok [OF assms, of E s w1 rv] show ?thesis by simp
  qed (use ok c in simp_all)
qed

lemma catalog_rev_step: "moves rev_step (catalog E s channel platform aud)"
proof -
  have save: "moves rev_step (stmt (save_public_stmt c p b))" for c p b
    by (rule rev.moves_stmt)
      (auto simp: save_public_stmt_def intro!: rev_step_frame)
  have prune: "moves rev_step (stmt (prune_stmt c))" for c
    by (rule rev.moves_stmt) (auto simp: prune_stmt_def content_def intro!: rev_step_frame)
  have side: "moves rev_step (stmt (save_private_stmt E i c p b))" for i c p b
    by (rule moves_weaken [OF same_catalogue_side_stmts(1)]) (simp add: same_catalogue_step public_rev)
  show ?thesis
    unfolding catalog_def build_def revision_def load_snapshot_def save_snapshot_def app_texts_def
      prune_snapshots_def Let_def
    by (intro rev.moves_rules save prune side)
qed

lemma discard_step: "moves public_step discard_snapshots"
  unfolding discard_snapshots_def
  by (rule public.moves_stmt)
    (auto simp: public_step_def content_def discard_shrinks intro!: rev_step_frame)

section \<open>Every operation\<close>

lemma public_step_ops:
  "moves public_step (touch_platform E p)"
  "moves public_step (create_platform E name origin nt actor)"
  "moves public_step (set_platform_enabled E p on)"
  "moves public_step (grant E a p actor)" "moves public_step (revoke E a p)"
  "moves public_step (discard_private_snapshots E p)"
  "moves public_step (upsert_publisher E b)"
  "moves public_step (set_publisher_verified E i v actor)"
  by (rule moves_weaken [OF _ same_catalogue_step],
      rule same_catalogue_platform_ops same_catalogue_publisher_ops, assumption)+

lemma rev_kept: "moves public_step m \<Longrightarrow> keeps (\<lambda>w. rev_step d (tables w)) m"
  by (rule rev.keeps_moves) (erule moves_weaken, rule public_rev)

lemma public_ok_kept: "moves public_step m \<Longrightarrow> keeps (\<lambda>w. public_ok E s (tables w)) m"
  by (erule moves_keeps) (rule public_ok_step)

lemmas all_public_steps = public_step_ops discard_step upsert_app_step decide_version_step

interpretation rev_ops: operations E "\<lambda>w. rev_step d (tables w)" UNIV for E d
proof unfold_locales
  fix w :: world assume "rev_step d (tables w)"
  then show "rev_step d (tables (tick w))" by simp
next
  show "keeps (\<lambda>w. rev_step d (tables w)) (record_audit a)" for a
    by (intro rev.keeps_moves rev.moves_audit)
next
  show "keeps (\<lambda>w. rev_step d (tables w)) (catalog E s c p aud)" for s c p aud
    by (intro rev.keeps_moves catalog_rev_step)
next
  show "keeps (\<lambda>w. rev_step d (tables w)) (submit_version E v x)" if "v_status v = ''in_review''" for v x
    using that by (intro rev_kept submit_version_step) simp
qed (intro rev_kept all_public_steps)+

interpretation public_ops: operations E "\<lambda>w. public_ok E s (tables w)" "{s}" for E s
proof unfold_locales
  fix w :: world assume "public_ok E s (tables w)"
  then show "public_ok E s (tables (tick w))" by simp
next
  show "keeps (\<lambda>w. public_ok E s (tables w)) (record_audit a)" for a
    by (rule keepsI) (simp add: record_audit_def)
next
  show "keeps (\<lambda>w. public_ok E s (tables w)) (catalog E s' c p aud)"
    if "s' \<in> {s}" and "proper_audience aud" for s' c p aud
    using that by (simp add: catalog_public_ok)
next
  show "keeps (\<lambda>w. public_ok E s (tables w)) (submit_version E v x)" if "v_status v = ''in_review''" for v x
    using that by (intro public_ok_kept submit_version_step) simp
qed (intro public_ok_kept all_public_steps)+

end
