(* ===== verification/Grants.thy ===== *)
theory Grants
  imports Revision
begin

text \<open>
  The private documents. A document on file for a platform at the current revision is the one
  its present grants call for, as long as the discard that follows a change of the grants goes
  through; the store's other operations keep this under every schedule. \<open>grant_step\<close> is what a
  handler that changes grants may do.
\<close>

section \<open>The coherence of the private cache\<close>

definition platform_audience :: "env \<Rightarrow> uuid \<Rightarrow> database \<Rightarrow> audience" where
  "platform_audience E u d = \<lparr>aud_platform_id = pg_uuid_text E u, aud_app_ids = grants_of u d\<rparr>"

definition good_private ::
  "env \<Rightarrow> signer \<Rightarrow> database \<Rightarrow> uuid \<times> string \<times> string \<Rightarrow> snapshot \<Rightarrow> bool" where
  "good_private E s d k sn \<longleftrightarrow>
     (\<forall>rv. t_revision d = Some rv \<longrightarrow> ss_revision sn \<le> rv \<and>
       (ss_revision sn = rv \<longrightarrow>
          build_pure E s (fst (snd k)) (snd (snd k)) rv (platform_audience E (fst k) d) d = Inr sn))"

definition private_ok :: "env \<Rightarrow> signer \<Rightarrow> database \<Rightarrow> bool" where
  "private_ok E s d \<longleftrightarrow> private_cache.coherent (good_private E s d) d"

definition grant_step :: "database \<Rightarrow> database \<Rightarrow> bool" where
  "grant_step d d' \<longleftrightarrow> rev_step d d' \<and> private_cache.shrinks d d' \<and>
     (\<forall>u. grants_of u d' = grants_of u d \<or> (\<forall>k. load_private (u, k) d' = None))"

lemma good_private_step:
  assumes "rev_step d d'" and "grants_of (fst k) d' = grants_of (fst k) d"
    and "good_private E s d k sn"
  shows "good_private E s d' k sn"
proof (cases "t_revision d")
  case None
  with assms(1) show ?thesis by (simp add: rev_step_def good_private_def)
next
  case (Some r)
  with assms(1) obtain r' where r': "t_revision d' = Some r'" "r \<le> r'"
    and c: "r' = r \<Longrightarrow> content d' = content d"
    by (auto simp: rev_step_def)
  have "platform_audience E (fst k) d' = platform_audience E (fst k) d"
    using assms(2) by (simp add: platform_audience_def)
  moreover have "build_pure E s (fst (snd k)) (snd (snd k)) r aud d' =
      build_pure E s (fst (snd k)) (snd (snd k)) r aud d" if "r' = r" for aud
    using c [OF that] by (rule build_pure_content)
  ultimately show ?thesis
    using r' assms(3) Some by (auto simp: good_private_def)
qed

lemma private_ok_step:
  assumes "grant_step d d'" and "private_ok E s d"
  shows "private_ok E s d'"
  unfolding private_ok_def private_cache.coherent_def
proof (intro allI impI)
  fix k sn assume l: "load_private k d' = Some sn"
  have "load_private k d' = None \<or> load_private k d' = load_private k d"
    using assms(1) unfolding grant_step_def private_cache.shrinks_def by blast
  with l have old: "load_private k d = Some sn" by simp
  have "grants_of (fst k) d' = grants_of (fst k) d \<or> load_private (fst k, snd k) d' = None"
    using assms(1) unfolding grant_step_def by metis
  with l have "grants_of (fst k) d' = grants_of (fst k) d" by simp
  with old assms show "good_private E s d' k sn"
    by (auto simp: private_ok_def grant_step_def intro: good_private_step dest: private_cache.coherentD)
qed

section \<open>The operations that leave the grants alone\<close>

definition private_step :: "database \<Rightarrow> database \<Rightarrow> bool" where
  "private_step d d' \<longleftrightarrow> rev_step d d' \<and> private_cache.shrinks d d' \<and> t_grants d' = t_grants d"

interpretation private_two: two_state private_step
proof unfold_locales
  show "private_step d d" for d
    by (simp add: private_step_def rev.R_refl private_cache.shrinks_refl)
  show "private_step d1 d3" if "private_step d1 d2" and "private_step d2 d3" for d1 d2 d3
    using that unfolding private_step_def by (metis rev.R_trans private_cache.shrinks_trans)
qed

lemma private_grant_step: "private_step d d' \<Longrightarrow> grant_step d d'"
  by (simp add: private_step_def grant_step_def grants_of_def)

lemma private_step_frame:
  "rev_step d d' \<Longrightarrow> t_private d' = t_private d \<Longrightarrow> t_grants d' = t_grants d \<Longrightarrow> private_step d d'"
  by (simp add: private_step_def private_cache.shrinks_def load_private_def)

lemma private_ok_frame:
  "private_step d d' \<Longrightarrow> private_ok E s d \<Longrightarrow> private_ok E s d'"
  by (rule private_ok_step) (rule private_grant_step)

definition same_private :: "database \<Rightarrow> database \<Rightarrow> bool" where
  "same_private d d' \<longleftrightarrow> t_private d' = t_private d \<and> t_grants d' = t_grants d"

interpretation private_frame: two_state same_private
  by unfold_locales (simp_all add: same_private_def)

lemma moves_private_step:
  "moves rev_step m \<Longrightarrow> moves same_private m \<Longrightarrow> moves private_step m"
  by (auto simp: moves_def same_private_def intro: private_step_frame)

lemma same_private_stmt:
  assumes "\<And>t n d x d'. q t n d = Inr (x, d') \<Longrightarrow> (\<exists>v. d' = d\<lparr>t_platforms := v\<rparr>) \<or>
      (\<exists>v. d' = d\<lparr>t_publishers := v\<rparr>) \<or> (\<exists>v. d' = d\<lparr>t_externals := v\<rparr>) \<or>
      (\<exists>v. d' = d\<lparr>t_events := v\<rparr>) \<or> (\<exists>v. d' = d\<lparr>t_versions := v\<rparr>) \<or>
      (\<exists>v. d' = d\<lparr>t_snapshots := v\<rparr>)"
  shows "moves same_private (stmt q)"
  by (rule private_frame.moves_stmt, drule assms) (auto simp: same_private_def)

lemma same_private_ops:
  "moves same_private (touch_platform E p)"
  "moves same_private (create_platform E name origin nt actor)"
  "moves same_private (set_platform_enabled E p on)"
  "moves same_private (upsert_publisher E b)"
  "moves same_private (set_publisher_verified E i v actor)"
  "moves same_private discard_snapshots"
  unfolding touch_platform_def create_platform_def new_token_def Let_def set_platform_enabled_def
    upsert_publisher_def publisher_by_id_def set_publisher_verified_def discard_snapshots_def
  by (intro private_frame.moves_rules same_private_stmt; auto dest: frame)+

lemma same_private_submit: "moves same_private (submit_version E v x)"
  unfolding submit_version_def version_by_id_def
  by (intro private_frame.moves_rules private_frame.moves_transaction same_private_stmt;
      auto dest: frame)

lemma rev_steps:
  "moves public_step m \<Longrightarrow> moves rev_step m"
  by (erule moves_weaken) (rule public_rev)

lemma bumped_private_step: "d' = d \<or> bumped d d' \<Longrightarrow> private_step d d'"
  by (erule disjE) (simp add: private_two.R_refl,
      auto simp: bumped_def intro!: private_step_frame public_rev bumped_step)

lemma private_step_ops:
  "moves private_step (touch_platform E p)"
  "moves private_step (create_platform E name origin nt actor)"
  "moves private_step (set_platform_enabled E p on)"
  "moves private_step (upsert_publisher E b)"
  "moves private_step (set_publisher_verified E i v actor)"
  "moves private_step discard_snapshots"
  by (intro moves_private_step same_private_ops rev_steps all_public_steps)+

lemma private_step_catalogue_ops:
  "moves private_step (upsert_app E a texts)"
  "moves private_step (decide_version E v action aid actor nt)"
  by (rule moves_weaken [OF upsert_app_bumps], erule bumped_private_step)
    (rule moves_weaken [OF decide_version_bumps], erule bumped_private_step)

lemma private_step_discard: "moves private_step (discard_private_snapshots E p)"
  unfolding discard_private_snapshots_def
proof (rule private_two.moves_stmt)
  fix t n d x d' assume q: "discard_private_stmt E p t n d = Inr (x :: unit, d')"
  moreover from q obtain v where "d' = d\<lparr>t_private := v\<rparr>" by (auto dest: frame)
  ultimately show "private_step d d'"
    by (auto simp: private_step_def content_def discard_private_shrinks intro!: rev_step_frame)
qed

lemma private_ok_kept: "moves private_step m \<Longrightarrow> keeps (\<lambda>w. private_ok E s (tables w)) m"
  by (erule moves_keeps) (rule private_ok_frame)

interpretation private_ops: store_operations E "\<lambda>w. private_ok E s (tables w)" for E s
proof unfold_locales
  fix w :: world assume "private_ok E s (tables w)"
  then show "private_ok E s (tables (tick w))" by simp
next
  show "keeps (\<lambda>w. private_ok E s (tables w)) (record_audit a)" for a
    by (rule keepsI) (simp add: record_audit_def)
next
  show "keeps (\<lambda>w. private_ok E s (tables w)) (submit_version E v x)"
    if "v_status v = ''in_review''" for v x
    using that
    by (intro private_ok_kept moves_private_step same_private_submit rev_steps submit_version_step) simp
qed (intro private_ok_kept private_step_ops private_step_catalogue_ops private_step_discard)+

section \<open>Changing the grants\<close>

lemma grant_others:
  "grant_stmt E a p actor t n d = Inr (x, d') \<Longrightarrow> pg_uuid E p \<noteq> Some u \<Longrightarrow>
   grants_of u d' = grants_of u d"
  "revoke_stmt E a p t n d = Inr (y, d') \<Longrightarrow> pg_uuid E p \<noteq> Some u \<Longrightarrow>
   grants_of u d' = grants_of u d"
proof -
  assume "grant_stmt E a p actor t n d = Inr (x, d')" and "pg_uuid E p \<noteq> Some u"
  then show "grants_of u d' = grants_of u d"
    by (auto simp: grant_stmt_def grants_of_def split: option.splits sum.splits if_splits)
next
  assume "revoke_stmt E a p t n d = Inr (y, d')" and u: "pg_uuid E p \<noteq> Some u"
  then obtain v where v: "pg_uuid E p = Some v"
    and d': "d' = d\<lparr>t_grants := filter (\<lambda>g. \<not> (gr_app g = a \<and> gr_platform g = v)) (t_grants d)\<rparr>"
    by (auto simp: revoke_stmt_def split: option.splits)
  with u have "filter (\<lambda>g. gr_platform g = u)
      (filter (\<lambda>g. \<not> (gr_app g = a \<and> gr_platform g = v)) (t_grants d)) =
      filter (\<lambda>g. gr_platform g = u) (t_grants d)"
    by (auto simp: filter_filter intro!: filter_cong)
  then show "grants_of u d' = grants_of u d" by (simp add: grants_of_def d')
qed

lemma grants_then_discard:
  assumes "\<And>u. pg_uuid E p \<noteq> Some u \<Longrightarrow> grants_of u d1 = grants_of u d"
    and "d1 = d\<lparr>t_grants := v\<rparr>"
    and "discard_private_stmt E p t n d1 = Inr (x, d2)"
  shows "grant_step d d2"
  unfolding grant_step_def
proof (intro conjI allI)
  obtain w where d2: "d2 = d1\<lparr>t_private := w\<rparr>"
    using assms(3) by (auto dest: frame)
  show "rev_step d d2"
    by (rule rev_step_frame) (simp_all add: d2 assms(2) content_def)
  have "private_cache.shrinks d d1"
    by (simp add: private_cache.shrinks_def load_private_def assms(2))
  then show "private_cache.shrinks d d2"
    using discard_private_shrinks [OF assms(3)] by (rule private_cache.shrinks_trans)
  show "grants_of u d2 = grants_of u d \<or> (\<forall>k. load_private (u, k) d2 = None)" for u
  proof (cases "pg_uuid E p = Some u")
    case True
    then show ?thesis using load_private_discarded [OF assms(3), of u] by simp
  next
    case False
    then show ?thesis using assms(1) [of u] by (simp add: d2 grants_of_def)
  qed
qed

lemma grant_needs_uuid:
  "grant_stmt E a p actor t n d = Inr (x, d') \<Longrightarrow> pg_uuid E p \<noteq> None"
  "revoke_stmt E a p t n d = Inr (x, d') \<Longrightarrow> pg_uuid E p \<noteq> None"
  by (auto simp: grant_stmt_def revoke_stmt_def split: option.splits)

lemma discard_private_total:
  "pg_uuid E p \<noteq> None \<Longrightarrow> \<exists>d2. discard_private_stmt E p t n d1 = Inr ((), d2)"
  by (auto simp: discard_private_stmt_def)

lemma grant_step_refl: "grant_step d d"
  by (intro private_grant_step private_two.R_refl)

text \<open>Both handlers have this shape: change the grants, then discard.\<close>

lemma change_then_discard:
  assumes "quiet w"
    and "\<And>t n d x d'. q t n d = Inr (x, d') \<Longrightarrow> pg_uuid E p \<noteq> None \<and> (\<exists>v. d' = d\<lparr>t_grants := v\<rparr>)
           \<and> (\<forall>u. pg_uuid E p \<noteq> Some u \<longrightarrow> grants_of u d' = grants_of u d)"
  shows "grant_step (tables w) (tables (snd (attempt (stmt q)
     (\<lambda>res. case res of Inl e \<Rightarrow> answer_error n1 m1
      | Inr _ \<Rightarrow> attempt (discard_private_snapshots E p)
          (\<lambda>_. andthen (record_audit au) (\<lambda>_. answer_json n2 y))) w)))"
proof (cases "q (clock (tick w)) (next_uuid w) (tables w)")
  case (Inl e)
  with assms(1) show ?thesis
    by (simp add: attempt_def stmt_quiet answer_error_def grant_step_refl)
next
  case (Inr xd)
  then obtain x d1 where q: "q (clock (tick w)) (next_uuid w) (tables w) = Inr (x, d1)"
    by (cases xd) auto
  define w1 where "w1 = (tick w)\<lparr>tables := d1\<rparr>"
  have "quiet w1" and "tables w1 = d1" using assms(1) by (simp_all add: w1_def)
  moreover from assms(2) [OF q] obtain v where "pg_uuid E p \<noteq> None" and d1: "d1 = (tables w)\<lparr>t_grants := v\<rparr>"
    and others: "\<And>u. pg_uuid E p \<noteq> Some u \<Longrightarrow> grants_of u d1 = grants_of u (tables w)" by blast
  moreover from this obtain d2
    where d2: "discard_private_stmt E p (clock (tick w1)) (next_uuid w1) d1 = Inr ((), d2)"
    using discard_private_total by blast
  moreover have "grant_step (tables w) d2"
    using others d1 d2 by (rule grants_then_discard)
  moreover have "stmt q w = (Inr x, w1)"
    using q assms(1) by (simp add: stmt_quiet w1_def)
  moreover have "discard_private_snapshots E p w1 = (Inr (), (tick w1)\<lparr>tables := d2\<rparr>)"
    using \<open>quiet w1\<close> d2 \<open>tables w1 = d1\<close>
    by (simp add: discard_private_snapshots_def stmt_quiet)
  ultimately show ?thesis
    by (simp add: attempt_eq [of "stmt q"] attempt_eq [of "discard_private_snapshots E p"]
        andthen_def record_audit_def answer_json_def)
qed

lemma handle_grant_step:
  assumes "quiet w"
  shows "grant_step (tables w) (tables (snd (handle_grant E r w)))"
proof -
  let ?a = "rq_param r ''appID''"
  obtain res where a: "app_by_id E ?a w = (res, tick w)"
    using assms by (simp add: app_by_id_def query_quiet)
  have "quiet (tick w)" using assms by simp
  note step = change_then_discard [OF this]
  show ?thesis
  proof (cases res)
    case (Inl e)
    with a show ?thesis
      by (simp add: handle_grant_def Let_def attempt_def answer_error_def grant_step_refl)
  next
    case (Inr x)
    have h: "handle_grant E r w = (if a_visibility x \<noteq> ''private''
      then answer_error 400 ''only a private app is granted to a platform; this one is public and every platform already has it'' (tick w)
      else attempt (stmt (grant_stmt E ?a (rq_param r ''id'') (actor_of r)))
          (\<lambda>res. case res of
              Inl e \<Rightarrow> answer_error 500 ''could not grant the app''
            | Inr _ \<Rightarrow> attempt (discard_private_snapshots E (rq_param r ''id''))
                (\<lambda>_. andthen
                  (record_audit (platform_audit r ''appstore.app_granted''
                    [(''platform_id'', AuditText (rq_param r ''id'')), (''app_id'', AuditText ?a)]))
                  (\<lambda>_. answer_json 200 (PGranted (rq_param r ''id'') ?a True)))) (tick w))"
      using a unfolding Inr handle_grant_def Let_def grant_def by simp
    have "grant_step (tables (tick w)) (tables (snd (handle_grant E r w)))"
    proof (cases "a_visibility x = ''private''")
      case False
      then show ?thesis by (simp add: h answer_error_def grant_step_refl)
    next
      case True
      then have priv: "\<not> a_visibility x \<noteq> ''private''" by simp
      show ?thesis
        unfolding h if_not_P [OF priv]
        by (rule step) (auto simp: grant_needs_uuid grant_others dest: grant_frames)
    qed
    then show ?thesis by simp
  qed
qed

lemma handle_revoke_step:
  assumes "quiet w"
  shows "grant_step (tables w) (tables (snd (handle_revoke E r w)))"
  unfolding handle_revoke_def Let_def revoke_def
  using assms
  by (rule change_then_discard) (auto simp: grant_needs_uuid grant_others dest: grant_frames)

section \<open>Serving\<close>

text \<open>The audiences a request can have: none, or a platform with the grants it has now.\<close>

definition current_audience :: "env \<Rightarrow> audience \<Rightarrow> database \<Rightarrow> bool" where
  "current_audience E aud d \<longleftrightarrow> aud = no_audience \<or> (\<exists>u. aud = platform_audience E u d)"

lemma audience_view_current: "current_audience E (audience_view E token d) d"
  by (auto simp: current_audience_def audience_view_def platform_audience_def split: option.split)

lemma platform_not_anonymous: "uuid_codec E \<Longrightarrow> \<not> anonymous (platform_audience E u d)"
  by (simp add: anonymous_def platform_audience_def uuid_codecD(2))

lemma anonymous_no_audience: "anonymous no_audience"
  by (simp add: anonymous_def no_audience_def)

lemma current_anonymous:
  "uuid_codec E \<Longrightarrow> current_audience E aud d \<Longrightarrow> anonymous aud \<longleftrightarrow> aud = no_audience"
  by (auto simp: current_audience_def platform_not_anonymous anonymous_no_audience)

lemma current_audience_frame:
  "t_grants d' = t_grants d \<Longrightarrow> current_audience E aud d' = current_audience E aud d"
  by (simp add: current_audience_def platform_audience_def grants_of_def)

lemma catalog_transparent:
  assumes "uuid_codec E" and "current_audience E aud (tables w)"
    and "public_ok E s (tables w)" and "\<not> anonymous aud \<Longrightarrow> private_ok E s (tables w)"
    and "catalog E s channel platform aud w = (r, w')"
  shows "r = Inl ErrDriver \<or> (\<exists>rv. t_revision (tables w) = Some rv \<and>
    r = build_pure E s (or_default channel ''stable'') (or_default platform default_platform) rv aud
          (tables w))"
  using assms(5)
proof (cases rule: catalog_cases)
  case (hit rv h)
  let ?c = "or_default channel ''stable''" and ?p = "or_default platform default_platform"
  show ?thesis
  proof (cases "anonymous aud")
    case True
    with hit have "load_public (?c, ?p) (tables w) = Some h" by (simp add: load_for_def)
    with assms(3) have "good_public E s (tables w) (?c, ?p) h"
      unfolding public_ok_def by (rule public_cache.coherentD)
    with hit True assms(1,2) show ?thesis
      by (auto simp: good_public_def current_anonymous)
  next
    case False
    with assms(1,2) obtain u where u: "aud = platform_audience E u (tables w)"
      by (auto simp: current_audience_def anonymous_no_audience)
    with hit False assms(1) have "load_private (u, ?c, ?p) (tables w) = Some h"
      by (simp add: load_for_def platform_audience_def uuid_codecD(1))
    moreover from False assms(4) have "private_ok E s (tables w)" by simp
    ultimately have "good_private E s (tables w) (u, ?c, ?p) h"
      unfolding private_ok_def using private_cache.coherentD by blast
    with hit u show ?thesis by (auto simp: good_private_def)
  qed
qed auto

lemma save_snapshot_private_ok:
  assumes "uuid_codec E" and "current_audience E aud (tables w)" and "private_ok E s (tables w)"
    and "t_revision (tables w) = Some rv"
    and "build_pure E s channel platform rv aud (tables w) = Inr b"
  shows "private_ok E s (tables (snd (save_snapshot E channel platform aud b w)))"
proof (cases "anonymous aud")
  case True
  have "moves private_step (stmt (save_public_stmt c p b))" for c p
    by (rule private_two.moves_stmt)
      (auto simp: save_public_stmt_def store_public_def content_def
        intro!: private_step_frame rev_step_frame)
  moreover have "moves private_step (prune_snapshots c)" for c
    unfolding prune_snapshots_def
    by (rule private_two.moves_stmt)
      (auto simp: prune_stmt_def content_def intro!: private_step_frame rev_step_frame)
  ultimately have "moves private_step (save_snapshot E channel platform aud b)"
    using True unfolding save_snapshot_def by (simp add: private_two.moves_rules)
  with assms(3) show ?thesis
    by (auto simp: moves_def intro: private_ok_frame)
next
  case False
  with assms(2) obtain u where u: "aud = platform_audience E u (tables w)"
    by (auto simp: current_audience_def anonymous_no_audience)
  have good: "good_private E s (tables w) (u, channel, platform) b"
    using assms(4,5) build_pure_revision [OF assms(5)] by (simp add: good_private_def u)
  have "private_ok E s d'"
    if q: "save_private_stmt E (aud_platform_id aud) channel platform b t n (tables w) = Inr ((), d')"
    for t n d'
  proof -
    have d': "d' = store_private (u, channel, platform) b t (tables w)"
      using q assms(1) by (auto simp: save_private_stmt_def u platform_audience_def uuid_codecD(1)
          split: if_splits)
    have "private_cache.coherent (good_private E s (tables w)) d'"
      using assms(3) good unfolding d' private_ok_def by (rule private_cache.coherent_store)
    moreover have "good_private E s d' k sn" if "good_private E s (tables w) k sn" for k sn
      by (rule good_private_step [OF _ _ that])
        (simp_all add: d' store_private_def content_def grants_of_def rev_step_frame)
    ultimately show ?thesis
      unfolding private_ok_def by (rule private_cache.coherent_mono)
  qed
  with False assms(3) show ?thesis
    by (auto simp: save_snapshot_def stmt_def Let_def split: sum.split)
qed

lemma catalog_private_ok:
  assumes "uuid_codec E" and "current_audience E aud (tables w)" and "private_ok E s (tables w)"
  shows "private_ok E s (tables (snd (catalog E s channel platform aud w)))"
proof -
  obtain r w' where c: "catalog E s channel platform aud w = (r, w')" by fastforce
  from c show ?thesis
  proof (cases rule: catalog_cases)
    case (built rv b w1)
    with assms c save_snapshot_private_ok [OF assms(1), of aud w1 s rv] show ?thesis by simp
  qed (use assms c in simp_all)
qed

end
