(* ===== verification/Serving.thy ===== *)
theory Serving
  imports Grants
begin

text \<open>
  The catalogue endpoint as a whole: what it answers, for every schedule of driver calls, in
  terms of the tables as they are when the request arrives.
\<close>

text \<open>
  The outcomes of a request: it is refused before anything is read; the audience or the document
  cannot be had; or a document for the audience of the request's credential is served.
\<close>

lemma touch_frame: "moves same_catalogue (touch_platform E p)" "moves same_private (touch_platform E p)"
  by (rule same_catalogue_platform_ops same_private_ops)+

lemma touch_ok: "\<exists>w'. touch_platform E p w = (Inr (), w')"
  by (auto simp: touch_platform_def attempt_def split: prod.split)

lemma handle_catalog_cases:
  assumes "uuid_codec E" and "m_catalog m = Some s" and "handle_catalog E m r w = (Inr resp, w')"
  obtains (invalid) msg where "resp = respond 400 (ErrorText msg)" and "w' = w"
      and "valid_catalog_query E (rq_query r ''channel'') (rq_query r ''platform'') = Some msg"
  | (failed) "resp = respond 500 (ErrorText ''could not build the catalog'')" and "tables w' = tables w"
      and "fst (audience_for E (bearer_token (rq_header r ''Authorization'')) w) = Inl ErrDriver"
  | (asked) w1 res where "same_catalogue (tables w) (tables w1)" and "same_private (tables w) (tables w1)"
      and "quiet w \<Longrightarrow> quiet w1"
      and "catalog E s (rq_query r ''channel'') (rq_query r ''platform'')
             (audience_view E (bearer_token (rq_header r ''Authorization'')) (tables w)) w1 = (res, w')"
      and "resp = (case res of
             Inl e \<Rightarrow> respond 500 (ErrorText ''could not build the catalog'')
           | Inr snap \<Rightarrow> catalog_response r snap
               (audience_view E (bearer_token (rq_header r ''Authorization'')) (tables w)))"
      and "valid_catalog_query E (rq_query r ''channel'') (rq_query r ''platform'') = None"
proof (cases "valid_catalog_query E (rq_query r ''channel'') (rq_query r ''platform'')")
  case (Some msg)
  with assms show ?thesis
    by (intro invalid) (auto simp: handle_catalog_def require_catalogue_def answer_error_def)
next
  case None
  let ?t = "bearer_token (rq_header r ''Authorization'')"
  obtain ra wa where a: "audience_for E ?t w = (ra, wa)" by fastforce
  from audience_for_result [OF assms(1) this] have wa: "tables wa = tables w"
    and ra: "ra = Inl ErrDriver \<or> ra = Inr (audience_view E ?t (tables w))" by simp_all
  show ?thesis
  proof (cases ra)
    case (Inl e)
    with assms(2,3) a ra wa None show ?thesis
      by (intro failed) (auto simp: handle_catalog_def require_catalogue_def answer_error_def)
  next
    case (Inr aud)
    with ra have aud: "aud = audience_view E ?t (tables w)" by simp
    let ?touch = "if \<not> anonymous aud then touch_platform E (aud_platform_id aud) else ok ()"
    obtain w1 where t: "?touch wa = (Inr (), w1)"
      using touch_ok [of E "aud_platform_id aud" wa] by (cases "anonymous aud") auto
    have "moves same_catalogue ?touch" and "moves same_private ?touch"
      by (auto simp: touch_frame catalogue_frame.moves_ok private_frame.moves_ok)
    from movesD [OF this(1) t] movesD [OF this(2) t]
    have frames: "same_catalogue (tables w) (tables w1)" "same_private (tables w) (tables w1)"
      by (simp_all add: wa)
    have "keeps quiet ?touch" and "keeps quiet (audience_for E ?t)"
      using quiet_run.op_touch quiet_run.keeps_audience by (auto simp: keeps_ok)
    then have q: "quiet w1" if "quiet w"
      using keepsD [of quiet "audience_for E ?t" w] keepsD [of quiet ?touch wa] that a t by simp
    obtain res w2 where c: "catalog E s (rq_query r ''channel'') (rq_query r ''platform'') aud w1 = (res, w2)"
      by fastforce
    have "(Inr resp, w') = (Inr (case res of
             Inl e \<Rightarrow> respond 500 (ErrorText ''could not build the catalog'')
           | Inr snap \<Rightarrow> catalog_response r snap aud), w2)"
      using assms(2,3) None a Inr t c
      by (cases "anonymous aud")
        (auto simp: handle_catalog_def require_catalogue_def answer_error_def split: sum.split)
    with frames q c aud None show ?thesis
      by (intro asked [of w1 res]) auto
  qed
qed

lemma same_content: "same_catalogue d d' \<Longrightarrow> content d' = content d \<and> t_revision d' = t_revision d"
  by (simp add: same_catalogue_def content_def)

lemma same_frames_ok:
  assumes "same_catalogue d d'" and "same_private d d'"
  shows "public_ok E s d \<Longrightarrow> public_ok E s d'" "private_ok E s d \<Longrightarrow> private_ok E s d'"
    "current_audience E aud d \<Longrightarrow> current_audience E aud d'"
proof -
  show "public_ok E s d \<Longrightarrow> public_ok E s d'"
    using same_catalogue_step [OF assms(1)] by (rule public_ok_step)
  have "private_step d d'"
    using assms same_catalogue_step [OF assms(1)]
    by (auto simp: same_private_def intro!: private_step_frame public_rev)
  then show "private_ok E s d \<Longrightarrow> private_ok E s d'" by (rule private_ok_frame)
  show "current_audience E aud d \<Longrightarrow> current_audience E aud d'"
    using assms(2) current_audience_frame [of d' d] by (simp add: same_private_def)
qed

lemma handle_catalog_private_ok:
  assumes "uuid_codec E" and "m_catalog m = Some s" and "private_ok E s (tables w)"
  shows "private_ok E s (tables (snd (handle_catalog E m r w)))"
proof -
  obtain resp w' where h: "handle_catalog E m r w = (Inr resp, w')"
  proof -
    have "answers (handle_catalog E m r)"
      unfolding handle_catalog_def require_catalogue_def touch_platform_def Let_def
      by (intro answers_intros)
    then show ?thesis using that by (auto simp: answers_def)
  qed
  from assms(1,2) h show ?thesis
  proof (cases rule: handle_catalog_cases)
    case (asked w1 res)
    have "private_ok E s (tables w1)"
      using asked(1,2) assms(3) by (rule same_frames_ok(2))
    moreover have "current_audience E (audience_view E (bearer_token (rq_header r ''Authorization''))
        (tables w)) (tables w1)"
      by (rule same_frames_ok(3) [OF asked(1,2)]) (rule audience_view_current)
    ultimately show ?thesis
      using catalog_private_ok [OF assms(1)] asked(4) h by (metis snd_conv)
  qed (use assms h in simp_all)
qed

text \<open>What is served is the document the present tables call for.\<close>

lemma handle_catalog_served:
  assumes "uuid_codec E" and "m_catalog m = Some s" and "handle_catalog E m r w = (Inr resp, w')"
    and "public_ok E s (tables w)"
    and "audience_view E (bearer_token (rq_header r ''Authorization'')) (tables w) = aud"
    and "aud \<noteq> no_audience \<Longrightarrow> private_ok E s (tables w)"
    and "rs_status resp = 200 \<or> rs_status resp = 304"
  obtains rv snap where "t_revision (tables w) = Some rv"
    and "build_pure E s (or_default (rq_query r ''channel'') ''stable'')
           (or_default (rq_query r ''platform'') default_platform) rv aud (tables w) = Inr snap"
    and "resp = catalog_response r snap aud"
  using assms(1-3)
proof (cases rule: handle_catalog_cases)
  case (invalid msg)
  with assms(7) show ?thesis by (simp add: respond_def)
next
  case failed
  with assms(7) show ?thesis by (simp add: respond_def)
next
  case (asked w1 res)
  have cur: "current_audience E aud (tables w1)"
    using same_frames_ok(3) [OF asked(1,2)] audience_view_current assms(5) by metis
  have pub: "public_ok E s (tables w1)"
    using same_frames_ok(1) [OF asked(1,2)] assms(4) by metis
  have priv: "private_ok E s (tables w1)" if "\<not> anonymous aud"
    using that assms(6) same_frames_ok(2) [OF asked(1,2)] anonymous_no_audience by metis
  obtain snap where snap: "res = Inr snap" and resp: "resp = catalog_response r snap aud"
    using asked(5) assms(5,7) by (cases res) (auto simp: respond_def)
  have c: "catalog E s (rq_query r ''channel'') (rq_query r ''platform'') aud w1 = (Inr snap, w')"
    using asked(4) assms(5) snap by simp
  from catalog_transparent [OF assms(1) cur pub priv c]
  obtain rv where rv: "t_revision (tables w1) = Some rv"
    and b: "build_pure E s (or_default (rq_query r ''channel'') ''stable'')
        (or_default (rq_query r ''platform'') default_platform) rv aud (tables w1) = Inr snap"
    by auto
  have "build_pure E s ch pl rv aud (tables w1) = build_pure E s ch pl rv aud (tables w)" for ch pl
    by (rule build_pure_content) (use same_content [OF asked(1)] in simp)
  with that rv b resp same_content [OF asked(1)] show ?thesis by metis
qed

end
