(* ===== verification/Wellformed.thy ===== *)
theory Wellformed
  imports Frames Cache
begin

text \<open>
  The invariant of the database: what the tables' keys promise and what the statements keep of it
  by themselves. Each statement keeps it, so by \<open>statement_closed\<close> every operation and every
  handler does, whichever driver calls fail.
\<close>

section \<open>The invariant\<close>

definition wf_publishers :: "uuid \<Rightarrow> publisher_row list \<Rightarrow> bool" where
  "wf_publishers n t \<longleftrightarrow> distinct (map pub_id t) \<and> distinct (map pub_tenant t)
     \<and> distinct (map pub_slug t) \<and> (\<forall>r\<in>set t. pub_id r < n)"

definition wf_apps :: "app_row list \<Rightarrow> bool" where
  "wf_apps t \<longleftrightarrow> distinct (map app_id t) \<and> distinct (map app_slug t)"

definition wf_versions :: "uuid \<Rightarrow> version_row list \<Rightarrow> bool" where
  "wf_versions n t \<longleftrightarrow> distinct (map ver_id t)
     \<and> (\<forall>r\<in>set t. ver_id r < n \<and> (is_published r \<longrightarrow> ver_published_at r \<noteq> None))"

definition wf_platforms :: "uuid \<Rightarrow> platform_row list \<Rightarrow> bool" where
  "wf_platforms n t \<longleftrightarrow> distinct (map pl_id t) \<and> distinct (map pl_digest t)
     \<and> (\<forall>r\<in>set t. pl_id r < n)"

definition wf_grants :: "string set \<Rightarrow> uuid set \<Rightarrow> grant_row list \<Rightarrow> bool" where
  "wf_grants A U t \<longleftrightarrow> distinct (map (\<lambda>g. (gr_app g, gr_platform g)) t)
     \<and> (\<forall>g\<in>set t. gr_app g \<in> A \<and> gr_platform g \<in> U)"

definition private_key :: "uuid \<times> snapshot_row \<Rightarrow> uuid \<times> string \<times> string" where
  "private_key p = (fst p, snapshot_key (snd p))"

definition wf_private :: "uuid set \<Rightarrow> (uuid \<times> snapshot_row) list \<Rightarrow> bool" where
  "wf_private U t \<longleftrightarrow> distinct (map private_key t) \<and> (\<forall>p\<in>set t. fst p \<in> U)"

definition app_ids :: "database \<Rightarrow> string set" where
  "app_ids d = app_id ` set (t_apps d)"

definition platform_ids :: "database \<Rightarrow> uuid set" where
  "platform_ids d = pl_id ` set (t_platforms d)"

definition wf_db :: "uuid \<Rightarrow> database \<Rightarrow> bool" where
  "wf_db n d \<longleftrightarrow> wf_publishers n (t_publishers d) \<and> wf_apps (t_apps d) \<and> wf_versions n (t_versions d)
     \<and> wf_platforms n (t_platforms d) \<and> wf_grants (app_ids d) (platform_ids d) (t_grants d)
     \<and> distinct (map snapshot_key (t_snapshots d)) \<and> wf_private (platform_ids d) (t_private d)"

lemmas wf_tables = wf_publishers_def wf_apps_def wf_versions_def wf_platforms_def wf_grants_def
  wf_private_def

lemma wf_dbD:
  assumes "wf_db n d"
  shows "wf_publishers n (t_publishers d)" "wf_apps (t_apps d)" "wf_versions n (t_versions d)"
    "wf_platforms n (t_platforms d)" "wf_grants (app_ids d) (platform_ids d) (t_grants d)"
    "distinct (map snapshot_key (t_snapshots d))" "wf_private (platform_ids d) (t_private d)"
  using assms by (simp_all add: wf_db_def)

lemma wf_filter:
  "wf_grants A U t \<Longrightarrow> wf_grants A U (filter Q t)" "wf_private U s \<Longrightarrow> wf_private U (filter R s)"
  by (auto simp: wf_grants_def wf_private_def distinct_map_filter)

lemma wf_private_Nil: "wf_private U []"
  by (simp add: wf_private_def)

lemma wf_empty: "wf_db n empty_db"
  by (simp add: wf_db_def empty_db_def wf_tables)

interpretation wf: db_invariant wf_db
proof unfold_locales
  show "wf_db m d" if "wf_db n d" and "n \<le> m" for n m d
    using that by (fastforce simp: wf_db_def wf_tables)
qed

lemma wf_Suc: "wf_db n d \<Longrightarrow> wf_db (Suc n) d"
  by (erule wf.up) simp

section \<open>Tables that no key of another table names\<close>

lemma wf_frame_publishers:
  "wf_db n d \<Longrightarrow> wf_publishers (Suc n) t \<Longrightarrow> wf_db (Suc n) (d\<lparr>t_publishers := t\<rparr>)"
  by (drule wf_Suc) (simp add: wf_db_def app_ids_def platform_ids_def)

lemma wf_frame_versions:
  "wf_db n d \<Longrightarrow> wf_versions (Suc n) t \<Longrightarrow> wf_db (Suc n) (d\<lparr>t_versions := t\<rparr>)"
  by (drule wf_Suc) (simp add: wf_db_def app_ids_def platform_ids_def)

lemma wf_frame_snapshots:
  "wf_db n d \<Longrightarrow> distinct (map snapshot_key t) \<Longrightarrow> wf_db (Suc n) (d\<lparr>t_snapshots := t\<rparr>)"
  by (drule wf_Suc) (simp add: wf_db_def app_ids_def platform_ids_def)

lemma wf_frame_private:
  "wf_db n d \<Longrightarrow> wf_private (platform_ids d) t \<Longrightarrow> wf_db (Suc n) (d\<lparr>t_private := t\<rparr>)"
  by (drule wf_Suc) (simp add: wf_db_def app_ids_def platform_ids_def)

lemma wf_frame_grants:
  "wf_db n d \<Longrightarrow> wf_grants (app_ids d) (platform_ids d) t \<Longrightarrow> wf_db (Suc n) (d\<lparr>t_grants := t\<rparr>)"
  by (drule wf_Suc) (simp add: wf_db_def app_ids_def platform_ids_def)

lemma wf_frame_other:
  assumes "wf_db n d"
  shows "wf_db (Suc n) (d\<lparr>t_texts := a\<rparr>)" "wf_db (Suc n) (d\<lparr>t_externals := b\<rparr>)"
    "wf_db (Suc n) (d\<lparr>t_events := c\<rparr>)" "wf_db (Suc n) (d\<lparr>t_revision := e\<rparr>)"
  using wf_Suc [OF assms] by (simp_all add: wf_db_def app_ids_def platform_ids_def)

lemma wf_frame_apps:
  assumes "wf_db n d" and "wf_apps t" and "app_id ` set (t_apps d) \<subseteq> app_id ` set t"
  shows "wf_db (Suc n) (d\<lparr>t_apps := t\<rparr>)"
  using wf_Suc [OF assms(1)] assms(2,3)
  by (auto simp: wf_db_def wf_grants_def app_ids_def platform_ids_def)

lemma wf_frame_platforms:
  assumes "wf_db n d" and "wf_platforms (Suc n) t" and "pl_id ` set (t_platforms d) \<subseteq> pl_id ` set t"
  shows "wf_db (Suc n) (d\<lparr>t_platforms := t\<rparr>)"
  using wf_Suc [OF assms(1)] assms(2,3)
  by (auto simp: wf_db_def wf_grants_def wf_private_def app_ids_def platform_ids_def)

section \<open>The statements\<close>

lemma keys_kept:
  "(\<And>r. key (upd r) = key r) \<Longrightarrow> map key (update_where hit upd t) = map key t"
  by (rule map_key_update_where) simp

lemma ids_kept:
  "(\<And>r. key (upd r) = key r) \<Longrightarrow> key ` set (update_where hit upd t) = key ` set t"
  by (metis keys_kept list.set_map)

text \<open>
  \<^verbatim>\<open>ON CONFLICT (key) DO UPDATE\<close> of a second unique column: the new value is not another row's.
\<close>

lemma distinct_second_key:
  assumes "distinct (map key t)" and "distinct (map col t)"
    and "\<And>r. hit r \<longleftrightarrow> key r = k" and "\<And>r. hit r \<Longrightarrow> col (upd r) = c" and "col new = c"
    and "\<And>r. r \<in> set t \<Longrightarrow> col r = c \<Longrightarrow> hit r"
  shows "distinct (map col (upsert hit new upd t))"
proof (cases "list_ex hit t")
  case True
  have "inj_on (\<lambda>r. col (if hit r then upd r else r)) (set t)"
  proof (rule inj_onI)
    fix r1 r2
    assume r: "r1 \<in> set t" "r2 \<in> set t"
      and eq: "col (if hit r1 then upd r1 else r1) = col (if hit r2 then upd r2 else r2)"
    then have "hit r1 = hit r2" using assms(4,6) by (auto split: if_splits)
    with r eq assms(1-4) show "r1 = r2"
      by (auto simp: distinct_map inj_on_def split: if_splits)
  qed
  moreover have "distinct t" using assms(1) by (simp add: distinct_map)
  ultimately show ?thesis
    using True by (simp add: upsert_def o_def distinct_map)
next
  case False
  then have "c \<notin> col ` set t" using assms(6) by (auto simp: list_ex_iff)
  with False assms(2,5) show ?thesis by (simp add: upsert_def)
qed

lemma upsert_ids:
  assumes "\<And>r. key (upd r) = key r"
  shows "key ` set t \<subseteq> key ` set (upsert hit new upd t)"
proof (cases "list_ex hit t")
  case True
  then have "set (upsert hit new upd t) = set (update_where hit upd t)"
    by (simp add: upsert_def update_where_def)
  then show ?thesis using ids_kept [of key upd hit t] assms by simp
qed (auto simp: upsert_def)


lemma wf_platforms_update:
  assumes "wf_db n d" and "\<And>r. pl_id (upd r) = pl_id r" and "\<And>r. pl_digest (upd r) = pl_digest r"
  shows "wf_db (Suc n) (d\<lparr>t_platforms := update_where hit upd (t_platforms d)\<rparr>)"
proof (rule wf_frame_platforms [OF assms(1)])
  show "wf_platforms (Suc n) (update_where hit upd (t_platforms d))"
    using wf_Suc [OF assms(1)] assms(2,3)
    by (auto simp: wf_db_def wf_platforms_def keys_kept set_update_where)
qed (use assms(2) in \<open>simp add: ids_kept\<close>)

lemma wf_touch: "wf_db n d \<Longrightarrow> touch_stmt E p t n d = Inr (x, d') \<Longrightarrow> wf_db (Suc n) d'"
  by (auto simp: touch_stmt_def intro: wf_platforms_update split: option.splits)

lemma wf_enable: "wf_db n d \<Longrightarrow> set_enabled_stmt E p on t n d = Inr (x, d') \<Longrightarrow> wf_db (Suc n) d'"
  by (auto simp: set_enabled_stmt_def intro: wf_platforms_update split: option.splits)

lemma wf_create:
  assumes "wf_db n d" and "insert_platform_stmt E name origin nt g actor t n d = Inr (x, d')"
  shows "wf_db (Suc n) d'"
proof -
  from assms(2) obtain who where fresh: "g \<notin> pl_digest ` set (t_platforms d)"
    and d': "d' = d\<lparr>t_platforms := t_platforms d @ [\<lparr>pl_id = n, pl_name = name, pl_origin = origin,
      pl_digest = g, pl_disabled_at = None, pl_last_seen_at = None, pl_note = nt,
      pl_created_at = t, pl_created_by = who\<rparr>]\<rparr>"
    by (auto simp: insert_platform_stmt_def Let_def list_ex_iff split: sum.splits if_splits)
  show ?thesis
    unfolding d'
    by (rule wf_frame_platforms [OF assms(1)])
      (use assms(1) fresh in \<open>fastforce simp: wf_db_def wf_platforms_def\<close>)+
qed

lemma wf_grant:
  assumes "wf_db n d" and "grant_stmt E a p actor t n d = Inr (x, d')"
  shows "wf_db (Suc n) d'"
proof -
  from assms(2) obtain u who where alt: "d' = d \<or>
    (\<not> list_ex (\<lambda>g. gr_app g = a \<and> gr_platform g = u) (t_grants d) \<and> a \<in> app_ids d \<and> u \<in> platform_ids d
     \<and> d' = d\<lparr>t_grants := t_grants d @
         [\<lparr>gr_app = a, gr_platform = u, gr_granted_at = t, gr_granted_by = who\<rparr>]\<rparr>)"
    by (auto simp: grant_stmt_def app_ids_def platform_ids_def list_ex_iff
        split: option.splits sum.splits if_splits)
  then show ?thesis
  proof
    assume "d' = d" then show ?thesis using assms(1) by (simp add: wf_Suc)
  next
    assume g: "\<not> list_ex (\<lambda>g. gr_app g = a \<and> gr_platform g = u) (t_grants d) \<and> a \<in> app_ids d
      \<and> u \<in> platform_ids d \<and> d' = d\<lparr>t_grants := t_grants d @
         [\<lparr>gr_app = a, gr_platform = u, gr_granted_at = t, gr_granted_by = who\<rparr>]\<rparr>"
    show ?thesis
      unfolding conjunct2 [OF conjunct2 [OF conjunct2 [OF g]]]
      by (rule wf_frame_grants [OF assms(1)])
        (use assms(1) g in \<open>auto simp: wf_db_def wf_grants_def list_ex_iff\<close>)
  qed
qed

lemma wf_revoke: "wf_db n d \<Longrightarrow> revoke_stmt E a p t n d = Inr (x, d') \<Longrightarrow> wf_db (Suc n) d'"
  by (simp add: revoke_stmt_def wf_frame_grants wf_dbD(5) wf_filter split: option.splits)
    (metis wf_frame_grants wf_dbD(5) wf_filter(1))

lemma wf_discard_private:
  assumes "wf_db n d" and "discard_private_stmt E p t n d = Inr (x, d')"
  shows "wf_db (Suc n) d'"
  using assms(2) wf_frame_private [OF assms(1) wf_private_Nil]
    wf_frame_private [OF assms(1) wf_filter(2) [OF wf_dbD(7) [OF assms(1)]]]
  by (auto simp: discard_private_stmt_def split: option.splits if_splits)

lemma wf_save_private:
  assumes "wf_db n d" and "save_private_stmt E p channel platform s t n d = Inr (x, d')"
  shows "wf_db (Suc n) d'"
proof -
  from assms(2) obtain u where u: "u \<in> platform_ids d"
    and d': "d' = store_private (u, channel, platform) s t d"
    by (auto simp: save_private_stmt_def platform_ids_def list_ex_iff split: option.splits if_splits)
  let ?row = "(u, row_of_snapshot channel platform s t)"
  let ?hit = "\<lambda>p. fst p = u \<and> at_key channel platform (snd p)"
  have "distinct (map private_key (upsert ?hit ?row (\<lambda>p. ?row) (t_private d)))"
    by (rule distinct_key_upsert)
      (use assms(1) in \<open>auto simp: wf_db_def wf_private_def private_key_def at_key_snapshot_key
        snapshot_key_def row_of_snapshot_def\<close>)
  moreover have "\<forall>q\<in>set (upsert ?hit ?row (\<lambda>p. ?row) (t_private d)). fst q \<in> platform_ids d"
    using set_upsert_subset [of ?hit ?row "\<lambda>p. ?row" "t_private d"] assms(1) u
    by (auto simp: wf_db_def wf_private_def)
  ultimately show ?thesis
    unfolding d' store_private_def
    by (intro wf_frame_private [OF assms(1)]) (simp add: wf_private_def)
qed

lemma wf_save_public:
  assumes "wf_db n d" and "save_public_stmt channel platform s t n d = Inr (x, d')"
  shows "wf_db (Suc n) d'"
proof -
  have "distinct (map snapshot_key (t_snapshots (store_public (channel, platform) s t d)))"
    by (rule distinct_store_public) (use assms(1) in \<open>simp add: wf_db_def\<close>)
  with wf_frame_snapshots [OF assms(1) this] assms(2) show ?thesis
    by (auto simp: save_public_stmt_def store_public_def)
qed

lemma wf_prune:
  assumes "wf_db n d" and "prune_stmt channel t n d = Inr (x, d')"
  shows "wf_db (Suc n) d'"
  using assms(2) wf_frame_snapshots [OF assms(1) distinct_map_filter [OF wf_dbD(6) [OF assms(1)]]]
  by (auto simp: prune_stmt_def)

lemma wf_publisher_stmt:
  assumes "wf_db n d" and "upsert_publisher_stmt E p t n d = Inr (x, d')"
  shows "wf_db (Suc n) d'"
proof -
  from assms(2) obtain tenant where
    slug: "\<And>r. r \<in> set (t_publishers d) \<Longrightarrow> pub_slug r = b_slug p \<Longrightarrow> pub_tenant r = tenant"
    and d': "d' = d\<lparr>t_publishers := upsert (\<lambda>r. pub_tenant r = tenant)
        ((pg_publisher_defaults E)\<lparr>pub_id := n, pub_tenant := tenant, pub_slug := b_slug p,
            pub_name := b_name p, pub_email := b_contact_email p, pub_created_at := t,
            pub_updated_at := t\<rparr>)
        (\<lambda>r. r\<lparr>pub_slug := b_slug p, pub_name := b_name p, pub_email := b_contact_email p,
               pub_updated_at := t\<rparr>) (t_publishers d)\<rparr>"
    by (auto simp: upsert_publisher_stmt_def Let_def list_ex_iff split: option.splits if_splits)
  note wf = wf_dbD(1) [OF assms(1)]
  let ?hit = "\<lambda>r. pub_tenant r = tenant"
  let ?new = "(pg_publisher_defaults E)\<lparr>pub_id := n, pub_tenant := tenant, pub_slug := b_slug p,
            pub_name := b_name p, pub_email := b_contact_email p, pub_created_at := t,
            pub_updated_at := t\<rparr>"
  let ?upd = "\<lambda>r. r\<lparr>pub_slug := b_slug p, pub_name := b_name p, pub_email := b_contact_email p,
               pub_updated_at := t\<rparr>"
  let ?t = "upsert ?hit ?new ?upd (t_publishers d)"
  have "distinct (map pub_slug ?t)"
    by (rule distinct_second_key [where key = pub_tenant and c = "b_slug p"])
      (use wf slug in \<open>auto simp: wf_publishers_def\<close>)
  moreover have "distinct (map pub_tenant ?t)"
    by (rule distinct_key_upsert) (use wf in \<open>auto simp: wf_publishers_def\<close>)
  moreover have "distinct (map pub_id ?t) \<and> (\<forall>r\<in>set ?t. pub_id r < Suc n)"
  proof (cases "list_ex ?hit (t_publishers d)")
    case True
    then have "map pub_id ?t = map pub_id (t_publishers d)"
      by (simp add: upsert_def)
    moreover from this have "pub_id ` set ?t = pub_id ` set (t_publishers d)"
      by (metis list.set_map)
    ultimately show ?thesis
      using wf by (force simp: wf_publishers_def)
  next
    case False
    with wf show ?thesis by (fastforce simp: upsert_def wf_publishers_def)
  qed
  ultimately show ?thesis
    unfolding d' by (intro wf_frame_publishers [OF assms(1)]) (simp add: wf_publishers_def)
qed

lemma wf_verify:
  assumes "wf_db n d" and "set_verified_stmt E b v actor t n d = Inr (x, d')"
  shows "wf_db (Suc n) d'"
proof -
  from assms(2) obtain hit who where d': "d' = d\<lparr>t_publishers := update_where hit
      (\<lambda>r. r\<lparr>pub_verified := v, pub_verified_at := (if v then Some t else None),
             pub_verified_by := who, pub_updated_at := t\<rparr>) (t_publishers d)\<rparr>"
    by (auto simp: set_verified_stmt_def split: option.splits sum.splits)
  show ?thesis
    unfolding d'
    by (rule wf_frame_publishers [OF assms(1)])
      (use wf_dbD(1) [OF wf_Suc [OF assms(1)]]
        in \<open>auto simp: wf_publishers_def keys_kept set_update_where\<close>)
qed

lemma wf_app_stmt:
  assumes "wf_db n d" and "upsert_app_stmt E a t n d = Inr (x, d')"
  shows "wf_db (Suc n) d'"
proof -
  from assms(2) obtain publisher where
    slug: "\<And>r. r \<in> set (t_apps d) \<Longrightarrow> app_slug r = a_slug a \<Longrightarrow> app_id r = a_id a"
    and d': "d' = d\<lparr>t_apps := upsert (\<lambda>r. app_id r = a_id a) (app_insert E a publisher t)
        (app_update a t) (t_apps d)\<rparr>"
    by (auto simp: upsert_app_stmt_def list_ex_iff split: option.splits if_splits)
  note wf = wf_dbD(2) [OF assms(1)]
  let ?t = "upsert (\<lambda>r. app_id r = a_id a) (app_insert E a publisher t) (app_update a t) (t_apps d)"
  have "distinct (map app_id ?t)"
    by (rule distinct_key_upsert) (use wf in \<open>auto simp: wf_apps_def app_insert_def app_update_def\<close>)
  moreover have "distinct (map app_slug ?t)"
    by (rule distinct_second_key [where key = app_id and c = "a_slug a"])
      (use wf slug in \<open>auto simp: wf_apps_def app_insert_def app_update_def\<close>)
  moreover have "app_id ` set (t_apps d) \<subseteq> app_id ` set ?t"
    by (rule upsert_ids) (simp add: app_update_def)
  ultimately show ?thesis
    unfolding d' by (intro wf_frame_apps [OF assms(1)]) (simp_all add: wf_apps_def)
qed

lemma wf_provenance:
  assumes "wf_db n d" and "provenance_stmt E v aid t n d = Inr (x, d')"
  shows "wf_db (Suc n) d'"
proof -
  have "wf_db (Suc n) (d\<lparr>t_apps := update_where hit (take_provenance E m who t) (t_apps d)\<rparr>)"
    for hit m who
    by (rule wf_frame_apps [OF assms(1)])
      (use wf_dbD(2) [OF assms(1)]
        in \<open>auto simp: wf_apps_def keys_kept ids_kept take_provenance_def\<close>)
  with assms(2) wf_Suc [OF assms(1)] show ?thesis
    by (auto simp: provenance_stmt_def split: option.splits sum.splits)
qed

lemma wf_version_stmt:
  assumes "wf_db n d" and "v_status v = ''in_review''" and "insert_version_stmt E v j t n d = Inr (x, d')"
  shows "wf_db (Suc n) d'"
proof -
  from assms(2,3) obtain r where d': "d' = d\<lparr>t_versions := t_versions d @ [r]\<rparr>"
    and r: "ver_id r = n" "\<not> is_published r"
    by (auto simp: insert_version_stmt_def Let_def is_published_def split: if_splits)
  show ?thesis
    unfolding d'
    by (rule wf_frame_versions [OF assms(1)])
      (use r wf_dbD(3) [OF assms(1)] in \<open>fastforce simp: wf_versions_def\<close>)
qed

lemma wf_decide:
  assumes "wf_db n d" and "decide_stmt E v status nt t n d = Inr (x, d')"
  shows "wf_db (Suc n) d'"
proof -
  from assms(2) obtain hit where d': "d' = d\<lparr>t_versions := update_where hit
      (\<lambda>r. r\<lparr>ver_status := status, ver_note := nt,
             ver_published_at := (if status = ''published'' then Some t else ver_published_at r)\<rparr>)
      (t_versions d)\<rparr>"
    by (auto simp: decide_stmt_def split: option.splits)
  show ?thesis
    unfolding d'
    by (rule wf_frame_versions [OF assms(1)])
      (use wf_dbD(3) [OF wf_Suc [OF assms(1)]]
        in \<open>auto simp: wf_versions_def keys_kept set_update_where is_published_def\<close>)
qed

section \<open>Every operation keeps it\<close>

lemma wf_side_stmts:
  "wf_db n d \<Longrightarrow> upsert_text_stmt i lt t n d = Inr (x, d') \<Longrightarrow> wf_db (Suc n) d'"
  "wf_db n d \<Longrightarrow> upsert_external_stmt E i xr t n d = Inr (x, d') \<Longrightarrow> wf_db (Suc n) d'"
  "wf_db n d \<Longrightarrow> insert_event_stmt E v aid actor action nt t n d = Inr (x, d') \<Longrightarrow> wf_db (Suc n) d'"
  by (auto dest!: frame simp: wf_frame_other)

lemmas wf_statements = wf_touch wf_create wf_enable wf_grant wf_revoke wf_discard_private
  wf_save_public wf_save_private wf_prune wf_publisher_stmt wf_verify wf_app_stmt wf_decide
  wf_provenance wf_side_stmts

interpretation wf_run: statement_closed E "holds wf_db" for E
proof unfold_locales
  fix w w' :: world
  assume "holds wf_db w" and "holds wf_db w'" and "next_uuid w \<le> next_uuid w'"
  then show "holds wf_db (w'\<lparr>tables := tables w\<rparr>)"
    by (auto simp: holds_def intro: wf.up)
next
  show "keeps (holds wf_db) discard_snapshots"
    unfolding discard_snapshots_def
    by (rule wf.keeps_stmt) (auto intro: wf_frame_snapshots)
next
  show "keeps (holds wf_db) (stmt (insert_version_stmt E v j))" if "v_status v = ''in_review''" for v j
    by (rule wf.keeps_stmt) (erule wf_version_stmt, rule that)
next
  show "keeps (holds wf_db) (stmt bump_stmt)"
    by (rule wf.keeps_stmt) (auto simp: bump_stmt_def wf_frame_other)
next
  fix w :: world and a e t
  assume w: "holds wf_db w"
  then show "holds wf_db (tick w)" by (rule wf.holds_tick)
  from w show "holds wf_db (w\<lparr>audits := a\<rparr>)" "holds wf_db (w\<lparr>entropy := e\<rparr>)"
    "holds wf_db (w\<lparr>tx_start := t\<rparr>)"
    by (simp_all add: holds_def)
qed (rule wf.keeps_stmt, erule wf_statements, assumption)+

end
