(* ===== verification/System.thy ===== *)
theory System
  imports Serving Wellformed
begin

text \<open>
  The three modules together: every request they route, as one step of the world. \<open>step\<close> is the
  service handling one request to its end, or the world moving on: time passes, the network's
  future and the random source are whatever they are. \<open>reachable\<close> are the worlds of a service
  started on an empty database; \<open>Q\<close> restricts the schedules of driver calls, so that a property
  may be stated for every run or for the runs in which the database answers.
\<close>

section \<open>The routes\<close>

datatype call =
    GetCatalog request
  | ListApps request
  | GetApp request
  | ListVersions request
  | Chronicle request
  | Keys
  | RegistryState
  | RebuildSnapshots
  | ListPlatforms
  | CreatePlatform request "create_platform_body option"
  | SetPlatformEnabled request "bool option"
  | Grant request
  | Revoke request
  | Queue
  | History request
  | Decision request "decision_body option"
  | Publishers
  | VerifyPublisher request
  | Profile request
  | SaveProfile request "profile_body option"
  | ListOwnApps request
  | UpsertApp request "app_body option"
  | ListOwnVersions request
  | SubmitVersion request "submit_body option"

text \<open>
  The method and pattern each call is mounted at (\<^verbatim>\<open>RegisterRoutes\<close> of the three modules), and
  whether it is mounted behind the gate. What the gate admits is the core's.
\<close>

fun registry_route :: "call \<Rightarrow> (string \<times> string) option" where
  "registry_route (GetCatalog r) = Some (''GET'', ''/api/v1/registry/catalog'')"
| "registry_route (ListApps r) = Some (''GET'', ''/api/v1/registry/apps'')"
| "registry_route (GetApp r) = Some (''GET'', ''/api/v1/registry/apps/{slug}'')"
| "registry_route (ListVersions r) = Some (''GET'', ''/api/v1/registry/apps/{slug}/versions'')"
| "registry_route (Chronicle r) = Some (''GET'', ''/api/v1/registry/apps/{slug}/chronicle'')"
| "registry_route Keys = Some (''GET'', ''/.well-known/appstore-keys.json'')"
| "registry_route RegistryState = Some (''GET'', ''/api/v1/appstore/registry/state'')"
| "registry_route RebuildSnapshots = Some (''POST'', ''/api/v1/appstore/registry/rebuild'')"
| "registry_route ListPlatforms = Some (''GET'', ''/api/v1/appstore/registry/platforms'')"
| "registry_route (CreatePlatform r b) = Some (''POST'', ''/api/v1/appstore/registry/platforms'')"
| "registry_route (SetPlatformEnabled r b) =
     Some (''PUT'', ''/api/v1/appstore/registry/platforms/{id}/access'')"
| "registry_route (Grant r) =
     Some (''PUT'', ''/api/v1/appstore/registry/platforms/{id}/apps/{appID}'')"
| "registry_route (Revoke r) =
     Some (''DELETE'', ''/api/v1/appstore/registry/platforms/{id}/apps/{appID}'')"
| "registry_route _ = None"

fun review_route :: "call \<Rightarrow> (string \<times> string) option" where
  "review_route Queue = Some (''GET'', ''/api/v1/store-review/queue'')"
| "review_route (History r) = Some (''GET'', ''/api/v1/store-review/versions/{id}/history'')"
| "review_route (Decision r b) = Some (''POST'', ''/api/v1/store-review/versions/{id}'')"
| "review_route Publishers = Some (''GET'', ''/api/v1/store-review/publishers'')"
| "review_route (VerifyPublisher r) = Some (''POST'', ''/api/v1/store-review/publishers/{id}/verify'')"
| "review_route _ = None"

fun publisher_route :: "call \<Rightarrow> (string \<times> string) option" where
  "publisher_route (Profile r) = Some (''GET'', ''/api/v1/publisher/'')"
| "publisher_route (SaveProfile r b) = Some (''PUT'', ''/api/v1/publisher/'')"
| "publisher_route (ListOwnApps r) = Some (''GET'', ''/api/v1/publisher/apps'')"
| "publisher_route (UpsertApp r b) = Some (''POST'', ''/api/v1/publisher/apps'')"
| "publisher_route (ListOwnVersions r) = Some (''GET'', ''/api/v1/publisher/apps/{slug}/versions'')"
| "publisher_route (SubmitVersion r b) = Some (''POST'', ''/api/v1/publisher/apps/{slug}/versions'')"
| "publisher_route _ = None"

text \<open>The registry mounts two groups; \<^verbatim>\<open>/api/v1/registry\<close> and the keys are outside the gate.\<close>

fun gated :: "call \<Rightarrow> bool" where
  "gated (GetCatalog r) = False"
| "gated (ListApps r) = False"
| "gated (GetApp r) = False"
| "gated (ListVersions r) = False"
| "gated (Chronicle r) = False"
| "gated Keys = False"
| "gated _ = True"

section \<open>One request\<close>

fun perform :: "env \<Rightarrow> module \<Rightarrow> call \<Rightarrow> world \<Rightarrow> world" where
  "perform E m (GetCatalog r) w = snd (handle_catalog E m r w)"
| "perform E m (ListApps r) w = snd (handle_list_apps E r w)"
| "perform E m (GetApp r) w = snd (handle_get_app E r w)"
| "perform E m (ListVersions r) w = snd (handle_list_versions E r w)"
| "perform E m (Chronicle r) w = snd (handle_chronicle E r w)"
| "perform E m Keys w = snd (handle_keys E m w)"
| "perform E m RegistryState w = snd (handle_registry_state E m w)"
| "perform E m RebuildSnapshots w = snd (handle_rebuild_snapshots m w)"
| "perform E m ListPlatforms w = snd (handle_list_platforms E w)"
| "perform E m (CreatePlatform r b) w = snd (handle_create_platform E r b w)"
| "perform E m (SetPlatformEnabled r b) w = snd (handle_set_platform_enabled E r b w)"
| "perform E m (Grant r) w = snd (handle_grant E r w)"
| "perform E m (Revoke r) w = snd (handle_revoke E r w)"
| "perform E m Queue w = snd (handle_queue E w)"
| "perform E m (History r) w = snd (handle_history E r w)"
| "perform E m (Decision r b) w = snd (handle_decision E r b w)"
| "perform E m Publishers w = snd (handle_publishers E w)"
| "perform E m (VerifyPublisher r) w = snd (handle_verify_publisher E r w)"
| "perform E m (Profile r) w = snd (handle_profile E r w)"
| "perform E m (SaveProfile r b) w = snd (handle_save_profile E r b w)"
| "perform E m (ListOwnApps r) w = snd (handle_list_own_apps E r w)"
| "perform E m (UpsertApp r b) w = snd (handle_upsert_app E r b w)"
| "perform E m (ListOwnVersions r) w = snd (handle_list_own_versions E r w)"
| "perform E m (SubmitVersion r b) w = snd (handle_submit_version E r b w)"

text \<open>Behind the gate a request that is not admitted reaches no handler.\<close>

definition serve :: "env \<Rightarrow> module \<Rightarrow> (call \<Rightarrow> bool) \<Rightarrow> call \<Rightarrow> world \<Rightarrow> world" where
  "serve E m admits c w = (if gated c \<and> \<not> admits c then w else perform E m c w)"

text \<open>
  What every request keeps, from what the operations keep: the requests with a hypothesis of
  their own are those of \<open>catalog_operations\<close> and \<open>store_operations\<close>.
\<close>

lemma perform_keeps_core:
  assumes "core_operations E I"
    and "case c of GetCatalog r \<Rightarrow> keeps I (handle_catalog E m r) | Grant r \<Rightarrow> keeps I (handle_grant E r)
         | Revoke r \<Rightarrow> keeps I (handle_revoke E r) | Decision r b \<Rightarrow> keeps I (handle_decision E r b)
         | VerifyPublisher r \<Rightarrow> keeps I (handle_verify_publisher E r) | _ \<Rightarrow> True"
    and "I w"
  shows "I (perform E m c w)"
  using assms(2,3)
  by (cases c)
    (simp_all add: keepsD core_operations.keeps_public_handlers [OF assms(1)]
      core_operations.keeps_platform_handlers [OF assms(1)]
      core_operations.keeps_review_reads [OF assms(1)]
      core_operations.keeps_publisher_handlers [OF assms(1)]
      core_operations.keeps_submit_handler [OF assms(1)])

lemma perform_keeps_base:
  assumes "store_operations E I"
    and "case c of GetCatalog r \<Rightarrow> keeps I (handle_catalog E m r) | Grant r \<Rightarrow> keeps I (handle_grant E r)
         | Revoke r \<Rightarrow> keeps I (handle_revoke E r) | _ \<Rightarrow> True"
    and "I w"
  shows "I (perform E m c w)"
proof (rule perform_keeps_core [where I = I])
  show "core_operations E I" using assms(1) by (rule store_operations.axioms)
qed (use assms store_operations.keeps_decision_handlers [OF assms(1)] in
    \<open>simp_all split: call.splits\<close>)

lemma perform_keeps_catalog:
  assumes "catalog_operations E I S" and "uuid_codec E" and "set_option (m_catalog m) \<subseteq> S" and "I w"
    and "case c of Decision r b \<Rightarrow> keeps I (handle_decision E r b)
         | VerifyPublisher r \<Rightarrow> keeps I (handle_verify_publisher E r) | _ \<Rightarrow> True"
  shows "I (perform E m c w)"
proof (rule perform_keeps_core [where I = I])
  show "core_operations E I" using assms(1) by (rule catalog_operations.axioms)
qed (use assms(4,5) catalog_operations.keeps_handle_catalog [OF assms(1-3)]
      catalog_operations.keeps_grant_handlers [OF assms(1)] in \<open>simp_all split: call.splits\<close>)

lemma perform_keeps:
  assumes "operations E I S" and "uuid_codec E" and "set_option (m_catalog m) \<subseteq> S" and "I w"
  shows "I (perform E m c w)"
proof (rule perform_keeps_catalog [where I = I])
  show "catalog_operations E I S" using assms(1) by (rule operations.axioms)
  have "store_operations E I" using assms(1) by (rule operations.axioms)
  then show "case c of Decision r b \<Rightarrow> keeps I (handle_decision E r b)
         | VerifyPublisher r \<Rightarrow> keeps I (handle_verify_publisher E r) | _ \<Rightarrow> True"
    by (simp add: store_operations.keeps_decision_handlers split: call.split)
qed (rule assms(2-4))+

section \<open>Runs\<close>

inductive step ::
  "env \<Rightarrow> module \<Rightarrow> (call \<Rightarrow> bool) \<Rightarrow> (outcome list \<Rightarrow> bool) \<Rightarrow> world \<Rightarrow> world \<Rightarrow> bool"
  for E m admits Q where
  request: "step E m admits Q w (serve E m admits c w)"
| elapse: "Q os \<Longrightarrow> 0 \<le> dt \<Longrightarrow>
     step E m admits Q w (w\<lparr>sched := os, entropy := es, now := now w + dt\<rparr>)"

inductive reachable ::
  "env \<Rightarrow> module \<Rightarrow> (call \<Rightarrow> bool) \<Rightarrow> (outcome list \<Rightarrow> bool) \<Rightarrow> world \<Rightarrow> bool"
  for E m admits Q where
  boot: "tables w = empty_db \<Longrightarrow> tx_start w = None \<Longrightarrow> Q (sched w) \<Longrightarrow> reachable E m admits Q w"
| onward: "reachable E m admits Q w \<Longrightarrow> step E m admits Q w w' \<Longrightarrow> reachable E m admits Q w'"

inductive_cases stepE: "step E m admits Q w w'"
inductive_simps step_iff: "step E m admits Q w w'"

lemma reachable_invariant:
  assumes "reachable E m admits Q w"
    and boot: "\<And>w. tables w = empty_db \<Longrightarrow> Q (sched w) \<Longrightarrow> I w"
    and perform: "\<And>w c. I w \<Longrightarrow> I (perform E m c w)"
    and elapse: "\<And>w os es dt. I w \<Longrightarrow> Q os \<Longrightarrow> I (w\<lparr>sched := os, entropy := es, now := now w + dt\<rparr>)"
  shows "I w"
  using assms(1)
proof induction
  case (boot w)
  then show ?case using assms(2) by simp
next
  case (onward w w')
  from onward(2) show ?case
  proof (cases rule: step.cases)
    case (request c)
    with onward(3) perform [of w c] show ?thesis by (simp add: serve_def)
  next
    case (elapse os dt es)
    with onward(3) assms(4) [of w os dt es] show ?thesis by simp
  qed
qed

text \<open>A list of requests, handled one after the other.\<close>

lemma reachable_run:
  "reachable E m (\<lambda>_. True) Q w \<Longrightarrow> reachable E m (\<lambda>_. True) Q (fold (perform E m) cs w)"
proof (induction cs arbitrary: w)
  case (Cons c cs)
  have "reachable E m (\<lambda>_. True) Q (perform E m c w)"
    using reachable.onward [OF Cons.prems step.request, of c] by (simp add: serve_def)
  with Cons.IH show ?case by simp
qed simp

lemma reachable_schedules:
  "reachable E m admits Q w \<Longrightarrow> (\<And>os. Q os \<Longrightarrow> Q' os) \<Longrightarrow> reachable E m admits Q' w"
proof (induction rule: reachable.induct)
  case (onward w w')
  from onward.hyps(2) onward.prems have "step E m admits Q' w w'"
    by (cases rule: step.cases) (auto intro: step.intros)
  with onward show ?case by (auto intro: reachable.onward)
qed (auto intro: reachable.boot)

text \<open>No run with a good schedule sees a failed call.\<close>

abbreviation all_answer :: "outcome list \<Rightarrow> bool" where
  "all_answer os \<equiv> Fails \<notin> set os"

section \<open>The invariants of every run\<close>

lemma reachable_wf: "uuid_codec E \<Longrightarrow> reachable E m admits Q w \<Longrightarrow> wf_db (next_uuid w) (tables w)"
proof (erule reachable_invariant)
  show "wf_db (next_uuid w) (tables w)" if "tables w = empty_db" for w :: world
    by (simp add: that wf_empty)
  show "wf_db (next_uuid (perform E m c w)) (tables (perform E m c w))"
    if "uuid_codec E" and "wf_db (next_uuid w) (tables w)" for w c
    using perform_keeps [OF wf_run.operations_axioms that(1), of m w c] that(2)
    by (simp add: holds_def)
qed simp

lemma public_ok_empty: "public_ok E s empty_db"
  by (simp add: public_ok_def public_cache.coherent_def load_public_def empty_db_def)

lemma private_ok_empty: "private_ok E s empty_db"
  by (simp add: private_ok_def private_cache.coherent_def load_private_def empty_db_def)

lemma reachable_public_ok:
  assumes "uuid_codec E" and "m_catalog m = Some s" and "reachable E m admits Q w"
  shows "public_ok E s (tables w)"
  using assms(3)
proof (rule reachable_invariant)
  show "public_ok E s (tables (perform E m c w))" if "public_ok E s (tables w)" for w c
    using that perform_keeps [OF public_ops.operations_axioms assms(1), of m s w c] assms(2) by simp
qed (simp_all add: public_ok_empty)

lemma perform_private_ok:
  assumes "uuid_codec E" and "m_catalog m = Some s" and "quiet w" and "private_ok E s (tables w)"
  shows "private_ok E s (tables (perform E m c w))"
proof (cases "(\<exists>r. c = Grant r) \<or> (\<exists>r. c = Revoke r)")
  case True
  with assms handle_grant_step handle_revoke_step private_ok_step show ?thesis
    by (auto; metis)
next
  case False
  have "keeps (\<lambda>w. private_ok E s (tables w)) (handle_catalog E m r)" for r
    by (rule keepsI) (rule handle_catalog_private_ok [OF assms(1,2)])
  with False have "case c of GetCatalog r \<Rightarrow> keeps (\<lambda>w. private_ok E s (tables w)) (handle_catalog E m r)
      | Grant r \<Rightarrow> keeps (\<lambda>w. private_ok E s (tables w)) (handle_grant E r)
      | Revoke r \<Rightarrow> keeps (\<lambda>w. private_ok E s (tables w)) (handle_revoke E r) | _ \<Rightarrow> True"
    by (simp split: call.split)
  from perform_keeps_base [OF private_ops.store_operations_axioms this assms(4)]
  show ?thesis .
qed

lemma reachable_private_ok:
  assumes "uuid_codec E" and "m_catalog m = Some s" and "reachable E m admits all_answer w"
  shows "quiet w \<and> private_ok E s (tables w)"
  using assms(3)
proof (rule reachable_invariant)
  fix w c assume w: "quiet w \<and> private_ok E s (tables w)"
  have "quiet (perform E m c w)"
    using w perform_keeps [OF quiet_run.operations_axioms assms(1), of m w c] by simp
  with w show "quiet (perform E m c w) \<and> private_ok E s (tables (perform E m c w))"
    using perform_private_ok [OF assms(1,2)] by blast
qed (simp_all add: private_ok_empty quiet_def)

lemma perform_rev_step:
  assumes "uuid_codec E" shows "rev_step (tables w) (tables (perform E m c w))"
  using perform_keeps [OF rev_ops.operations_axioms assms, of m "tables w" w c]
  by (simp add: rev.R_refl)

lemma reachable_revision: "uuid_codec E \<Longrightarrow> reachable E m admits Q w \<Longrightarrow> \<exists>rv\<ge>0. t_revision (tables w) = Some rv"
proof (erule reachable_invariant)
  show "\<exists>rv\<ge>0. t_revision (tables w) = Some rv" if "tables w = empty_db" for w :: world
    by (simp add: that empty_db_def)
  show "\<exists>rv\<ge>0. t_revision (tables (perform E m c w)) = Some rv"
    if "uuid_codec E" and "\<exists>rv\<ge>0. t_revision (tables w) = Some rv" for w c
    using perform_rev_step [OF that(1), of w m c] that(2) by (auto simp: rev_step_def)
qed simp

end
