(* ===== verification/Demo.thy ===== *)
theory Demo
  imports System
begin

text \<open>
  A small concrete instance of the code outside the repository, and a database with a public and
  a private app: the input at which the witnesses apply the properties. UUID number \<open>n\<close> is
  written as \<open>n + 1\<close> letters; versions compare as text; a manifest is stored as its version.
\<close>

definition demo_manifest :: "string \<Rightarrow> string \<Rightarrow> manifest" where
  "demo_manifest i v =
     \<lparr>mf_id = i, mf_name = i, mf_version = v, mf_type = ''module'', mf_platform = ''>=0.1.0'',
      mf_external = None, mf_authors = None, mf_notes = None, mf_rest = JNull\<rparr>"

definition demo_uuid :: "string \<Rightarrow> uuid option" where
  "demo_uuid s = (if s \<noteq> [] \<and> list_all (\<lambda>c. c = CHR ''x'') s then Some (length s - 1) else None)"

definition demo_env :: env where
  "demo_env =
     \<lparr>pg_uuid = demo_uuid,
      pg_uuid_text = (\<lambda>u. replicate (Suc u) (CHR ''x'')),
      pg_version_clash = (\<lambda>a b. a = b),
      sha256 = (\<lambda>s. s),
      ed_sign = (\<lambda>k msg. k @ msg),
      ed_public = (\<lambda>k. k),
      ed_from_seed = (\<lambda>k. k @ k),
      unicode_lower = (\<lambda>s. s),
      json_quote_unicode = (\<lambda>s. s),
      json_text = (\<lambda>j. []),
      semver_valid = (\<lambda>v. v = ''1.0.0'' \<or> v = ''2.0.0''),
      semver_constraint =
        (\<lambda>c. if c = ''>=0.1.0'' then Some (\<lambda>_. True)
             else if c = ''>=2.0.0'' then Some (\<lambda>v. v = ''2.0.0'') else None),
      is_newer = (\<lambda>a b. b < a),
      is_valid_slug = (\<lambda>s. s \<noteq> [] \<and> CHR '' '' \<notin> set s),
      is_external = (\<lambda>m. mf_type m = ''external''),
      validate_manifest = (\<lambda>m p. if mf_version m = [] then Some ''no version'' else None),
      validate_catalog = (\<lambda>apps p. None),
      marshal_manifest = (\<lambda>m. Some (JArr [JStr (mf_id m), JStr (mf_version m)])),
      unmarshal_manifest =
        (\<lambda>j. case j of JArr [JStr i, JStr v] \<Rightarrow> Some (demo_manifest i v) | _ \<Rightarrow> None),
      marshal_apps = (\<lambda>apps. Some (concat (map (\<lambda>a. ca_id a @ ca_version a) apps))),
      unmarshal_person = Some,
      zero_note = JNull,
      unmarshal_note = Some,
      pg_publisher_defaults =
        \<lparr>pub_id = 0, pub_tenant = 0, pub_slug = [], pub_name = [], pub_email = [],
         pub_verified = False, pub_verified_at = None, pub_verified_by = None,
         pub_created_at = 0, pub_updated_at = 0\<rparr>,
      pg_app_defaults =
        \<lparr>app_id = [], app_publisher = 0, app_slug = [], app_type = ''module'', app_name = [],
         app_description = [], app_icon_url = [], app_category = [], app_visibility = ''public'',
         app_created_at = 0, app_updated_at = 0, app_authors = JArr [], app_maintainers = JArr [],
         app_repository = [], app_homepage = [], app_license = [], app_created_by = None,
         app_updated_by = None\<rparr>,
      pg_version_defaults =
        \<lparr>ver_id = 0, ver_app = [], ver_version = [], ver_channel = ''stable'',
         ver_min_platform = [], ver_manifest = JNull, ver_status = ''draft'',
         ver_submitted_by = [], ver_note = [], ver_published_at = None, ver_created_at = 0,
         ver_release_notes = None, ver_authors = JArr []\<rparr>,
      pg_external_defaults =
        \<lparr>ex_app = [], ex_launch_url = [], ex_sso_client_id = [], ex_scopes = [], ex_embed = [],
         ex_health_url = [], ex_webhook_url = []\<rparr>\<rparr>"

lemma demo_codec: "uuid_codec demo_env"
  by (simp add: uuid_codec_def demo_env_def demo_uuid_def list_all_iff)

lemma demo_order: "newer_order demo_env"
  by (auto simp: newer_order_def demo_env_def)

definition demo_signer :: signer where
  "demo_signer = \<lparr>sg_key_id = ''k'', sg_private = ''s''\<rparr>"

definition demo_module :: module where
  "demo_module = \<lparr>m_catalog = Some demo_signer, m_signer = Some demo_signer\<rparr>"

definition demo_app :: "string \<Rightarrow> string \<Rightarrow> app_row" where
  "demo_app i vis = (pg_app_defaults demo_env)\<lparr>app_id := i, app_slug := i, app_visibility := vis\<rparr>"

definition demo_version :: "uuid \<Rightarrow> string \<Rightarrow> string \<Rightarrow> string \<Rightarrow> time option \<Rightarrow> version_row" where
  "demo_version u i v status p =
     (pg_version_defaults demo_env)
       \<lparr>ver_id := u, ver_app := i, ver_version := v, ver_status := status, ver_published_at := p,
        ver_manifest := JArr [JStr i, JStr v]\<rparr>"

definition demo_publisher :: publisher_row where
  "demo_publisher =
     (pg_publisher_defaults demo_env)\<lparr>pub_slug := ''acme'', pub_name := ''Acme''\<rparr>"

definition demo_platform :: platform_row where
  "demo_platform =
     \<lparr>pl_id = 4, pl_name = ''shop'', pl_origin = [], pl_digest = token_digest demo_env ''T'',
      pl_disabled_at = None, pl_last_seen_at = None, pl_note = [], pl_created_at = 0,
      pl_created_by = None\<rparr>"

text \<open>
  App \<open>a\<close> is public with two published versions, the newer for platform 1.0.0 as well; app \<open>b\<close>
  is private and granted to the platform with token \<open>T\<close>; a version of \<open>a\<close> waits for review.
\<close>

definition demo_db :: database where
  "demo_db = empty_db
     \<lparr>t_publishers := [demo_publisher],
      t_apps := [demo_app ''a'' ''public'', demo_app ''b'' ''private''],
      t_versions :=
        [demo_version 1 ''a'' ''1'' ''published'' (Some 5000000),
         demo_version 2 ''a'' ''2'' ''published'' (Some 7000000),
         demo_version 3 ''b'' ''1'' ''published'' (Some 6000000),
         demo_version 5 ''a'' ''3'' ''in_review'' None],
      t_platforms := [demo_platform],
      t_grants := [\<lparr>gr_app = ''b'', gr_platform = 4, gr_granted_at = 0, gr_granted_by = None\<rparr>]\<rparr>"

definition demo_world :: world where
  "demo_world =
     \<lparr>tables = demo_db, now = 10000000, tx_start = None, sched = [],
      entropy = replicate 64 (CHR ''e''), next_uuid = 9, audits = []\<rparr>"

lemma demo_wf: "wf_db 9 demo_db"
  by code_simp

lemma demo_quiet: "quiet demo_world"
  by (simp add: quiet_def demo_world_def)

lemma demo_selected:
  obtains apps where
    "selected_apps demo_env ''stable'' ''1.0.0'' no_audience demo_db = Inr (7000000, apps)"
    and "map ca_id apps = [''a'']" and "map ca_version apps = [''2'']"
proof -
  have "case selected_apps demo_env ''stable'' ''1.0.0'' no_audience demo_db of
      Inl e \<Rightarrow> False
    | Inr (g, apps) \<Rightarrow> g = 7000000 \<and> map ca_id apps = [''a''] \<and> map ca_version apps = [''2'']"
    by code_simp
  then show ?thesis using that by (auto split: sum.splits)
qed

lemma demo_selected_private:
  obtains apps where
    "selected_apps demo_env ''stable'' ''1.0.0'' (audience_view demo_env ''T'' demo_db) demo_db =
       Inr (7000000, apps)"
    and "map ca_id apps = [''a'', ''b'']" and "map ca_visibility apps = [''public'', ''private'']"
proof -
  have "case selected_apps demo_env ''stable'' ''1.0.0'' (audience_view demo_env ''T'' demo_db) demo_db of
      Inl e \<Rightarrow> False
    | Inr (g, apps) \<Rightarrow> g = 7000000 \<and> map ca_id apps = [''a'', ''b'']
        \<and> map ca_visibility apps = [''public'', ''private'']"
    by code_simp
  then show ?thesis using that by (auto split: sum.splits)
qed

text \<open>A request in a session of the demo publisher's organisation.\<close>

definition demo_request :: request where
  "demo_request = no_request\<lparr>rq_tenant := Inr ''x'', rq_claims := Some \<lparr>cl_user_id = ''xx'', cl_email = ''r@x''\<rparr>\<rparr>"

text \<open>A world with an empty database, where a run may start.\<close>

definition boot_world :: world where
  "boot_world =
     \<lparr>tables = empty_db, now = 0, tx_start = None, sched = [], entropy = replicate 64 (CHR ''e''),
      next_uuid = 0, audits = []\<rparr>"

lemma boot_reachable: "Q [] \<Longrightarrow> reachable E m admits Q boot_world"
  by (rule reachable.boot) (simp_all add: boot_world_def)

text \<open>
  A run in which a private app is registered, submitted, published and granted to a platform, and
  that platform's request for the catalogue. UUID 11 is the version's and 15 the platform's.
\<close>

definition demo_at :: "nat \<Rightarrow> request" where
  "demo_at u = demo_request\<lparr>rq_param := (\<lambda>k. if k = ''id'' then pg_uuid_text demo_env u else ''a'')\<rparr>"

definition granted_world :: world where
  "granted_world = fold (perform demo_env demo_module)
    [SaveProfile demo_request (Some \<lparr>pb_slug = ''acme'', pb_name = ''Acme'', pb_contact_email = []\<rparr>),
     UpsertApp demo_request (Some \<lparr>ab_id = ''a'', ab_slug = ''a'', ab_type = [], ab_name = ''A'', ab_description = [],
       ab_icon_url = [], ab_category = [], ab_visibility = ''private'', ab_texts = []\<rparr>),
     SubmitVersion (demo_at 0) (Some \<lparr>sb_channel = [], sb_manifest = demo_manifest ''a'' ''1''\<rparr>),
     CreatePlatform demo_request (Some \<lparr>cp_name = ''shop'', cp_origin = [], cp_note = []\<rparr>),
     Decision (demo_at 11) (Some \<lparr>de_action = ''publish'', de_note = []\<rparr>),
     Grant (demo_at 15)] boot_world"

definition granted_ask :: request where
  "granted_ask = no_request\<lparr>rq_header := (\<lambda>k. if k = ''Authorization''
     then ''Bearer '' @ raw_url_encode (replicate 32 (CHR ''e'')) else [])\<rparr>"

lemma granted_reachable: "Q [] \<Longrightarrow> reachable demo_env demo_module (\<lambda>_. True) Q granted_world"
  unfolding granted_world_def by (intro reachable_run boot_reachable)

end
