(* ===== verification/CatalogSpec.thy ===== *)
theory CatalogSpec
  imports Demo
begin

text \<open>
  The properties of the catalogue builder (\<^verbatim>\<open>modules/registry/catalog.go\<close>): what a document
  lists, for whom, in which order and under which time stamp, and what its signature covers.
\<close>

section \<open>Building\<close>

text \<open>
  \<open>build\<close> never writes a table; whatever driver calls fail, it returns either the error of a
  call or exactly what \<open>build_pure\<close> computes from the tables, and when no call fails it returns
  the latter.
\<close>

lemma build_refines:
  "tables (snd (build E s channel platform rv aud w)) = tables w
   \<and> (fst (build E s channel platform rv aud w) = Inl ErrDriver
      \<or> fst (build E s channel platform rv aud w) = build_pure E s channel platform rv aud (tables w))
   \<and> (quiet w \<longrightarrow>
        fst (build E s channel platform rv aud w) = build_pure E s channel platform rv aud (tables w))"
  using build_result [of E s channel platform rv aud w] build_quiet [of w]
  by (metis prod.collapse)

text \<open>
  C3: a document lists an app exactly when the audience has a published version of it on the
  channel that the platform can run, and lists the newest such version: no eligible version of
  the same app is newer than the one listed.
\<close>

theorem document_lists_newest:
  assumes "newer_order E" and "selected_apps E channel platform aud d = Inr (g, apps)"
  shows "ca_id ` set apps = {app_id (fst r) | r. eligible E channel platform (aud_app_ids aud) d r}
    \<and> (\<forall>a\<in>set apps. \<exists>r. eligible E channel platform (aud_app_ids aud) d r
         \<and> a = with_texts (entry_of E r) (texts_of (ca_id a) d)
         \<and> (\<forall>q. eligible E channel platform (aud_app_ids aud) d q \<and> app_id (fst q) = ca_id a \<longrightarrow>
                \<not> is_newer E (ver_version (snd q)) (ca_version a)))"
proof (intro conjI ballI set_eqI)
  let ?rows = "catalog_rows channel (aud_app_ids aud) d"
  show "i \<in> ca_id ` set apps \<longleftrightarrow>
      i \<in> {app_id (fst r) | r. eligible E channel platform (aud_app_ids aud) d r}" for i
  proof
    assume "i \<in> ca_id ` set apps"
    then obtain a where "a \<in> set apps" and i: "i = ca_id a" by blast
    then obtain k r where "chosen_row E platform k ?rows = Some r"
      and "i = ca_id (with_texts (entry_of E r) (texts_of k d))"
      by (auto simp: selected_member [OF assms(2)] simp del: with_texts_simps)
    moreover from this have "i = k" by (simp add: newest_id)
    ultimately have "chosen_row E platform i ?rows = Some r" by simp
    then have "r \<in> set (candidates E platform i ?rows)" by (auto dest: newest_member)
    then have "eligible E channel platform (aud_app_ids aud) d r \<and> app_id (fst r) = i"
      by (simp add: candidates_eligible)
    then show "i \<in> {app_id (fst r) | r. eligible E channel platform (aud_app_ids aud) d r}"
      by blast
  next
    assume "i \<in> {app_id (fst r) | r. eligible E channel platform (aud_app_ids aud) d r}"
    then obtain r where "eligible E channel platform (aud_app_ids aud) d r" and "i = app_id (fst r)" by blast
    with eligible_listed [OF assms(2)] show "i \<in> ca_id ` set apps" by (metis image_eqI)
  qed
  fix a assume "a \<in> set apps"
  then obtain i r where r: "chosen_row E platform i ?rows = Some r"
    and a: "a = with_texts (entry_of E r) (texts_of i d)"
    by (auto simp: selected_member [OF assms(2)])
  then have i: "ca_id a = i" using newest_id [OF r] by simp
  have "r \<in> set (candidates E platform i ?rows)" using r by (auto dest: newest_member)
  then have "eligible E channel platform (aud_app_ids aud) d r" by (simp add: candidates_eligible)
  moreover have "\<not> is_newer E (ver_version (snd q)) (ca_version a)"
    if "eligible E channel platform (aud_app_ids aud) d q \<and> app_id (fst q) = ca_id a" for q
    using newest_maximal [OF assms(1) r, of q] that newest_id [OF r]
    by (simp add: a candidates_eligible)
  moreover have "a = with_texts (entry_of E r) (texts_of (ca_id a) d)"
    unfolding i by (rule a)
  ultimately show "\<exists>r. eligible E channel platform (aud_app_ids aud) d r
         \<and> a = with_texts (entry_of E r) (texts_of (ca_id a) d)
         \<and> (\<forall>q. eligible E channel platform (aud_app_ids aud) d q \<and> app_id (fst q) = ca_id a \<longrightarrow>
                \<not> is_newer E (ver_version (snd q)) (ca_version a))"
    by blast
qed

theorem document_lists_newest_witness:
  "\<exists>g apps. selected_apps demo_env ''stable'' ''1.0.0'' no_audience demo_db = Inr (g, apps)
     \<and> map ca_version apps = [''2'']
     \<and> {app_id (fst r) | r. eligible demo_env ''stable'' ''1.0.0'' [] demo_db r} = {''a''}"
proof -
  obtain apps where s: "selected_apps demo_env ''stable'' ''1.0.0'' no_audience demo_db = Inr (7000000, apps)"
    and "map ca_id apps = [''a'']" and v: "map ca_version apps = [''2'']"
    by (rule demo_selected)
  then have "ca_id ` set apps = {''a''}" by (metis list.set_map list.simps(15) empty_set)
  with document_lists_newest [OF demo_order s] s v show ?thesis
    by (auto simp: no_audience_def)
qed

text \<open>
  C4: confidentiality. Every app of the document built for a request's credential is public, or
  the credential is the token of a platform that is enabled and has been granted that app.
\<close>

theorem document_confidential:
  assumes "selected_apps E channel platform (audience_view E token d) d = Inr (g, apps)"
    and "a \<in> set apps" and "ca_visibility a \<noteq> ''public''"
  shows "\<exists>p\<in>set (t_platforms d). pl_digest p = token_digest E token \<and> pl_disabled_at p = None
    \<and> token \<noteq> [] \<and> (\<exists>gr\<in>set (t_grants d). gr_app gr = ca_id a \<and> gr_platform gr = pl_id p)"
proof -
  let ?aud = "audience_view E token d"
  from assms(2) obtain i r where r: "chosen_row E platform i (catalog_rows channel (aud_app_ids ?aud) d) = Some r"
    and a: "a = with_texts (entry_of E r) (texts_of i d)"
    by (auto simp: selected_member [OF assms(1)])
  then have "visible (aud_app_ids ?aud) (fst r)"
    using newest_id [OF r] by (simp add: set_catalog_rows)
  with a assms(3) have m: "ca_id a \<in> set (aud_app_ids ?aud)"
    by (simp add: visible_def)
  then obtain p where "find (\<lambda>r. pl_digest r = token_digest E token) (t_platforms d) = Some p"
    and "pl_disabled_at p = None" and "token \<noteq> []" and "ca_id a \<in> set (grants_of (pl_id p) d)"
    by (auto simp: audience_view_def no_audience_def split: if_splits option.splits)
  moreover from this have "p \<in> set (t_platforms d)" and "pl_digest p = token_digest E token"
    by (auto dest: find_SomeD)
  moreover from calculation obtain gr where "gr \<in> set (t_grants d)" and "gr_app gr = ca_id a"
    and "gr_platform gr = pl_id p" by (auto simp: grants_of_def)
  ultimately show ?thesis by blast
qed

theorem document_confidential_witness:
  "\<exists>a :: catalog_app. ca_id a = ''b'' \<and> ca_visibility a \<noteq> ''public'' \<and>
     (\<exists>p\<in>set (t_platforms demo_db). pl_digest p = token_digest demo_env ''T''
        \<and> (\<exists>gr\<in>set (t_grants demo_db). gr_app gr = ca_id a \<and> gr_platform gr = pl_id p))"
proof -
  obtain apps where s: "selected_apps demo_env ''stable'' ''1.0.0'' (audience_view demo_env ''T'' demo_db)
      demo_db = Inr (7000000, apps)" and i: "map ca_id apps = [''a'', ''b'']"
    and v: "map ca_visibility apps = [''public'', ''private'']"
    by (rule demo_selected_private)
  from i v obtain a0 a where "apps = [a0, a]" and "ca_id a = ''b''" and "ca_visibility a = ''private''"
    by (auto simp: map_eq_Cons_conv)
  moreover from this have "a \<in> set apps" and "ca_visibility a \<noteq> ''public''" by simp_all
  with document_confidential [OF s] have
    "\<exists>p\<in>set (t_platforms demo_db). pl_digest p = token_digest demo_env ''T''
        \<and> (\<exists>gr\<in>set (t_grants demo_db). gr_app gr = ca_id a \<and> gr_platform gr = pl_id p)" by blast
  ultimately show ?thesis by (intro exI [of _ a]) simp
qed

text \<open>
  The builder fails on the content of the tables exactly when some eligible version's
  manifest cannot be decoded: one such row blocks the whole document.
\<close>

lemma undecodable_manifest_blocks:
  "(\<exists>e. selected_apps E channel platform aud d = Inl e) \<longleftrightarrow>
   (\<exists>r. eligible E channel platform (aud_app_ids aud) d r
      \<and> unmarshal_manifest E (ver_manifest (snd r)) = None)"
proof -
  let ?rows = "catalog_rows channel (aud_app_ids aud) d"
  have el: "eligible E channel platform (aud_app_ids aud) d r \<longleftrightarrow> r \<in> set ?rows \<and> allowed E platform r" for r
    by (auto simp: eligible_def set_catalog_rows)
  show ?thesis
  proof (cases "build_rows E platform ?rows build_init")
    case (Inl e)
    then have "\<exists>r. r \<in> set ?rows \<and> allowed E platform r \<and> unmarshal_manifest E (ver_manifest (snd r)) = None"
      using build_rows_total [of ?rows E platform build_init] by (metis sum.distinct(1))
    with Inl el show ?thesis by (auto simp: selected_apps_def)
  next
    case (Inr st)
    with build_rows_decodes [OF Inr] el show ?thesis by (fastforce simp: selected_apps_def)
  qed
qed

section \<open>The time stamp\<close>

text \<open>
  \<open>generated_at\<close> is the newest publication among the versions listed, and the epoch for a
  document that lists none. (Every published version has its date, which no operation breaks, and
  dates are after year one.)
\<close>

lemma generated_at_newest_publication:
  assumes "build_pure E s channel platform rv aud d = Inr snap"
    and "\<forall>v\<in>set (t_versions d). is_published v \<longrightarrow> (\<exists>t > zero_time. ver_published_at v = Some t)"
    and "listed = {r. \<exists>i. chosen_row E platform i (catalog_rows channel (aud_app_ids aud) d) = Some r}"
  shows "(listed = {} \<longrightarrow> ss_generated_at snap = 0) \<and>
    (listed \<noteq> {} \<longrightarrow>
       (\<exists>r\<in>listed. ver_published_at (snd r) = Some (ss_generated_at snap)) \<and>
       (\<forall>r\<in>listed. \<exists>t \<le> ss_generated_at snap. ver_published_at (snd r) = Some t))"
proof -
  let ?rows = "catalog_rows channel (aud_app_ids aud) d"
  from assms(1) obtain g apps where sel: "selected_apps E channel platform aud d = Inr (g, apps)"
    and fin: "finish E s platform rv g apps = Inr snap"
    by (auto simp: build_pure_def split: if_splits sum.splits)
  from sel obtain st where st: "build_rows E platform ?rows build_init = Inr st" and g: "g = bs_generated st"
    by (rule selected_appsE)
  have gen: "ss_generated_at snap = (if g = zero_time then 0 else g)"
    using fin by (auto simp: finish_def sign_document_def Let_def split: option.splits sum.splits)
  have dated: "\<exists>t > zero_time. ver_published_at (snd r) = Some t" if "r \<in> set ?rows" for r
    using that assms(2) by (simp add: set_catalog_rows offered_def)
  then have "\<forall>r\<in>set ?rows. ver_published_at (snd r) \<noteq> None" by fastforce
  from stamp_attained [OF st sorted_catalog_rows this]
  have att: "g = zero_time \<or> (\<exists>r\<in>listed. ver_published_at (snd r) = Some g)"
    unfolding g assms(3) by blast
  have upper: "\<exists>t. zero_time < t \<and> t \<le> g \<and> ver_published_at (snd r) = Some t" if "r \<in> listed" for r
  proof -
    from that assms(3) obtain i where r: "chosen_row E platform i ?rows = Some r" by blast
    with dated newest_id [OF r] obtain t where "zero_time < t" and t: "ver_published_at (snd r) = Some t" by blast
    with stamp_upper [OF st r t] g show ?thesis by blast
  qed
  show ?thesis
  proof (cases "listed = {}")
    case True
    with att gen show ?thesis by simp
  next
    case False
    then obtain r where "r \<in> listed" by blast
    with upper have "g \<noteq> zero_time" by fastforce
    with att gen upper False show ?thesis by (auto; blast)
  qed
qed

lemma demo_built: "\<exists>snap. build_pure demo_env demo_signer ''stable'' ''1.0.0'' 7 no_audience demo_db = Inr snap
    \<and> ss_generated_at snap = 7000000"
proof -
  have "case build_pure demo_env demo_signer ''stable'' ''1.0.0'' 7 no_audience demo_db of
      Inl e \<Rightarrow> False | Inr snap \<Rightarrow> ss_generated_at snap = 7000000"
    by code_simp
  then show ?thesis by (simp split: sum.splits)
qed

text \<open>
  C27: the document does not depend on the order in which the database returns rows: two
  databases with the same translations, whose tables of apps and of versions hold the same rows in
  whatever order, with no two publications of an app at one instant on the channel, give the same
  bytes.
\<close>

theorem row_order_irrelevant:
  assumes "mset (t_apps d) = mset (t_apps d')" and "mset (t_versions d) = mset (t_versions d')"
    and "t_texts d = t_texts d'"
    and "distinct (map row_key (joined_rows channel (aud_app_ids aud) d))"
  shows "build_pure E s channel platform rv aud d = build_pure E s channel platform rv aud d'"
proof -
  have rows: "catalog_rows channel (aud_app_ids aud) d = catalog_rows channel (aud_app_ids aud) d'"
    using assms(1,2,4) by (rule catalog_rows_mset)
  have texts: "texts_of i d = texts_of i d'" for i
    using assms(3) by (simp add: texts_of_def)
  show ?thesis
    unfolding build_pure_def selected_apps_def rows texts by (rule refl)
qed

theorem row_order_irrelevant_witness:
  "build_pure demo_env demo_signer ''stable'' ''1.0.0'' 7 no_audience
     (demo_db\<lparr>t_versions := rev (t_versions demo_db), t_apps := rev (t_apps demo_db)\<rparr>)
   = build_pure demo_env demo_signer ''stable'' ''1.0.0'' 7 no_audience demo_db"
proof -
  have "distinct (map row_key (joined_rows ''stable'' (aud_app_ids no_audience) demo_db))"
    by code_simp
  then show ?thesis
    by (intro row_order_irrelevant [symmetric]) simp_all
qed

section \<open>The signature\<close>

text \<open>
  C5: what is served is what was signed. A built document embeds, as they are, the bytes of the
  apps in order of their ids; its signature field decodes to the signature of the time stamp, a
  line break and those same bytes; the stamp is the document's \<open>generated_at\<close>; the ETag is the
  digest of the whole document.
\<close>

theorem signature_covers_document:
  assumes "build_pure E s channel platform rv aud d = Inr snap"
  shows "\<exists>g apps apps_json sg. selected_apps E channel platform aud d = Inr (g, apps)
    \<and> marshal_apps E (sort_key ca_id apps) = Some apps_json
    \<and> validate_catalog E apps platform = None
    \<and> ss_document snap =
        ''{'' @ json_key ''generated_at'' @ json_quote E (rfc3339 (ss_generated_at snap)) @
        '','' @ json_key ''key_id'' @ json_quote E (sg_key_id s) @
        '','' @ json_key ''apps'' @ apps_json @
        '','' @ json_key ''signature'' @ json_quote E sg @ ''}''
    \<and> std_decode sg = Some (ed_sign E (sg_private s)
        (rfc3339 (ss_generated_at snap) @ [CHR 0x0A] @ apps_json))
    \<and> ss_etag snap = CHR 0x22 # ''sha256:'' @ hex_encode (sha256 E (ss_document snap)) @ [CHR 0x22]
    \<and> ss_revision snap = rv"
proof -
  from assms obtain g apps where sel: "selected_apps E channel platform aud d = Inr (g, apps)"
    and fin: "finish E s platform rv g apps = Inr snap"
    by (auto simp: build_pure_def split: if_splits sum.splits)
  from fin obtain apps_json where j: "marshal_apps E (sort_key ca_id apps) = Some apps_json"
    and v: "validate_catalog E apps platform = None"
    by (auto simp: finish_def sign_document_def Let_def split: option.splits sum.splits)
  define sg where "sg = sign E s (rfc3339 (ss_generated_at snap)) apps_json"
  have doc: "ss_document snap = render_document E (rfc3339 (ss_generated_at snap)) (sg_key_id s) apps_json sg"
    and et: "ss_etag snap = etag_of E (ss_document snap)" and rv: "ss_revision snap = rv"
    using fin j v by (auto simp: finish_def sign_document_def Let_def sg_def)
  have "std_decode sg = Some (ed_sign E (sg_private s)
      (rfc3339 (ss_generated_at snap) @ [CHR 0x0A] @ apps_json))"
    by (simp add: sg_def sign_def signed_message_def std_decode_encode)
  with sel j v doc et rv show ?thesis
    by (intro exI [of _ g] exI [of _ apps] exI [of _ apps_json] exI [of _ sg])
      (simp add: render_document_def etag_of_def)
qed

theorem signature_covers_document_witness:
  "\<exists>snap sg. build_pure demo_env demo_signer ''stable'' ''1.0.0'' 7 no_audience demo_db = Inr snap
     \<and> std_decode sg = Some (''s'' @ ''1970-01-01T00:00:07Z'' @ [CHR 0x0A] @ ''a2'')"
proof -
  obtain snap where b: "build_pure demo_env demo_signer ''stable'' ''1.0.0'' 7 no_audience demo_db = Inr snap"
    and g: "ss_generated_at snap = 7000000"
    using demo_built by blast
  from signature_covers_document [OF b] obtain apps apps_json g0 sg where
    sel: "selected_apps demo_env ''stable'' ''1.0.0'' no_audience demo_db = Inr (g0, apps)"
    and "marshal_apps demo_env (sort_key ca_id apps) = Some apps_json"
    and sg: "std_decode sg = Some (ed_sign demo_env (sg_private demo_signer)
        (rfc3339 (ss_generated_at snap) @ [CHR 0x0A] @ apps_json))" by blast
  moreover obtain apps' where "selected_apps demo_env ''stable'' ''1.0.0'' no_audience demo_db = Inr (7000000, apps')"
    and "map ca_id apps' = [''a'']" and "map ca_version apps' = [''2'']"
    by (rule demo_selected)
  ultimately have "apps_json = ''a2''"
    by (auto simp: demo_env_def map_eq_Cons_conv)
  moreover have "rfc3339 7000000 = ''1970-01-01T00:00:07Z''" by code_simp
  ultimately show ?thesis
    using b sg g by (auto simp: demo_env_def demo_signer_def)
qed

end
