(* ===== verification/PlatformSpec.thy ===== *)
theory PlatformSpec
  imports Demo
begin

text \<open>
  The properties of platforms, their credentials and their grants
  (\<^verbatim>\<open>modules/registry/platforms.go\<close>).
\<close>

section \<open>Credentials\<close>

text \<open>
  A client that sends the token it was issued is recognised by it, however it writes the
  scheme and however many blanks surround the token.
\<close>

lemma issued_token_accepted:
  assumes "raw \<noteq> []" and "equal_fold scheme ''Bearer''"
  shows "bearer_token (scheme @ '' '' @ replicate k (CHR '' '') @ raw_url_encode raw @
      replicate j (CHR '' '')) = raw_url_encode raw"
proof -
  have "length (map ascii_lower scheme) = length (map ascii_lower ''Bearer'')"
    using assms(2) unfolding equal_fold_def by (rule arg_cong)
  then have len: "length scheme = 6" by simp
  have "map ascii_lower (scheme @ '' '') = map ascii_lower ''Bearer ''"
    using assms(2) by (simp add: equal_fold_def)
  moreover have "raw_url_encode raw \<noteq> []"
    using assms(1) length_raw_url_encode [of raw] by (cases raw) auto
  ultimately show ?thesis
    using len trim_space_blanks [OF _ raw_url_encode_solid]
    by (simp add: bearer_token_def Let_def equal_fold_def)
qed

text \<open>The row a successful registration inserts.\<close>

lemma insert_platformD:
  "insert_platform_stmt E name origin nt g actor t n d = Inr (row, d') \<Longrightarrow>
   d' = d\<lparr>t_platforms := t_platforms d @ [row]\<rparr> \<and> (\<forall>r\<in>set (t_platforms d). pl_digest r \<noteq> g)
   \<and> (\<exists>who. nullif_uuid E actor = Inr who \<and> row =
      \<lparr>pl_id = n, pl_name = name, pl_origin = origin, pl_digest = g, pl_disabled_at = None,
       pl_last_seen_at = None, pl_note = nt, pl_created_at = t, pl_created_by = who\<rparr>)"
  by (auto simp: insert_platform_stmt_def Let_def list_ex_iff split: sum.splits if_splits)

lemma create_platform_okD:
  assumes "create_platform E name origin nt actor w = (Inr (p, token), w')"
  obtains row d' where "trim_space name \<noteq> []" and "32 \<le> length (entropy w)"
    and "token = raw_url_encode (take 32 (entropy w))" and "p = scan_platform E row"
    and "insert_platform_stmt E (trim_space name) (trim_space origin) (trim_space nt)
           (token_digest E token) actor (clock (tick (w\<lparr>entropy := drop 32 (entropy w)\<rparr>)))
           (next_uuid w) (tables w) = Inr (row, d')"
    and "w' = (tick (w\<lparr>entropy := drop 32 (entropy w)\<rparr>))\<lparr>tables := d'\<rparr>"
proof -
  let ?w1 = "w\<lparr>entropy := drop 32 (entropy w)\<rparr>"
  let ?q = "\<lambda>token. insert_platform_stmt E (trim_space name) (trim_space origin) (trim_space nt)
           (token_digest E token) actor"
  have n: "trim_space name \<noteq> []" and e: "32 \<le> length (entropy w)"
    using assms by (auto simp: create_platform_def new_token_def rand_read_def andthen_apply Let_def
        split: if_splits)
  from assms n e obtain row where "stmt (?q (raw_url_encode (take 32 (entropy w)))) ?w1 = (Inr row, w')"
    and "p = scan_platform E row" and "token = raw_url_encode (take 32 (entropy w))"
    by (auto simp: create_platform_def new_token_def rand_read_def andthen_apply Let_def
        split: prod.splits sum.splits)
  with n e that show ?thesis by (auto dest!: stmt_InrD)
qed

text \<open>
  C20: a registered platform's token is 43 printable characters from 32 random bytes, and it
  authenticates as that platform and as no other: looking the token up afterwards finds the
  platform just returned, unless the look-up itself fails.
\<close>

theorem credential_roundtrip:
  assumes "create_platform E name origin nt actor w = (Inr (p, token), w')"
  shows "length token = 43 \<and> list_all solid token \<and> p_name p = trim_space name \<and> enabled p
    \<and> fst (platform_by_token E token w') \<in> {Inl ErrDriver, Inr (Some p)}
    \<and> (quiet w' \<longrightarrow> fst (platform_by_token E token w') = Inr (Some p))"
proof -
  from assms obtain row d' where l: "32 \<le> length (entropy w)"
    and t: "token = raw_url_encode (take 32 (entropy w))" and p: "p = scan_platform E row"
    and i: "insert_platform_stmt E (trim_space name) (trim_space origin) (trim_space nt)
           (token_digest E token) actor (clock (tick (w\<lparr>entropy := drop 32 (entropy w)\<rparr>)))
           (next_uuid w) (tables w) = Inr (row, d')"
    and w': "w' = (tick (w\<lparr>entropy := drop 32 (entropy w)\<rparr>))\<lparr>tables := d'\<rparr>"
    by (rule create_platform_okD)
  have len: "length token = 43" using l by (simp add: t length_raw_url_encode min_def)
  note row = insert_platformD [OF i]
  then have en: "enabled p" and nm: "p_name p = trim_space name" and g: "pl_digest row = token_digest E token"
    by (auto simp: p scan_platform_def enabled_def)
  have f: "find (\<lambda>r. pl_digest r = token_digest E token) (t_platforms (tables w')) = Some row"
  proof -
    have "find (\<lambda>r. pl_digest r = token_digest E token) (t_platforms (tables w)) = None"
      using row by (auto simp: find_None_iff)
    then show ?thesis using row g by (simp add: w' find_append)
  qed
  have "platform_by_token E token w' = (if fails w' then (Inl ErrDriver, tick w') else (Inr (Some p), tick w'))"
    using len f en by (auto simp: platform_by_token_def query_def andthen_apply p)
  with len en nm show ?thesis
    by (auto simp: t raw_url_encode_solid)
qed

lemma demo_create: "\<exists>p token w'. create_platform demo_env '' shop '' [] [] [] boot_world = (Inr (p, token), w') \<and> quiet w'"
proof -
  have "case create_platform demo_env '' shop '' [] [] [] boot_world of
      (Inl e, w') \<Rightarrow> False | (Inr (p, token), w') \<Rightarrow> sched w' = []"
    by code_simp
  then show ?thesis by (auto simp: quiet_def split: prod.splits sum.splits)
qed

theorem credential_roundtrip_witness:
  "\<exists>p token w'. create_platform demo_env '' shop '' [] [] [] boot_world = (Inr (p, token), w')
     \<and> length token = 43 \<and> fst (platform_by_token demo_env token w') = Inr (Some p)"
  using demo_create credential_roundtrip by blast

section \<open>Audiences\<close>

lemma grants_of_distinct: "wf_db n d \<Longrightarrow> distinct (grants_of u d)"
proof -
  assume "wf_db n d"
  note g = wf_dbD(5) [OF this]
  then have "inj_on gr_app (set (filter (\<lambda>g. gr_platform g = u) (t_grants d)))"
    by (auto simp: wf_grants_def distinct_map inj_on_def)
  with g show ?thesis by (simp add: grants_of_def wf_grants_def distinct_map)
qed

lemma grants_of_empty: "grants_of u d = [] \<longleftrightarrow> \<not> (\<exists>g\<in>set (t_grants d). gr_platform g = u)"
proof -
  have "sort ys = [] \<longleftrightarrow> ys = []" for ys :: "string list"
    by (metis set_empty set_sort)
  then show ?thesis by (auto simp: grants_of_def filter_empty_conv)
qed

lemma platform_by_digest:
  "wf_db n d \<Longrightarrow> r \<in> set (t_platforms d) \<Longrightarrow> pl_digest r = token_digest E token \<Longrightarrow>
   find (\<lambda>q. pl_digest q = token_digest E token) (t_platforms d) = Some r"
  by (drule wf_dbD(4)) (auto simp: wf_platforms_def intro: find_distinct_key [where key = pl_digest])

lemma audience_view_some:
  assumes "uuid_codec E" and "wf_db n d"
  shows "audience_view E token d \<noteq> no_audience \<longleftrightarrow>
    (\<exists>r\<in>set (t_platforms d). token \<noteq> [] \<and> pl_digest r = token_digest E token
       \<and> pl_disabled_at r = None \<and> grants_of (pl_id r) d \<noteq> [])"
proof (cases "find (\<lambda>q. pl_digest q = token_digest E token) (t_platforms d)")
  case None
  then have "\<forall>r\<in>set (t_platforms d). pl_digest r \<noteq> token_digest E token"
    by (auto simp: find_None_iff)
  with None show ?thesis by (auto simp: audience_view_def)
next
  case (Some r)
  then have r: "r \<in> set (t_platforms d)" "pl_digest r = token_digest E token" by (auto dest: find_SomeD)
  have q: "q = r" if "q \<in> set (t_platforms d)" and "pl_digest q = token_digest E token" for q
    using platform_by_digest [OF assms(2) that] Some by simp
  have "\<lparr>aud_platform_id = pg_uuid_text E u, aud_app_ids = gs\<rparr> \<noteq> no_audience" for u gs
    using uuid_codecD(2) [OF assms(1)] by (simp add: no_audience_def)
  then have "audience_view E token d \<noteq> no_audience \<longleftrightarrow>
      token \<noteq> [] \<and> pl_disabled_at r = None \<and> grants_of (pl_id r) d \<noteq> []"
    by (simp only: audience_view_def Some option.case) (simp split: if_splits)
  with q r show ?thesis by blast
qed

text \<open>
  C10: whose document a request gets. The audience of a token is the anonymous one unless the
  token is that of an enabled platform with grants; then it is that platform with exactly the
  apps granted to it, each once. So an unknown, disabled or grantless credential reads the same
  document as no credential at all.
\<close>

theorem audience_of_token:
  assumes "uuid_codec E" and "wf_db n (tables w)" and "audience_for E token w = (Inr aud, w')"
  shows "(aud = no_audience \<longleftrightarrow>
       \<not> (\<exists>r\<in>set (t_platforms (tables w)). token \<noteq> [] \<and> pl_digest r = token_digest E token
            \<and> pl_disabled_at r = None \<and> (\<exists>g\<in>set (t_grants (tables w)). gr_platform g = pl_id r)))
    \<and> (\<forall>r\<in>set (t_platforms (tables w)). aud \<noteq> no_audience \<and> pl_digest r = token_digest E token \<longrightarrow>
         aud_platform_id aud = pg_uuid_text E (pl_id r)
         \<and> distinct (aud_app_ids aud)
         \<and> set (aud_app_ids aud) = {gr_app g | g. g \<in> set (t_grants (tables w)) \<and> gr_platform g = pl_id r})"
proof -
  let ?d = "tables w"
  from audience_for_result [OF assms(1,3)] have aud: "aud = audience_view E token ?d" by simp
  show ?thesis
  proof (intro conjI ballI impI)
    show "aud = no_audience \<longleftrightarrow>
       \<not> (\<exists>r\<in>set (t_platforms ?d). token \<noteq> [] \<and> pl_digest r = token_digest E token
            \<and> pl_disabled_at r = None \<and> (\<exists>g\<in>set (t_grants ?d). gr_platform g = pl_id r))"
      using audience_view_some [OF assms(1,2), of token] unfolding aud grants_of_empty by blast
    fix r assume r: "r \<in> set (t_platforms ?d)"
      and a: "aud \<noteq> no_audience \<and> pl_digest r = token_digest E token"
    with platform_by_digest [OF assms(2)] have "find (\<lambda>q. pl_digest q = token_digest E token) (t_platforms ?d) = Some r"
      by blast
    with a have v: "aud = \<lparr>aud_platform_id = pg_uuid_text E (pl_id r), aud_app_ids = grants_of (pl_id r) ?d\<rparr>"
      by (auto simp: aud audience_view_def split: if_splits)
    then show "aud_platform_id aud = pg_uuid_text E (pl_id r)" and "distinct (aud_app_ids aud)"
      by (simp_all add: grants_of_distinct [OF assms(2)])
    from v show "set (aud_app_ids aud) = {gr_app g | g. g \<in> set (t_grants ?d) \<and> gr_platform g = pl_id r}"
      by (auto simp: grants_of_def)
  qed
qed

theorem audience_of_token_witness:
  "\<exists>aud w'. audience_for demo_env ''T'' demo_world = (Inr aud, w') \<and> aud \<noteq> no_audience
     \<and> set (aud_app_ids aud) = {''b''}"
proof -
  have "fst (audience_for demo_env ''T'' demo_world) = Inr (audience_view demo_env ''T'' demo_db)"
    using audience_for_quiet [OF demo_codec demo_quiet, of "''T''"] by (simp add: demo_world_def)
  then obtain w' where a: "audience_for demo_env ''T'' demo_world = (Inr (audience_view demo_env ''T'' demo_db), w')"
    by (metis prod.collapse)
  have t: "tables demo_world = demo_db" by (simp add: demo_world_def)
  from demo_wf t have "wf_db 9 (tables demo_world)" by simp
  note aud = audience_of_token [OF demo_codec this a]
  have p: "demo_platform \<in> set (t_platforms (tables demo_world))"
    and g: "set (t_grants (tables demo_world)) =
      {\<lparr>gr_app = ''b'', gr_platform = 4, gr_granted_at = 0, gr_granted_by = None\<rparr>}"
    and f: "pl_digest demo_platform = token_digest demo_env ''T''" "pl_disabled_at demo_platform = None"
      "pl_id demo_platform = 4"
    by (simp_all add: t demo_db_def empty_db_def demo_platform_def)
  then have n: "audience_view demo_env ''T'' demo_db \<noteq> no_audience"
    using aud by fastforce
  with aud p f g have "set (aud_app_ids (audience_view demo_env ''T'' demo_db)) = {''b''}"
    by fastforce
  with a n show ?thesis by blast
qed

section \<open>Granting, revoking, disabling\<close>

lemma set_grants_of: "set (grants_of u d) = {gr_app g | g. g \<in> set (t_grants d) \<and> gr_platform g = u}"
  by (auto simp: grants_of_def)

lemma set_grants_of_append:
  "set (grants_of u (d\<lparr>t_grants := t_grants d @ [g]\<rparr>)) =
     (if gr_platform g = u then insert (gr_app g) (set (grants_of u d)) else set (grants_of u d))"
  by (simp add: grants_of_def)

text \<open>
  C22: a grant that goes through names an app and a platform that exist, adds that app to that
  platform and changes no other platform; granting again changes nothing; revoking takes it away
  again. None of it changes a public document or the revision.
\<close>

theorem grant_revoke_effect:
  assumes "wf_db k d" and "grant_stmt E a p actor t n d = Inr ((), d')"
    and "revoke_stmt E a p t2 n2 d' = Inr ((), d'')"
  shows "\<exists>u. pg_uuid E p = Some u \<and> a \<in> app_ids d \<and> u \<in> platform_ids d
    \<and> set (grants_of u d') = insert a (set (grants_of u d))
    \<and> set (grants_of u d'') = set (grants_of u d) - {a}
    \<and> (\<forall>v. v \<noteq> u \<longrightarrow> grants_of v d' = grants_of v d \<and> grants_of v d'' = grants_of v d)
    \<and> grant_stmt E a p actor t3 n3 d' = Inr ((), d')
    \<and> content d'' = content d \<and> t_revision d'' = t_revision d"
proof -
  from assms(2) obtain u who where u: "pg_uuid E p = Some u" and who: "nullif_uuid E actor = Inr who"
    by (auto simp: grant_stmt_def split: option.splits sum.splits)
  have ex: "a \<in> app_ids d \<and> u \<in> platform_ids d"
    using assms(2) u who wf_dbD(5) [OF assms(1)]
    by (auto simp: grant_stmt_def list_ex_iff app_ids_def platform_ids_def wf_grants_def split: if_splits)
  have g1: "\<exists>g\<in>set (t_grants d'). gr_app g = a \<and> gr_platform g = u"
    using assms(2) u who by (auto simp: grant_stmt_def list_ex_iff split: if_splits)
  have s1: "set (grants_of u d') = insert a (set (grants_of u d))"
  proof (cases "list_ex (\<lambda>g. gr_app g = a \<and> gr_platform g = u) (t_grants d)")
    case True
    then have "a \<in> set (grants_of u d)" by (auto simp: set_grants_of list_ex_iff)
    with True assms(2) u who show ?thesis by (auto simp: grant_stmt_def)
  next
    case False
    with assms(2) u who show ?thesis
      by (auto simp: grant_stmt_def set_grants_of_append split: if_splits)
  qed
  have s2: "set (grants_of u d'') = set (grants_of u d') - {a}"
    using assms(3) u unfolding set_grants_of by (auto simp: revoke_stmt_def)
  have again: "grant_stmt E a p actor t3 n3 d' = Inr ((), d')"
    using g1 u who by (auto simp: grant_stmt_def list_ex_iff)
  obtain x y where "d' = d\<lparr>t_grants := x\<rparr>" and "d'' = d'\<lparr>t_grants := y\<rparr>"
    using assms(2,3) by (auto dest!: grant_frames)
  then have "content d'' = content d" and "t_revision d'' = t_revision d"
    by (simp_all add: content_def)
  moreover have "v \<noteq> u \<longrightarrow> grants_of v d' = grants_of v d \<and> grants_of v d'' = grants_of v d" for v
    using grant_others(1) [OF assms(2), of v] grant_others(2) [OF assms(3), of v] u by auto
  ultimately show ?thesis using u ex s1 s2 again by blast
qed

theorem grant_revoke_effect_witness:
  "\<exists>d' d''. grant_stmt demo_env ''a'' ''xxxxx'' [] 1 9 demo_db = Inr ((), d')
     \<and> revoke_stmt demo_env ''a'' ''xxxxx'' 2 9 d' = Inr ((), d'')
     \<and> set (grants_of 4 d') = {''a'', ''b''} \<and> set (grants_of 4 d'') = {''b''}"
proof -
  have u: "pg_uuid demo_env ''xxxxx'' = Some 4" by code_simp
  have "case grant_stmt demo_env ''a'' ''xxxxx'' [] 1 9 demo_db of Inl e \<Rightarrow> False | Inr _ \<Rightarrow> True"
    by code_simp
  then obtain d' where g: "grant_stmt demo_env ''a'' ''xxxxx'' [] 1 9 demo_db = Inr ((), d')"
    by (auto split: sum.splits)
  obtain d'' where r: "revoke_stmt demo_env ''a'' ''xxxxx'' 2 9 d' = Inr ((), d'')"
    using u by (simp add: revoke_stmt_def)
  have "grants_of 4 demo_db = [''b'']" by code_simp
  with grant_revoke_effect [OF demo_wf g r] g r u show ?thesis by auto
qed

lemma find_digest:
  assumes "wf_db n d" and "r \<in> set (t_platforms d)" and "pl_digest r = g"
  shows "find (\<lambda>q. pl_digest q = g) (t_platforms d) = Some r"
  using wf_dbD(4) [OF assms(1)] assms(2,3)
  by (intro find_distinct_key [where key = pl_digest]) (auto simp: wf_platforms_def)

text \<open>
  C21: disabling a platform makes its token worth no more than none at once, and enabling it
  again gives back exactly what it has been granted; other tokens are not affected.
\<close>

theorem disable_cuts_off:
  assumes "wf_db k d" and "r \<in> set (t_platforms d)" and "pg_uuid E p = Some (pl_id r)"
    and "pl_digest r = token_digest E token" and "set_enabled_stmt E p on t n d = Inr (rows, d')"
  shows "rows = 1 \<and> (\<not> on \<longrightarrow> audience_view E token d' = no_audience)
    \<and> (on \<and> token \<noteq> [] \<and> grants_of (pl_id r) d \<noteq> [] \<longrightarrow>
         audience_view E token d' = platform_audience E (pl_id r) d)
    \<and> (\<forall>other. token_digest E other \<noteq> token_digest E token \<longrightarrow>
         audience_view E other d' = audience_view E other d)"
proof -
  let ?upd = "\<lambda>r. r\<lparr>pl_disabled_at := (if on then None else Some t)\<rparr>"
  have d': "d' = d\<lparr>t_platforms := update_where (\<lambda>q. pl_id q = pl_id r) ?upd (t_platforms d)\<rparr>"
    and rows: "rows = length (filter (\<lambda>q. pl_id q = pl_id r) (t_platforms d))"
    using assms(3,5) by (simp_all add: set_enabled_stmt_def)
  have "filter (\<lambda>q. pl_id q = pl_id r) (t_platforms d) = [r]"
    using wf_dbD(4) [OF assms(1)] assms(2)
    by (intro filter_distinct_key) (auto simp: wf_platforms_def)
  then have one: "rows = 1" using rows by simp
  have find: "find (\<lambda>q. pl_digest q = g) (t_platforms d') =
      map_option (\<lambda>q. if pl_id q = pl_id r then ?upd q else q) (find (\<lambda>q. pl_digest q = g) (t_platforms d))" for g
    unfolding d' by (simp add: find_update_where_hit)
  have gs: "grants_of u d' = grants_of u d" for u by (simp add: d' grants_of_def)
  have own: "find (\<lambda>q. pl_digest q = token_digest E token) (t_platforms d) = Some r"
    using assms(1,2,4) by (rule find_digest)
  have other: "audience_view E other d' = audience_view E other d"
    if o: "token_digest E other \<noteq> token_digest E token" for other
  proof (cases "find (\<lambda>q. pl_digest q = token_digest E other) (t_platforms d)")
    case None
    then show ?thesis by (simp add: audience_view_def find)
  next
    case (Some q)
    then have "q \<in> set (t_platforms d)" and "pl_digest q = token_digest E other"
      by (auto dest: find_SomeD)
    with o assms(4) have "q \<noteq> r" by auto
    with \<open>q \<in> set (t_platforms d)\<close> assms(2) wf_dbD(4) [OF assms(1)] have "pl_id q \<noteq> pl_id r"
      by (auto simp: wf_platforms_def distinct_map inj_on_def)
    with Some show ?thesis by (simp add: audience_view_def find gs)
  qed
  show ?thesis
    using one other own by (auto simp: audience_view_def find gs platform_audience_def)
qed

theorem disable_cuts_off_witness:
  "\<exists>d'. set_enabled_stmt demo_env ''xxxxx'' False 1 9 demo_db = Inr (1, d')
     \<and> audience_view demo_env ''T'' demo_db \<noteq> no_audience
     \<and> audience_view demo_env ''T'' d' = no_audience"
proof -
  have r: "demo_platform \<in> set (t_platforms demo_db)" "pl_digest demo_platform = token_digest demo_env ''T''"
    and u: "pg_uuid demo_env ''xxxxx'' = Some (pl_id demo_platform)"
    by (simp_all add: demo_db_def empty_db_def demo_platform_def demo_env_def demo_uuid_def)
  then obtain rows d' where s: "set_enabled_stmt demo_env ''xxxxx'' False 1 9 demo_db = Inr (rows, d')"
    by (simp add: set_enabled_stmt_def)
  have "audience_view demo_env ''T'' demo_db \<noteq> no_audience" by code_simp
  with disable_cuts_off [OF demo_wf r(1) u r(2) s] s show ?thesis by auto
qed

end
