(* ===== verification/Transactions.thy ===== *)
theory Transactions
  imports Frames
begin

text \<open>
  The abstract meaning of the store's two catalogue transactions: one function on the tables,
  applied at the instant the transaction began, or nothing at all. \<open>runs\<close> is the simulation
  between the sequence of statements and that function; \<open>upsert_app_pure\<close> and \<open>decide_pure\<close> are
  the specifications, and the two refinement lemmas hold for every schedule of driver calls.
\<close>

section \<open>Statements inside a transaction\<close>

fun agrees :: "err + 'a \<times> database \<Rightarrow> err + 'a \<Rightarrow> database \<Rightarrow> bool" where
  "agrees (Inl e) r d \<longleftrightarrow> r = Inl e"
| "agrees (Inr (x, d')) r d \<longleftrightarrow> r = Inr x \<and> d = d'"

definition runs :: "time \<Rightarrow> 'a act \<Rightarrow> (database \<Rightarrow> err + 'a \<times> database) \<Rightarrow> bool" where
  "runs t m f \<longleftrightarrow> (\<forall>w. tx_start w = Some t \<longrightarrow> tx_start (snd (m w)) = Some t \<and>
     (fst (m w) = Inl ErrDriver \<and> \<not> quiet w \<or>
      agrees (f (tables w)) (fst (m w)) (tables (snd (m w)))))"

definition seq_pure ::
  "(database \<Rightarrow> err + 'a \<times> database) \<Rightarrow> ('a \<Rightarrow> database \<Rightarrow> err + 'b \<times> database) \<Rightarrow>
   database \<Rightarrow> err + 'b \<times> database" where
  "seq_pure f g d = (case f d of Inl e \<Rightarrow> Inl e | Inr (x, d') \<Rightarrow> g x d')"

fun each_pure :: "('a \<Rightarrow> database \<Rightarrow> err + 'b \<times> database) \<Rightarrow> 'a list \<Rightarrow> database \<Rightarrow> err + 'b list \<times> database" where
  "each_pure f [] d = Inr ([], d)"
| "each_pure f (x # xs) d =
     seq_pure (f x) (\<lambda>y. seq_pure (each_pure f xs) (\<lambda>ys d. Inr (y # ys, d))) d"

lemma runsI:
  assumes "\<And>w. tx_start w = Some t \<Longrightarrow> tx_start (snd (m w)) = Some t"
    and "\<And>w. tx_start w = Some t \<Longrightarrow> fst (m w) = Inl ErrDriver \<and> \<not> quiet w \<or>
      agrees (f (tables w)) (fst (m w)) (tables (snd (m w)))"
  shows "runs t m f"
  using assms by (simp add: runs_def)

lemma runsD:
  assumes "runs t m f" and "tx_start w = Some t" and "m w = (r, w')"
  shows "tx_start w' = Some t" and "r = Inl ErrDriver \<and> \<not> quiet w \<or>
      agrees (f (tables w)) r (tables w')"
  using assms(1) [unfolded runs_def, THEN spec, of w] assms(2,3) by simp_all

lemma runs_stmt:
  assumes "\<And>n d. q t n d = f d"
  shows "runs t (stmt q) f"
  by (rule runsI) (auto simp: stmt_def Let_def clock_def assms split: sum.split prod.split)

lemma runs_read: "runs t (query (\<lambda>d. Inr (g d))) (\<lambda>d. Inr (g d, d))"
  by (rule runsI) (auto simp: query_def)

lemma runs_ok: "runs t (ok x) (\<lambda>d. Inr (x, d))" "runs t (fail e) (\<lambda>d. Inl e)"
  by (rule runsI; simp)+

lemma runs_if: "runs t m f \<Longrightarrow> runs t m' f' \<Longrightarrow> runs t (if b then m else m') (\<lambda>d. if b then f d else f' d)"
  by simp

lemma runs_andthen:
  assumes "runs t m f" and "keeps quiet m" and "\<And>x. runs t (k x) (g x)"
  shows "runs t (andthen m k) (seq_pure f g)"
  unfolding runs_def
proof (intro allI impI)
  fix w :: world assume w: "tx_start w = Some t"
  obtain r w1 where m: "m w = (r, w1)" by fastforce
  note t1 = runsD(1) [OF assms(1) w m] and f = runsD(2) [OF assms(1) w m]
  show "tx_start (snd (andthen m k w)) = Some t \<and>
     (fst (andthen m k w) = Inl ErrDriver \<and> \<not> quiet w \<or>
      agrees (seq_pure f g (tables w)) (fst (andthen m k w)) (tables (snd (andthen m k w))))"
  proof (cases r)
    case (Inl e)
    with f consider "e = ErrDriver" "\<not> quiet w" | "f (tables w) = Inl e"
      by (cases "f (tables w)") auto
    then show ?thesis
      using m t1 Inl by cases (auto simp: andthen_def seq_pure_def)
  next
    case (Inr x)
    with f have fx: "f (tables w) = Inr (x, tables w1)"
      by (cases "f (tables w)") auto
    have q: "quiet w1" if "quiet w" using keepsD [OF assms(2) that] m by simp
    obtain r2 w2 where k: "k x w1 = (r2, w2)" by fastforce
    note k1 = runsD(1) [OF assms(3) t1 k] and k2 = runsD(2) [OF assms(3) t1 k]
    have "andthen m k w = (r2, w2)" using m Inr k by simp
    with k1 k2 fx q show ?thesis
      by (auto simp: seq_pure_def)
  qed
qed

lemma runs_for_each:
  assumes "\<And>x. runs t (m x) (f x)" and "\<And>x. keeps quiet (m x)"
  shows "runs t (for_each m xs) (each_pure f xs)"
proof (induction xs)
  case Nil
  show ?case by (rule runsI) simp_all
next
  case (Cons x xs)
  have "runs t (andthen (m x) (\<lambda>y. andthen (for_each m xs) (\<lambda>ys. ok (y # ys))))
      (seq_pure (f x) (\<lambda>y. seq_pure (each_pure f xs) (\<lambda>ys d. Inr (y # ys, d))))"
    by (intro runs_andthen assms Cons.IH runs_ok keeps_for_each)
  then show ?case by (simp add: runs_def)
qed

text \<open>A statement whose unique violation becomes the store's conflict.\<close>

lemma runs_conflict:
  assumes "\<And>n d. q t n d = f d"
  shows "runs t (attempt (stmt q) (\<lambda>r. case r of Inl e \<Rightarrow> fail (conflict_error e) | Inr x \<Rightarrow> ok x))
    (\<lambda>d. case f d of Inl e \<Rightarrow> Inl (conflict_error e) | Inr y \<Rightarrow> Inr y)"
  by (rule runsI)
    (auto simp: stmt_def attempt_def Let_def clock_def assms conflict_error_def is_unique_violation_def
      split: sum.split)

lemma transaction_runs:
  assumes "\<And>t. runs t body (f t)" and "keeps quiet body"
  shows "(fst (transaction body w) = Inl ErrDriver \<and> \<not> quiet w \<and> tables (snd (transaction body w)) = tables w)
    \<or> agrees (f (now (tick w)) (tables w)) (fst (transaction body w)) (tables (snd (transaction body w)))
       \<and> ((\<exists>e. fst (transaction body w) = Inl e) \<longrightarrow> tables (snd (transaction body w)) = tables w)"
proof (cases "fails w")
  case True
  then show ?thesis by (auto simp: transaction_def)
next
  case False
  define w1 where "w1 = (tick w)\<lparr>tx_start := Some (now (tick w))\<rparr>"
  obtain r w2 where b: "body w1 = (r, w2)" by fastforce
  have q: "quiet w2" if "quiet w"
    using that keepsD [OF assms(2), of w1] b by (simp add: w1_def)
  have "tx_start w1 = Some (now (tick w))" and t1: "tables w1 = tables w" by (simp_all add: w1_def)
  from runsD(2) [OF assms(1) this(1) b] t1
  have f: "r = Inl ErrDriver \<and> \<not> quiet w1 \<or> agrees (f (now (tick w)) (tables w)) r (tables w2)"
    by simp
  have q1: "quiet w1" if "quiet w" using that by (simp add: w1_def)
  show ?thesis
  proof (cases r)
    case (Inl e)
    with f consider "e = ErrDriver" "\<not> quiet w1" | "f (now (tick w)) (tables w) = Inl e"
      by (cases "f (now (tick w)) (tables w)") auto
    then show ?thesis
      using Inl q1 False b by cases (auto simp: transaction_def Let_def w1_def [symmetric])
  next
    case (Inr x)
    with f have "f (now (tick w)) (tables w) = Inr (x, tables w2)"
      by (cases "f (now (tick w)) (tables w)") auto
    with Inr q False b show ?thesis
      by (auto simp: transaction_def Let_def w1_def [symmetric])
  qed
qed

section \<open>Registering an app\<close>

definition bump_pure :: "database \<Rightarrow> err + unit \<times> database" where
  "bump_pure d = Inr ((), d\<lparr>t_revision := map_option (\<lambda>r. r + 1) (t_revision d)\<rparr>)"

definition upsert_app_pure ::
  "env \<Rightarrow> app \<Rightarrow> (string \<times> app_text) list \<Rightarrow> time \<Rightarrow> database \<Rightarrow> err + unit \<times> database" where
  "upsert_app_pure E a texts t =
     seq_pure
       (\<lambda>d. Inr (map_option (\<lambda>r. pg_uuid_text E (app_publisher r))
                  (find (\<lambda>r. app_id r = a_id a) (t_apps d)), d))
       (\<lambda>owner d.
         if owner \<noteq> None \<and> owner \<noteq> Some (a_publisher_id a) then Inl ErrConflict
         else seq_pure
           (\<lambda>d. case upsert_app_stmt E a t 0 d of Inl e \<Rightarrow> Inl (conflict_error e) | Inr y \<Rightarrow> Inr y)
           (\<lambda>_. seq_pure (each_pure (\<lambda>lt. upsert_text_stmt (a_id a) lt t 0) texts) (\<lambda>_. bump_pure)) d)"

lemma runs_bump: "runs t bump_revision bump_pure"
  unfolding bump_revision_def by (rule runs_stmt) (simp add: bump_stmt_def bump_pure_def)

lemma upsert_app_refines:
  "(fst (upsert_app E a texts w) = Inl ErrDriver \<and> \<not> quiet w \<and> tables (snd (upsert_app E a texts w)) = tables w)
   \<or> agrees (upsert_app_pure E a texts (now (tick w)) (tables w)) (fst (upsert_app E a texts w))
        (tables (snd (upsert_app E a texts w)))
     \<and> ((\<exists>e. fst (upsert_app E a texts w) = Inl e) \<longrightarrow> tables (snd (upsert_app E a texts w)) = tables w)"
  unfolding upsert_app_def
proof (rule transaction_runs)
  show "runs t (andthen (app_owner E (a_id a))
         (\<lambda>owner. if owner \<noteq> None \<and> owner \<noteq> Some (a_publisher_id a) then fail ErrConflict
           else andthen
             (attempt (stmt (upsert_app_stmt E a))
               (\<lambda>r. case r of Inl e \<Rightarrow> fail (conflict_error e) | Inr u \<Rightarrow> ok u))
             (\<lambda>_. andthen (for_each (\<lambda>lt. stmt (upsert_text_stmt (a_id a) lt)) texts)
               (\<lambda>_. bump_revision)))) (upsert_app_pure E a texts t)" for t
    unfolding upsert_app_pure_def app_owner_def
    by (intro runs_andthen runs_if runs_ok runs_bump runs_for_each runs_conflict runs_stmt
        runs_read keeps_intros; simp add: upsert_app_stmt_def upsert_text_stmt_def)
  show "keeps quiet (andthen (app_owner E (a_id a))
         (\<lambda>owner. if owner \<noteq> None \<and> owner \<noteq> Some (a_publisher_id a) then fail ErrConflict
           else andthen
             (attempt (stmt (upsert_app_stmt E a))
               (\<lambda>r. case r of Inl e \<Rightarrow> fail (conflict_error e) | Inr u \<Rightarrow> ok u))
             (\<lambda>_. andthen (for_each (\<lambda>lt. stmt (upsert_text_stmt (a_id a) lt)) texts)
               (\<lambda>_. bump_revision))))"
    unfolding app_owner_def bump_revision_def by (intro keeps_intros)
qed

section \<open>Deciding\<close>

definition decide_pure ::
  "env \<Rightarrow> string \<Rightarrow> string \<Rightarrow> string \<Rightarrow> string \<Rightarrow> string \<Rightarrow> time \<Rightarrow> database \<Rightarrow> err + unit \<times> database" where
  "decide_pure E vid action aid actor nt t =
     (\<lambda>d. case status_of_action action of
        None \<Rightarrow> Inl (ErrMsg (''unknown review action '' @ quoted action))
      | Some status \<Rightarrow>
          seq_pure (decide_stmt E vid status nt t 0)
            (\<lambda>rows d. if rows = 0 then Inl ErrNotFound
              else seq_pure
                (\<lambda>d. if status = ''published'' then provenance_stmt E vid aid t 0 d else Inr ((), d))
                (\<lambda>_. seq_pure (insert_event_stmt E vid aid actor action nt t 0) (\<lambda>_. bump_pure)) d) d)"

lemma decide_refines_transaction:
  assumes "status_of_action action = Some status"
  shows "(fst (decide_version E vid action aid actor nt w) = Inl ErrDriver \<and> \<not> quiet w
      \<and> tables (snd (decide_version E vid action aid actor nt w)) = tables w)
   \<or> agrees (decide_pure E vid action aid actor nt (now (tick w)) (tables w))
        (fst (decide_version E vid action aid actor nt w))
        (tables (snd (decide_version E vid action aid actor nt w)))
     \<and> ((\<exists>e. fst (decide_version E vid action aid actor nt w) = Inl e) \<longrightarrow>
          tables (snd (decide_version E vid action aid actor nt w)) = tables w)"
  unfolding decide_version_def decide_pure_def assms option.case
proof (rule transaction_runs)
  show "runs t (andthen (stmt (decide_stmt E vid status nt))
      (\<lambda>rows. if rows = 0 then fail ErrNotFound
        else andthen
          (if status = ''published'' then stmt (provenance_stmt E vid aid) else ok ())
          (\<lambda>_. andthen (stmt (insert_event_stmt E vid aid actor action nt)) (\<lambda>_. bump_revision))))
     (seq_pure (decide_stmt E vid status nt t 0)
            (\<lambda>rows d. if rows = 0 then Inl ErrNotFound
              else seq_pure
                (\<lambda>d. if status = ''published'' then provenance_stmt E vid aid t 0 d else Inr ((), d))
                (\<lambda>_. seq_pure (insert_event_stmt E vid aid actor action nt t 0) (\<lambda>_. bump_pure)) d))" for t
    by (intro runs_andthen runs_if runs_ok runs_bump runs_stmt keeps_intros;
        simp add: decide_stmt_def provenance_stmt_def insert_event_stmt_def)
  show "keeps quiet (andthen (stmt (decide_stmt E vid status nt))
      (\<lambda>rows. if rows = 0 then fail ErrNotFound
        else andthen
          (if status = ''published'' then stmt (provenance_stmt E vid aid) else ok ())
          (\<lambda>_. andthen (stmt (insert_event_stmt E vid aid actor action nt)) (\<lambda>_. bump_revision))))"
    unfolding bump_revision_def by (intro keeps_intros)
qed

lemma decide_refines:
  "(fst (decide_version E vid action aid actor nt w) = Inl ErrDriver \<and> \<not> quiet w
      \<and> tables (snd (decide_version E vid action aid actor nt w)) = tables w)
   \<or> agrees (decide_pure E vid action aid actor nt (now (tick w)) (tables w))
        (fst (decide_version E vid action aid actor nt w))
        (tables (snd (decide_version E vid action aid actor nt w)))
     \<and> ((\<exists>e. fst (decide_version E vid action aid actor nt w) = Inl e) \<longrightarrow>
          tables (snd (decide_version E vid action aid actor nt w)) = tables w)"
proof (cases "status_of_action action")
  case None
  then show ?thesis by (simp add: decide_version_def decide_pure_def)
qed (rule decide_refines_transaction)

lemma decide_okD:
  "decide_version E vid action aid actor nt w = (Inr (), w') \<Longrightarrow>
   decide_pure E vid action aid actor nt (now (tick w)) (tables w) = Inr ((), tables w')"
  using decide_refines [of E vid action aid actor nt w]
  by (cases "decide_pure E vid action aid actor nt (now (tick w)) (tables w)") auto

lemma upsert_app_okD:
  "upsert_app E a texts w = (Inr (), w') \<Longrightarrow>
   upsert_app_pure E a texts (now (tick w)) (tables w) = Inr ((), tables w')"
  using upsert_app_refines [of E a texts w]
  by (cases "upsert_app_pure E a texts (now (tick w)) (tables w)") auto

text \<open>The specification of a decision, written out.\<close>

definition decided_row :: "string \<Rightarrow> string \<Rightarrow> time \<Rightarrow> version_row \<Rightarrow> version_row" where
  "decided_row status nt t r =
     r\<lparr>ver_status := status, ver_note := nt,
       ver_published_at := (if status = ''published'' then Some t else ver_published_at r)\<rparr>"

lemma decide_pure_okD:
  assumes "decide_pure E vid action aid actor nt t d = Inr ((), d')"
  obtains status u who where "status_of_action action = Some status" and "pg_uuid E vid = Some u"
    and "nullif_uuid E aid = Inr who" and "\<exists>r\<in>set (t_versions d). ver_id r = u"
    and "t_versions d' = update_where (\<lambda>r. ver_id r = u) (decided_row status nt t) (t_versions d)"
    and "t_events d' = t_events d @ [\<lparr>ev_version = u, ev_actor_id = who, ev_actor = actor,
           ev_action = action, ev_note = nt, ev_created_at = t\<rparr>]"
    and "t_revision d' = map_option (\<lambda>r. r + 1) (t_revision d)"
    and "t_apps d' = (case find (\<lambda>r. ver_id r = u) (t_versions d') of
           Some v \<Rightarrow> if status = ''published''
             then update_where (\<lambda>a. app_id a = ver_app v) (take_provenance E (ver_manifest v) who t) (t_apps d)
             else t_apps d
         | None \<Rightarrow> t_apps d)"
    and "t_snapshots d' = t_snapshots d" and "t_private d' = t_private d" and "t_grants d' = t_grants d"
    and "t_publishers d' = t_publishers d" and "t_platforms d' = t_platforms d"
    and "t_texts d' = t_texts d" and "t_externals d' = t_externals d"
proof -
  from assms obtain status where st: "status_of_action action = Some status"
    by (cases "status_of_action action") (simp_all add: decide_pure_def del: status_of_action.simps)
  let ?next = "\<lambda>d. if status = ''published'' then provenance_stmt E vid aid t 0 d else Inr ((), d)"
  let ?event = "insert_event_stmt E vid aid actor action nt t 0"
  from assms have run: "seq_pure (decide_stmt E vid status nt t 0)
            (\<lambda>rows d. if rows = 0 then Inl ErrNotFound
              else seq_pure ?next (\<lambda>_. seq_pure ?event (\<lambda>_. bump_pure)) d) d = Inr ((), d')"
    unfolding decide_pure_def st option.case .
  from run obtain u where u: "pg_uuid E vid = Some u"
    by (cases "pg_uuid E vid") (simp_all add: seq_pure_def decide_stmt_def)
  define V where "V = update_where (\<lambda>r. ver_id r = u) (decided_row status nt t) (t_versions d)"
  have dec: "decide_stmt E vid status nt t 0 d =
      Inr (length (filter (\<lambda>r. ver_id r = u) (t_versions d)), d\<lparr>t_versions := V\<rparr>)"
    by (simp add: decide_stmt_def u V_def decided_row_def [abs_def])
  from run dec have ex: "\<exists>r\<in>set (t_versions d). ver_id r = u"
    and rest: "seq_pure ?next (\<lambda>_. seq_pure ?event (\<lambda>_. bump_pure)) (d\<lparr>t_versions := V\<rparr>) = Inr ((), d')"
    by (auto simp: seq_pure_def filter_empty_conv split: if_splits)
  have "\<exists>who. nullif_uuid E aid = Inr who"
  proof (cases "nullif_uuid E aid")
    case (Inl e)
    then have "?event d0 = Inl ErrDriver" for d0 by (simp add: insert_event_stmt_def u)
    with rest show ?thesis by (simp add: seq_pure_def split: sum.splits prod.splits)
  qed simp
  then obtain who where who: "nullif_uuid E aid = Inr who" ..
  define A where "A = (case find (\<lambda>r. ver_id r = u) V of
           Some v \<Rightarrow> if status = ''published''
             then update_where (\<lambda>a. app_id a = ver_app v) (take_provenance E (ver_manifest v) who t) (t_apps d)
             else t_apps d
         | None \<Rightarrow> t_apps d)"
  have "?next (d\<lparr>t_versions := V\<rparr>) = Inr ((), d\<lparr>t_versions := V, t_apps := A\<rparr>)"
    by (simp add: provenance_stmt_def u who A_def split: option.split)
  with rest have d': "d' = d\<lparr>t_versions := V, t_apps := A,
      t_events := t_events d @ [\<lparr>ev_version = u, ev_actor_id = who, ev_actor = actor,
           ev_action = action, ev_note = nt, ev_created_at = t\<rparr>],
      t_revision := map_option (\<lambda>r. r + 1) (t_revision d)\<rparr>"
    by (simp add: seq_pure_def insert_event_stmt_def u who bump_pure_def)
  show ?thesis
    by (rule that [OF st u who ex]) (simp_all add: d' V_def A_def)
qed

end
