(* ===== verification/StoreSpec.thy ===== *)
theory StoreSpec
  imports Demo Transactions
begin

text \<open>
  The properties of the store (\<^verbatim>\<open>modules/registry/store.go\<close>): who owns an app, what a submission
  and a decision do, and what their errors leave behind.
\<close>

section \<open>Ownership\<close>

text \<open>
  \<open>owners_kept\<close>: every app that was there is there still, with the same publisher. Two rows of
  one id do not occur (\<open>wf_db\<close>), so this fixes the owner of every id.
\<close>

definition owners_kept :: "database \<Rightarrow> database \<Rightarrow> bool" where
  "owners_kept d d' \<longleftrightarrow>
     (\<lambda>a. (app_id a, app_publisher a)) ` set (t_apps d) \<subseteq>
     (\<lambda>a. (app_id a, app_publisher a)) ` set (t_apps d')"

lemma owners_same_apps: "t_apps d' = t_apps d \<Longrightarrow> owners_kept d0 d \<Longrightarrow> owners_kept d0 d'"
  by (simp add: owners_kept_def)

lemma owners_app_stmt: "upsert_app_stmt E a t n d = Inr (x, d') \<Longrightarrow> owners_kept d0 d \<Longrightarrow> owners_kept d0 d'"
proof -
  assume "upsert_app_stmt E a t n d = Inr (x, d')" and kept: "owners_kept d0 d"
  then obtain new where "d' = d\<lparr>t_apps := upsert (\<lambda>r. app_id r = a_id a) new (app_update a t) (t_apps d)\<rparr>"
    by (auto simp: upsert_app_stmt_def split: option.splits if_splits)
  with kept show ?thesis
    unfolding owners_kept_def
    by (simp add: subset_trans [OF _ upsert_ids [where key = "\<lambda>a. (app_id a, app_publisher a)"]] app_update_def)
qed

lemma owners_provenance:
  "provenance_stmt E v aid t n d = Inr (x, d') \<Longrightarrow> owners_kept d0 d \<Longrightarrow> owners_kept d0 d'"
  unfolding owners_kept_def
  by (auto simp: provenance_stmt_def ids_kept [where key = "\<lambda>a. (app_id a, app_publisher a)"]
      take_provenance_def split: option.splits sum.splits)

interpretation owners: statement_closed E "\<lambda>w. owners_kept d (tables w)" for E d
proof unfold_locales
  show "keeps (\<lambda>w. owners_kept d (tables w)) (stmt (upsert_app_stmt E a))" for a
    by (rule keeps_stmt_tables) (rule owners_app_stmt)
  show "keeps (\<lambda>w. owners_kept d (tables w)) (stmt (provenance_stmt E v aid))" for v aid
    by (rule keeps_stmt_tables) (rule owners_provenance)
qed (simp_all add: discard_snapshots_def,
    (rule keeps_stmt_tables, (drule frame)?, auto intro: owners_same_apps)+)

text \<open>
  No request of any of the three modules transfers an app to another publisher or removes
  it, whichever driver calls fail on the way.
\<close>

lemma app_owner_fixed:
  assumes "uuid_codec E" and "a \<in> set (t_apps (tables w))"
  shows "\<exists>a'\<in>set (t_apps (tables (perform E m c w))).
    app_id a' = app_id a \<and> app_publisher a' = app_publisher a"
proof -
  have "owners_kept (tables w) (tables (perform E m c w))"
    using perform_keeps [OF owners.operations_axioms assms(1), of m "tables w" w c]
    by (simp add: owners_kept_def)
  with assms(2) show ?thesis unfolding owners_kept_def by fastforce
qed

section \<open>Registering an app\<close>

lemma texts_written:
  assumes "each_pure (\<lambda>lt. upsert_text_stmt i lt t n) texts d = Inr (ys, d')"
  shows "(\<exists>v. d' = d\<lparr>t_texts := v\<rparr>) \<and>
    (l \<notin> fst ` set texts \<longrightarrow>
      find (\<lambda>r. tx_app r = i \<and> tx_locale r = l) (t_texts d') = find (\<lambda>r. tx_app r = i \<and> tx_locale r = l) (t_texts d)) \<and>
    (distinct (map fst texts) \<and> (l, x) \<in> set texts \<longrightarrow>
      map_option tx_text (find (\<lambda>r. tx_app r = i \<and> tx_locale r = l) (t_texts d')) = Some x)"
  using assms
proof (induction texts arbitrary: d ys)
  case Nil
  then show ?case by (auto intro: exI [of _ "t_texts d"])
next
  case (Cons lt texts)
  let ?hit = "\<lambda>l r. tx_app r = i \<and> tx_locale r = l"
  obtain k v where lt: "lt = (k, v)" by fastforce
  let ?new = "\<lparr>tx_app = i, tx_locale = k, tx_text = v\<rparr>"
  define d1 where "d1 = d\<lparr>t_texts := upsert (?hit k) ?new (\<lambda>r. r\<lparr>tx_text := v\<rparr>) (t_texts d)\<rparr>"
  have s: "upsert_text_stmt i lt t n d = Inr ((), d1)"
    by (simp add: upsert_text_stmt_def lt d1_def)
  with Cons.prems obtain zs where "each_pure (\<lambda>lt. upsert_text_stmt i lt t n) texts d1 = Inr (zs, d')"
    by (auto simp: seq_pure_def split: sum.splits)
  note ih = Cons.IH [OF this]
  have other: "find (?hit l) (t_texts d1) = find (?hit l) (t_texts d)" if "l \<noteq> k"
  proof -
    have "find (?hit l) (upsert (?hit k) ?new (\<lambda>r. r\<lparr>tx_text := v\<rparr>) (t_texts d)) = find (?hit l) (t_texts d)"
      by (rule find_upsert_other) (use that in auto)
    then show ?thesis by (simp add: d1_def)
  qed
  have own: "map_option tx_text (find (?hit k) (t_texts d1)) = Some v"
    unfolding d1_def by (simp add: find_upsert split: option.split)
  show ?case
  proof (intro conjI impI)
    from ih show "\<exists>v. d' = d\<lparr>t_texts := v\<rparr>" by (auto simp: d1_def)
    show "find (?hit l) (t_texts d') = find (?hit l) (t_texts d)" if "l \<notin> fst ` set (lt # texts)"
      using that ih other by (simp add: lt)
    assume a: "distinct (map fst (lt # texts)) \<and> (l, x) \<in> set (lt # texts)"
    show "map_option tx_text (find (?hit l) (t_texts d')) = Some x"
    proof (cases "l = k")
      case True
      with a have "x = v" and "k \<notin> fst ` set texts" by (force simp: lt)+
      with True ih own show ?thesis by simp
    next
      case False
      with a have "distinct (map fst texts) \<and> (l, x) \<in> set texts" by (simp add: lt)
      with ih show ?thesis by blast
    qed
  qed
qed

lemma texts_of_find:
  "map_of (texts_of i d) l = map_option tx_text (find (\<lambda>r. tx_app r = i \<and> tx_locale r = l) (t_texts d))"
proof -
  have "map_of (map (\<lambda>r. (tx_locale r, tx_text r)) (filter (\<lambda>r. tx_app r = i) ts)) l =
      map_option tx_text (find (\<lambda>r. tx_app r = i \<and> tx_locale r = l) ts)" for ts
    by (induction ts) auto
  then show ?thesis by (simp add: texts_of_def)
qed

lemma upsert_app_pureD:
  assumes "upsert_app_pure E a texts t d = Inr ((), d')"
  obtains publisher d1 ys where "pg_uuid E (a_publisher_id a) = Some publisher"
    and "\<forall>r. find (\<lambda>r. app_id r = a_id a) (t_apps d) = Some r \<longrightarrow> pg_uuid_text E (app_publisher r) = a_publisher_id a"
    and "d1 = d\<lparr>t_apps := upsert (\<lambda>r. app_id r = a_id a) (app_insert E a publisher t) (app_update a t) (t_apps d)\<rparr>"
    and "each_pure (\<lambda>lt. upsert_text_stmt (a_id a) lt t 0) texts d1 = Inr (ys, d'\<lparr>t_revision := t_revision d\<rparr>)"
    and "t_revision d' = map_option (\<lambda>r. r + 1) (t_revision d)"
proof -
  let ?find = "find (\<lambda>r. app_id r = a_id a) (t_apps d)"
  let ?texts = "each_pure (\<lambda>lt. upsert_text_stmt (a_id a) lt t 0) texts"
  from assms have own: "\<forall>r. ?find = Some r \<longrightarrow> pg_uuid_text E (app_publisher r) = a_publisher_id a"
    and run: "seq_pure
           (\<lambda>d. case upsert_app_stmt E a t 0 d of Inl e \<Rightarrow> Inl (conflict_error e) | Inr y \<Rightarrow> Inr y)
           (\<lambda>_. seq_pure ?texts (\<lambda>_. bump_pure)) d = Inr ((), d')"
    by (auto simp: upsert_app_pure_def seq_pure_def [of "\<lambda>d. Inr (f d, d)" for f] split: if_splits)
  from run obtain d1 where s: "upsert_app_stmt E a t 0 d = Inr ((), d1)"
    and rest: "seq_pure ?texts (\<lambda>_. bump_pure) d1 = Inr ((), d')"
    by (auto simp: seq_pure_def [of "\<lambda>d. case upsert_app_stmt E a t 0 d of Inl e \<Rightarrow> Inl (conflict_error e) | Inr y \<Rightarrow> Inr y"]
        split: sum.splits)
  from s obtain publisher where p: "pg_uuid E (a_publisher_id a) = Some publisher"
    and d1: "d1 = d\<lparr>t_apps := upsert (\<lambda>r. app_id r = a_id a) (app_insert E a publisher t) (app_update a t) (t_apps d)\<rparr>"
    by (auto simp: upsert_app_stmt_def split: option.splits if_splits)
  from rest obtain ys d2 where e: "?texts d1 = Inr (ys, d2)" and b: "bump_pure d2 = Inr ((), d')"
    by (auto simp: seq_pure_def split: sum.splits)
  from texts_written [OF e, of "[]" undefined] obtain v where "d2 = d1\<lparr>t_texts := v\<rparr>" by blast
  then have "t_revision d2 = t_revision d" by (simp add: d1)
  with b have "d'\<lparr>t_revision := t_revision d\<rparr> = d2" and "t_revision d' = map_option (\<lambda>r. r + 1) (t_revision d)"
    by (auto simp: bump_pure_def)
  with that [OF p own d1] e show ?thesis by simp
qed

text \<open>What a registration that went through has written.\<close>

lemma saved_app_row:
  assumes "uuid_codec E" and "pg_uuid E (a_publisher_id a) = Some publisher"
    and "\<forall>r. find (\<lambda>r. app_id r = a_id a) rows = Some r \<longrightarrow> pg_uuid_text E (app_publisher r) = a_publisher_id a"
  shows "\<exists>r\<in>set (upsert (\<lambda>r. app_id r = a_id a) (app_insert E a publisher t) (app_update a t) rows).
    app_id r = a_id a \<and> app_slug r = a_slug a \<and> app_type r = a_type a
    \<and> app_name r = a_name a \<and> app_description r = a_description a \<and> app_icon_url r = a_icon_url a
    \<and> app_category r = a_category a \<and> app_visibility r = a_visibility a
    \<and> pg_uuid E (a_publisher_id a) = Some (app_publisher r)"
proof -
  let ?r = "case find (\<lambda>r. app_id r = a_id a) rows of None \<Rightarrow> app_insert E a publisher t | Some r \<Rightarrow> app_update a t r"
  have "find (\<lambda>r. app_id r = a_id a) (upsert (\<lambda>r. app_id r = a_id a) (app_insert E a publisher t) (app_update a t) rows) = Some ?r"
    by (rule find_upsert) (simp_all add: app_update_def app_insert_def)
  then have in_set: "?r \<in> set (upsert (\<lambda>r. app_id r = a_id a) (app_insert E a publisher t) (app_update a t) rows)"
    and "app_id ?r = a_id a" by (auto dest: find_SomeD)
  moreover have "pg_uuid E (a_publisher_id a) = Some (app_publisher ?r)"
  proof (cases "find (\<lambda>r. app_id r = a_id a) rows")
    case None
    with assms(2) show ?thesis by (simp add: app_insert_def app_update_def)
  next
    case (Some r)
    with assms(3) have "pg_uuid_text E (app_publisher r) = a_publisher_id a" by simp
    from uuid_codecD(1) [OF assms(1), of "app_publisher r", unfolded this] Some
    show ?thesis by (simp add: app_update_def)
  qed
  ultimately show ?thesis
    by (intro bexI [OF _ in_set]) (auto simp: app_insert_def app_update_def split: option.split)
qed

lemma upsert_app_writes:
  assumes "uuid_codec E" and "upsert_app E a texts w = (Inr (), w')"
  obtains publisher t d1 ys where "pg_uuid E (a_publisher_id a) = Some publisher"
    and "d1 = (tables w)\<lparr>t_apps := upsert (\<lambda>r. app_id r = a_id a) (app_insert E a publisher t)
           (app_update a t) (t_apps (tables w))\<rparr>"
    and "\<forall>r. find (\<lambda>r. app_id r = a_id a) (t_apps (tables w)) = Some r \<longrightarrow>
           pg_uuid_text E (app_publisher r) = a_publisher_id a"
    and "each_pure (\<lambda>lt. upsert_text_stmt (a_id a) lt t 0) texts d1 =
           Inr (ys, (tables w')\<lparr>t_revision := t_revision (tables w)\<rparr>)"
    and "t_apps (tables w') = t_apps d1" and "t_versions (tables w') = t_versions (tables w)"
    and "t_revision (tables w') = map_option (\<lambda>r. r + 1) (t_revision (tables w))"
proof -
  let ?d = "tables w" and ?d' = "tables w'"
  from upsert_app_okD [OF assms(2)] obtain publisher d1 ys where
    p: "pg_uuid E (a_publisher_id a) = Some publisher"
    and own: "\<forall>r. find (\<lambda>r. app_id r = a_id a) (t_apps ?d) = Some r \<longrightarrow>
        pg_uuid_text E (app_publisher r) = a_publisher_id a"
    and d1: "d1 = ?d\<lparr>t_apps := upsert (\<lambda>r. app_id r = a_id a) (app_insert E a publisher (now (tick w)))
        (app_update a (now (tick w))) (t_apps ?d)\<rparr>"
    and e: "each_pure (\<lambda>lt. upsert_text_stmt (a_id a) lt (now (tick w)) 0) texts d1 =
        Inr (ys, ?d'\<lparr>t_revision := t_revision ?d\<rparr>)"
    and rv: "t_revision ?d' = map_option (\<lambda>r. r + 1) (t_revision ?d)"
    by (rule upsert_app_pureD)
  from texts_written [OF e] obtain v where "?d'\<lparr>t_revision := t_revision ?d\<rparr> = d1\<lparr>t_texts := v\<rparr>"
    by blast
  from arg_cong [OF this, of t_apps] arg_cong [OF this, of t_versions] that [OF p d1 own e _ _ rv]
  show thesis by (simp add: d1)
qed

text \<open>
  C23: an app that is saved is stored as it was sent, under the publisher who already owned it or
  else under its registrant; its translations read back; every other app is untouched, and the
  revision moves by one in the same transaction.
\<close>

theorem upsert_app_effect:
  assumes "uuid_codec E" and "upsert_app E a texts w = (Inr (), w')"
  shows "(\<exists>r\<in>set (t_apps (tables w')). app_id r = a_id a \<and> app_slug r = a_slug a \<and> app_type r = a_type a
       \<and> app_name r = a_name a \<and> app_description r = a_description a \<and> app_icon_url r = a_icon_url a
       \<and> app_category r = a_category a \<and> app_visibility r = a_visibility a
       \<and> pg_uuid E (a_publisher_id a) = Some (app_publisher r))
    \<and> (\<forall>r. app_id r \<noteq> a_id a \<longrightarrow> (r \<in> set (t_apps (tables w')) \<longleftrightarrow> r \<in> set (t_apps (tables w))))
    \<and> (distinct (map fst texts) \<longrightarrow>
         (\<forall>(l, x) \<in> set texts. map_of (texts_of (a_id a) (tables w')) l = Some x))
    \<and> t_versions (tables w') = t_versions (tables w)
    \<and> t_revision (tables w') = map_option (\<lambda>r. r + 1) (t_revision (tables w))"
proof -
  let ?d = "tables w" and ?d' = "tables w'"
  from upsert_app_writes [OF assms] obtain publisher t d1 ys where
    p: "pg_uuid E (a_publisher_id a) = Some publisher"
    and d1: "d1 = ?d\<lparr>t_apps := upsert (\<lambda>r. app_id r = a_id a) (app_insert E a publisher t) (app_update a t) (t_apps ?d)\<rparr>"
    and own: "\<forall>r. find (\<lambda>r. app_id r = a_id a) (t_apps ?d) = Some r \<longrightarrow>
        pg_uuid_text E (app_publisher r) = a_publisher_id a"
    and e: "each_pure (\<lambda>lt. upsert_text_stmt (a_id a) lt t 0) texts d1 = Inr (ys, ?d'\<lparr>t_revision := t_revision ?d\<rparr>)"
    and apps: "t_apps ?d' = t_apps d1" and rest: "t_versions ?d' = t_versions ?d"
      "t_revision ?d' = map_option (\<lambda>r. r + 1) (t_revision ?d)" .
  note saved_app_row [OF assms(1) p own, of t]
  moreover have "r \<in> set (t_apps ?d') \<longleftrightarrow> r \<in> set (t_apps ?d)" if "app_id r \<noteq> a_id a" for r
    using that unfolding apps d1 by (auto simp: upsert_def app_insert_def app_update_def image_iff)
  moreover have "map_of (texts_of (a_id a) ?d') l = Some x"
    if "distinct (map fst texts)" and "(l, x) \<in> set texts" for l x
    using texts_written [OF e, of l x] that by (simp add: texts_of_find)
  ultimately show ?thesis using rest by (simp add: apps d1) blast
qed

definition demo_new_app :: app where
  "demo_new_app =
     \<lparr>a_id = ''c'', a_publisher_id = ''x'', a_slug = ''c'', a_type = ''module'', a_name = ''C'',
      a_description = [], a_icon_url = [], a_category = ''General'', a_visibility = ''public'',
      a_created_at = zero_time, a_updated_at = zero_time, a_publisher_name = [],
      a_latest_version = [], a_authors = None, a_maintainers = None, a_repository = [],
      a_homepage = [], a_license = [], a_created_by = [], a_updated_by = []\<rparr>"

definition demo_text :: app_text where
  "demo_text = \<lparr>at_name = ''Ce'', at_description = [], at_category = []\<rparr>"

theorem upsert_app_effect_witness:
  "\<exists>w'. upsert_app demo_env demo_new_app [(''fr'', demo_text)] demo_world = (Inr (), w')
     \<and> map_of (texts_of ''c'' (tables w')) ''fr'' = Some demo_text
     \<and> t_revision (tables w') = Some 1"
proof -
  have "case fst (upsert_app demo_env demo_new_app [(''fr'', demo_text)] demo_world) of
      Inl e \<Rightarrow> False | Inr u \<Rightarrow> True"
    by code_simp
  then obtain w' where u: "upsert_app demo_env demo_new_app [(''fr'', demo_text)] demo_world = (Inr (), w')"
    by (cases "upsert_app demo_env demo_new_app [(''fr'', demo_text)] demo_world") (auto split: sum.splits)
  have "t_revision (tables demo_world) = Some 0" and "a_id demo_new_app = ''c''"
    by (simp_all add: demo_world_def demo_db_def empty_db_def demo_new_app_def)
  with upsert_app_effect [OF demo_codec u] u show ?thesis by auto
qed

text \<open>
  An app id another publisher holds cannot be taken: the registration ends in a conflict
  (or in the error of a driver call), and no table changes.
\<close>

lemma upsert_app_conflict:
  assumes "wf_db n (tables w)" and "r \<in> set (t_apps (tables w))" and "app_id r = a_id a"
    and "pg_uuid_text E (app_publisher r) \<noteq> a_publisher_id a"
  shows "fst (upsert_app E a texts w) \<in> {Inl ErrConflict, Inl ErrDriver}
    \<and> tables (snd (upsert_app E a texts w)) = tables w
    \<and> (quiet w \<longrightarrow> fst (upsert_app E a texts w) = Inl ErrConflict)"
proof -
  have "find (\<lambda>r. app_id r = a_id a) (t_apps (tables w)) = Some r"
    using wf_dbD(2) [OF assms(1)] assms(2,3)
    by (intro find_distinct_key [where key = app_id]) (auto simp: wf_apps_def)
  with assms(4) have "upsert_app_pure E a texts t (tables w) = Inl ErrConflict" for t
    by (simp add: upsert_app_pure_def seq_pure_def)
  with upsert_app_refines [of E a texts w] show ?thesis by auto
qed

end
