(* ===== verification/ReviewSpec.thy ===== *)
theory ReviewSpec
  imports StoreSpec
begin

text \<open>
  The properties of submissions and decisions (\<^verbatim>\<open>SubmitManifest\<close>, \<^verbatim>\<open>SubmitVersion\<close> and
  \<^verbatim>\<open>DecideVersion\<close> of \<^verbatim>\<open>modules/registry/store.go\<close>, and the reviewer's handlers).
\<close>

section \<open>Decisions\<close>

text \<open>
  C7: a decision is all or nothing. Whichever driver call fails, it either returns an error and
  has changed no table, or it returns none and has done all of what \<open>decide_pure\<close> says; when no
  call fails, its error is that of \<open>decide_pure\<close>.
\<close>

theorem decision_atomic:
  "(fst (decide_version E vid action aid actor nt w) \<noteq> Inr ()
      \<and> tables (snd (decide_version E vid action aid actor nt w)) = tables w
    \<or> fst (decide_version E vid action aid actor nt w) = Inr ()
      \<and> decide_pure E vid action aid actor nt (now (tick w)) (tables w) =
          Inr ((), tables (snd (decide_version E vid action aid actor nt w))))
   \<and> (quiet w \<longrightarrow> fst (decide_version E vid action aid actor nt w) =
        map_sum id fst (decide_pure E vid action aid actor nt (now (tick w)) (tables w)))"
  using decide_refines [of E vid action aid actor nt w]
  by (cases "decide_pure E vid action aid actor nt (now (tick w)) (tables w)") auto

theorem decision_atomic_witness:
  "fst (decide_version demo_env ''xxxxxxxxx'' ''publish'' ''xx'' ''r@x'' [] demo_world) = Inl ErrNotFound"
proof -
  have "decide_pure demo_env ''xxxxxxxxx'' ''publish'' ''xx'' ''r@x'' [] (now (tick demo_world)) demo_db = Inl ErrNotFound"
    by code_simp
  with decision_atomic [of demo_env "''xxxxxxxxx''" "''publish''" "''xx''" "''r@x''" "[]" demo_world] demo_quiet
  show ?thesis by (simp add: demo_world_def)
qed

lemma update_where_one:
  assumes "distinct (map key xs)" and "v \<in> set xs" and "\<And>r. key (f r) = key r"
  shows "set (update_where (\<lambda>r. key r = key v) f xs) = insert (f v) (set xs - {v})"
proof -
  have "key r = key v \<longleftrightarrow> r = v" if "r \<in> set xs" for r
    using assms(1,2) that by (auto simp: distinct_map inj_on_def)
  then show ?thesis using assms(2) by (auto simp: update_where_def image_iff)
qed

text \<open>
  C8: what a decision does. The version it names gets the status of the action and the note, and
  the time of the decision as its publication when the action is to publish; no other version
  changes. The decision is recorded once, after everything recorded before, under the reviewer's
  name; the revision moves by one; nothing else but the app's provenance changes.
\<close>

theorem decision_effect:
  assumes "wf_db n (tables w)" and "decide_version E vid action aid actor nt w = (Inr (), w')"
  shows "\<exists>v status who. v \<in> set (t_versions (tables w)) \<and> pg_uuid E vid = Some (ver_id v)
    \<and> status_of_action action = Some status
    \<and> set (t_versions (tables w')) =
        insert (decided_row status nt (now (tick w)) v) (set (t_versions (tables w)) - {v})
    \<and> t_events (tables w') = t_events (tables w) @
        [\<lparr>ev_version = ver_id v, ev_actor_id = who, ev_actor = actor, ev_action = action,
          ev_note = nt, ev_created_at = now (tick w)\<rparr>]
    \<and> t_revision (tables w') = map_option (\<lambda>r. r + 1) (t_revision (tables w))
    \<and> t_texts (tables w') = t_texts (tables w) \<and> t_publishers (tables w') = t_publishers (tables w)
    \<and> t_grants (tables w') = t_grants (tables w) \<and> t_snapshots (tables w') = t_snapshots (tables w)"
proof -
  from decide_okD [OF assms(2)] obtain status u who where st: "status_of_action action = Some status"
    and u: "pg_uuid E vid = Some u" and ex: "\<exists>r\<in>set (t_versions (tables w)). ver_id r = u"
    and vs: "t_versions (tables w') =
      update_where (\<lambda>r. ver_id r = u) (decided_row status nt (now (tick w))) (t_versions (tables w))"
    and rest: "t_events (tables w') = t_events (tables w) @
        [\<lparr>ev_version = u, ev_actor_id = who, ev_actor = actor, ev_action = action,
          ev_note = nt, ev_created_at = now (tick w)\<rparr>]"
      "t_revision (tables w') = map_option (\<lambda>r. r + 1) (t_revision (tables w))"
      "t_texts (tables w') = t_texts (tables w)" "t_publishers (tables w') = t_publishers (tables w)"
      "t_grants (tables w') = t_grants (tables w)" "t_snapshots (tables w') = t_snapshots (tables w)"
    by (rule decide_pure_okD)
  from ex obtain v where v: "v \<in> set (t_versions (tables w))" "ver_id v = u" by blast
  have "set (t_versions (tables w')) =
      insert (decided_row status nt (now (tick w)) v) (set (t_versions (tables w)) - {v})"
    unfolding vs v(2) [symmetric]
    by (rule update_where_one)
      (use wf_dbD(3) [OF assms(1)] v in \<open>auto simp: wf_versions_def decided_row_def\<close>)
  with v u st rest show ?thesis by blast
qed

lemma demo_decided: "\<exists>w'. decide_version demo_env ''xxxxxx'' ''publish'' ''xx'' ''r@x'' [] demo_world = (Inr (), w')"
proof -
  have "case fst (decide_version demo_env ''xxxxxx'' ''publish'' ''xx'' ''r@x'' [] demo_world) of
      Inl e \<Rightarrow> False | Inr u \<Rightarrow> True"
    by code_simp
  then show ?thesis
    by (cases "decide_version demo_env ''xxxxxx'' ''publish'' ''xx'' ''r@x'' [] demo_world")
      (auto split: sum.splits)
qed

lemma demo_world_wf: "wf_db 9 (tables demo_world)"
  using demo_wf by (simp add: demo_world_def)

lemma demo_waiting:
  "demo_version 5 ''a'' ''3'' ''in_review'' None \<in> set (t_versions (tables demo_world))"
  "pg_uuid demo_env ''xxxxxx'' = Some (ver_id (demo_version 5 ''a'' ''3'' ''in_review'' None))"
  "nullif_uuid demo_env ''xx'' = Inr (Some 1)"
  by (simp_all add: demo_world_def demo_db_def empty_db_def demo_version_def demo_env_def demo_uuid_def
      nullif_uuid_def)

theorem decision_effect_witness:
  "\<exists>w'. decide_version demo_env ''xxxxxx'' ''publish'' ''xx'' ''r@x'' [] demo_world = (Inr (), w')
     \<and> length (t_events (tables w')) = 1 \<and> t_revision (tables w') = Some 1"
proof -
  from demo_decided obtain w' where
    d: "decide_version demo_env ''xxxxxx'' ''publish'' ''xx'' ''r@x'' [] demo_world = (Inr (), w')" ..
  have "t_events (tables demo_world) = []" and "t_revision (tables demo_world) = Some 0"
    by (simp_all add: demo_world_def demo_db_def empty_db_def)
  with decision_effect [OF demo_world_wf d] d show ?thesis by auto
qed

text \<open>
  The version and the app after a decision, for the properties below.
\<close>

lemma decided_find:
  assumes "wf_db n d" and "v \<in> set (t_versions d)"
  shows "find (\<lambda>r. ver_id r = ver_id v)
      (update_where (\<lambda>r. ver_id r = ver_id v) (decided_row status nt t) (t_versions d)) =
    Some (decided_row status nt t v)"
proof -
  have "find (\<lambda>r. ver_id r = ver_id v) (t_versions d) = Some v"
    using wf_dbD(3) [OF assms(1)] assms(2)
    by (intro find_distinct_key [where key = ver_id]) (auto simp: wf_versions_def)
  then show ?thesis
    by (simp add: find_update_where_hit decided_row_def)
qed

text \<open>
  Publishing is the moment an app takes its credits from the manifest, and the only one: the
  app of the version that is published gets its authors, maintainers, repository, home page and
  licence from that version's manifest, with the defaults where the manifest has none; every other
  app, and every app on another decision, stays as it is.
\<close>

lemma publish_takes_provenance:
  assumes "wf_db n (tables w)" and "decide_version E vid action aid actor nt w = (Inr (), w')"
    and "v \<in> set (t_versions (tables w))" and "pg_uuid E vid = Some (ver_id v)"
  shows "(action = ''publish'' \<longrightarrow>
      (\<exists>who. t_apps (tables w') = map (\<lambda>a. if app_id a = ver_app v
          then a\<lparr>app_authors := coalesce (json_field (ver_manifest v) ''authors'') (JArr []),
                 app_maintainers := coalesce (json_field (ver_manifest v) ''maintainers'') (JArr []),
                 app_repository := coalesce (json_field_text E (ver_manifest v) ''repository'') [],
                 app_homepage := coalesce (json_field_text E (ver_manifest v) ''homepage'') [],
                 app_license := coalesce (json_field_text E (ver_manifest v) ''license'') [],
                 app_updated_by := who, app_updated_at := now (tick w)\<rparr>
          else a) (t_apps (tables w))))
    \<and> (action \<noteq> ''publish'' \<longrightarrow> t_apps (tables w') = t_apps (tables w))"
proof -
  from decide_okD [OF assms(2)] obtain status u who where st: "status_of_action action = Some status"
    and "pg_uuid E vid = Some u"
    and vs: "t_versions (tables w') =
      update_where (\<lambda>r. ver_id r = u) (decided_row status nt (now (tick w))) (t_versions (tables w))"
    and apps: "t_apps (tables w') = (case find (\<lambda>r. ver_id r = u) (t_versions (tables w')) of
        Some v \<Rightarrow> if status = ''published''
          then update_where (\<lambda>a. app_id a = ver_app v) (take_provenance E (ver_manifest v) who (now (tick w)))
                 (t_apps (tables w))
          else t_apps (tables w)
      | None \<Rightarrow> t_apps (tables w))"
    by (rule decide_pure_okD)
  with assms(4) have u: "u = ver_id v" by simp
  have "find (\<lambda>r. ver_id r = u) (t_versions (tables w')) = Some (decided_row status nt (now (tick w)) v)"
    unfolding vs u by (rule decided_find [OF assms(1,3)])
  then have "t_apps (tables w') = (if status = ''published''
      then update_where (\<lambda>a. app_id a = ver_app v) (take_provenance E (ver_manifest v) who (now (tick w)))
             (t_apps (tables w))
      else t_apps (tables w))"
    unfolding apps by (simp add: decided_row_def)
  moreover have "status = ''published'' \<longleftrightarrow> action = ''publish''"
    using st by (auto split: if_splits)
  ultimately show ?thesis
    by (auto simp: update_where_def take_provenance_def)
qed

text \<open>
  A decision does not depend on the ones before it. When the database answers, a known
  action on a version that exists is carried out whatever the version's status is: a rejected or
  withdrawn version can be published, and a published one published again with a new date.
\<close>

lemma decision_ignores_status:
  assumes "wf_db n (tables w)" and "quiet w" and "v \<in> set (t_versions (tables w))"
    and "pg_uuid E vid = Some (ver_id v)" and "nullif_uuid E aid = Inr who"
    and "status_of_action action = Some status"
  shows "\<exists>w'. decide_version E vid action aid actor nt w = (Inr (), w')
    \<and> (\<exists>v'\<in>set (t_versions (tables w')). ver_id v' = ver_id v \<and> ver_status v' = status
         \<and> (status = ''published'' \<longrightarrow> ver_published_at v' = Some (now (tick w))))"
proof -
  let ?t = "now (tick w)" and ?d = "tables w"
  have "\<exists>r\<in>set (t_versions ?d). ver_id r = ver_id v" using assms(3) by blast
  then have "length (filter (\<lambda>r. ver_id r = ver_id v) (t_versions ?d)) \<noteq> 0"
    by (simp add: filter_empty_conv)
  then have "\<exists>d'. decide_pure E vid action aid actor nt ?t ?d = Inr ((), d')"
    by (simp add: decide_pure_def assms(4-6) seq_pure_def decide_stmt_def provenance_stmt_def
        insert_event_stmt_def bump_pure_def del: status_of_action.simps)
  then have "fst (decide_version E vid action aid actor nt w) = Inr ()"
    using decide_refines [of E vid action aid actor nt w] assms(2) by auto
  then obtain w' where ok: "decide_version E vid action aid actor nt w = (Inr (), w')"
    by (metis prod.collapse)
  from decide_okD [OF this] obtain status' u where "status_of_action action = Some status'"
    and "pg_uuid E vid = Some u" and vs: "t_versions (tables w') =
      update_where (\<lambda>r. ver_id r = u) (decided_row status' nt ?t) (t_versions ?d)"
    by (rule decide_pure_okD)
  with assms(4,6) have "decided_row status nt ?t v \<in> set (t_versions (tables w'))"
    using assms(3) by (auto simp: update_where_def image_iff simp del: status_of_action.simps)
  with ok show ?thesis
    by (intro exI [of _ w'] conjI bexI [of _ "decided_row status nt ?t v"]) (simp_all add: decided_row_def)
qed

section \<open>Submissions\<close>

lemma conflict_InrD:
  "attempt m (\<lambda>r. case r of Inl e \<Rightarrow> fail (conflict_error e) | Inr u \<Rightarrow> ok u) w = (Inr x, w') \<Longrightarrow>
   m w = (Inr x, w')"
  by (auto simp: attempt_def split: prod.splits sum.splits)

lemma insert_versionD:
  "insert_version_stmt E v j t n d = Inr (u, d') \<Longrightarrow> u = n \<and> (\<exists>row. d' = d\<lparr>t_versions := t_versions d @ [row]\<rparr>
     \<and> ver_id row = n \<and> ver_app row = v_app_id v \<and> ver_version row = v_version v
     \<and> ver_channel row = v_channel v \<and> ver_min_platform row = v_min_platform v
     \<and> ver_manifest row = j \<and> ver_status row = v_status v \<and> ver_submitted_by row = v_submitted_by v
     \<and> ver_created_at row = t
     \<and> (\<forall>r\<in>set (t_versions d). \<not> pg_version_clash E (version_key r) (version_key row)))"
  by (auto simp: insert_version_stmt_def Let_def list_ex_iff split: if_splits)

text \<open>What a submission that commits has written.\<close>

definition submitted ::
  "env \<Rightarrow> version \<Rightarrow> json \<Rightarrow> database \<Rightarrow> version_row \<Rightarrow> database \<Rightarrow> bool" where
  "submitted E v j d row d' \<longleftrightarrow>
     t_versions d' = t_versions d @ [row] \<and> ver_app row = v_app_id v \<and> ver_version row = v_version v
     \<and> ver_channel row = v_channel v \<and> ver_min_platform row = v_min_platform v
     \<and> ver_manifest row = j \<and> ver_status row = v_status v \<and> ver_submitted_by row = v_submitted_by v
     \<and> (\<forall>r\<in>set (t_versions d). \<not> pg_version_clash E (version_key r) (version_key row))
     \<and> (\<exists>t. t_events d' = t_events d @
          [\<lparr>ev_version = ver_id row, ev_actor_id = None, ev_actor = v_submitted_by v,
            ev_action = ''submitted'', ev_note = [], ev_created_at = t\<rparr>])
     \<and> t_apps d' = t_apps d \<and> t_texts d' = t_texts d \<and> t_revision d' = t_revision d
     \<and> t_snapshots d' = t_snapshots d \<and> t_private d' = t_private d"

text \<open>What the transaction of a submission runs.\<close>

abbreviation submission :: "env \<Rightarrow> version \<Rightarrow> json \<Rightarrow> external_registration option \<Rightarrow> uuid act" where
  "submission E v j x \<equiv>
              (andthen
                (attempt (stmt (insert_version_stmt E v j))
                  (\<lambda>r. case r of Inl e \<Rightarrow> fail (conflict_error e) | Inr u \<Rightarrow> ok u))
                (\<lambda>u. andthen
                  (case x of None \<Rightarrow> ok () | Some x \<Rightarrow> stmt (upsert_external_stmt E (v_app_id v) x))
                  (\<lambda>_. andthen
                    (stmt (insert_event_stmt E (pg_uuid_text E u) [] (v_submitted_by v) ''submitted'' []))
                    (\<lambda>_. ok u))))"

lemma submit_transaction:
  assumes "uuid_codec E" and "transaction (submission E v j x) w = (Inr u, w')"
  shows "\<exists>row. ver_id row = u \<and> next_uuid w \<le> u \<and> submitted E v j (tables w) row (tables w')"
  using assms(2)
proof (rule transaction_okD)
  fix w1 w2
  assume w1: "w1 = (tick w)\<lparr>tx_start := Some (now (tick w))\<rparr>" and w': "tables w' = tables w2"
    and body: "submission E v j x w1 = (Inr u, w2)"
  from body obtain u1 wa where a: "stmt (insert_version_stmt E v j) w1 = (Inr u1, wa)"
    and r1: "andthen
                  (case x of None \<Rightarrow> ok () | Some x \<Rightarrow> stmt (upsert_external_stmt E (v_app_id v) x))
                  (\<lambda>_. andthen
                    (stmt (insert_event_stmt E (pg_uuid_text E u1) [] (v_submitted_by v) ''submitted'' []))
                    (\<lambda>_. ok u1)) wa = (Inr u, w2)"
    by (elim andthen_Inr_E) (auto dest: conflict_InrD)
  from r1 obtain y wb where b: "(case x of None \<Rightarrow> ok () | Some x \<Rightarrow> stmt (upsert_external_stmt E (v_app_id v) x)) wa = (Inr y, wb)"
    and r2: "andthen (stmt (insert_event_stmt E (pg_uuid_text E u1) [] (v_submitted_by v) ''submitted'' []))
                    (\<lambda>_. ok u1) wb = (Inr u, w2)"
    by (rule andthen_Inr_E)
  from r2 have c: "stmt (insert_event_stmt E (pg_uuid_text E u1) [] (v_submitted_by v) ''submitted'' []) wb = (Inr (), w2)"
    and u: "u1 = u"
    by (auto elim!: andthen_Inr_E)
  from stmt_InrD [OF a] obtain d where "insert_version_stmt E v j (clock (tick w1)) (next_uuid w1) (tables w1) = Inr (u1, d)"
    and wa: "tables wa = d" by auto
  from insert_versionD [OF this(1)] obtain row where row: "d = (tables w1)\<lparr>t_versions := t_versions (tables w1) @ [row]\<rparr>"
    "ver_id row = u" "next_uuid w1 = u" "ver_app row = v_app_id v" "ver_version row = v_version v"
    "ver_channel row = v_channel v" "ver_min_platform row = v_min_platform v" "ver_manifest row = j"
    "ver_status row = v_status v" "ver_submitted_by row = v_submitted_by v"
    "\<forall>r\<in>set (t_versions (tables w1)). \<not> pg_version_clash E (version_key r) (version_key row)"
    using u by auto
  have wb: "\<exists>v. tables wb = (tables wa)\<lparr>t_externals := v\<rparr>"
  proof (cases x)
    case None
    with b show ?thesis by (auto intro: exI [of _ "t_externals (tables wa)"])
  next
    case (Some e)
    with b have "stmt (upsert_external_stmt E (v_app_id v) e) wa = (Inr y, wb)" by simp
    from stmt_InrD [OF this] show ?thesis by (auto dest: frame)
  qed
  from stmt_InrD [OF c] uuid_codecD(1) [OF assms(1)] u
  have "\<exists>t. tables w2 = (tables wb)\<lparr>t_events := t_events (tables wb) @
      [\<lparr>ev_version = u, ev_actor_id = None, ev_actor = v_submitted_by v, ev_action = ''submitted'',
        ev_note = [], ev_created_at = t\<rparr>]\<rparr>"
    by (auto simp: insert_event_stmt_def nullif_uuid_def)
  with wb wa row w' have "submitted E v j (tables w) row (tables w')"
    by (auto simp: submitted_def w1)
  moreover have "next_uuid w \<le> u" using row(3) next_uuid_tick [of w] by (simp add: w1)
  ultimately show ?thesis using row(2) by blast
qed

lemma keeps_quiet_submission: "keeps quiet (transaction (submission E v j x))"
  by (intro keeps_intros)

lemma submit_version_cases:
  assumes "uuid_codec E" and "submit_version E v x w = (r, w')"
  obtains (refused) e where "r = Inl e" and "tables w' = tables w"
  | (queued) j row where "marshal_manifest E (v_manifest v) = Some j"
      and "next_uuid w \<le> ver_id row" and "submitted E v j (tables w) row (tables w')"
      and "r = Inl ErrDriver \<and> \<not> quiet w \<or>
        r = scan_version E (find (\<lambda>r. ver_id r = ver_id row) (t_versions (tables w')))"
proof (cases "marshal_manifest E (v_manifest v)")
  case None
  with assms(2) show ?thesis by (intro refused) (auto simp: submit_version_def)
next
  case (Some j)
  let ?tx = "transaction (submission E v j x)"
  obtain r1 w1 where t: "?tx w = (r1, w1)" by fastforce
  have run: "(r, w') = andthen ?tx (\<lambda>u. version_by_id E (pg_uuid_text E u)) w"
    using assms(2) Some by (simp add: submit_version_def)
  show ?thesis
  proof (cases r1)
    case (Inl e)
    with t have "tables w1 = tables w" by (auto intro: transaction_error_unchanged)
    with run t Inl show ?thesis by (intro refused [of e]) auto
  next
    case (Inr u)
    with submit_transaction [OF assms(1)] t obtain row where "ver_id row = u" "next_uuid w \<le> u"
      and s: "submitted E v j (tables w) row (tables w1)" by blast
    moreover from run t Inr have "(r, w') = version_by_id E (pg_uuid_text E u) w1" by simp
    then have "tables w' = tables w1"
      and "r = Inl ErrDriver \<and> fails w1 \<or> r = scan_version E (find (\<lambda>r. ver_id r = u) (t_versions (tables w1)))"
      using uuid_codecD(1) [OF assms(1)]
      by (auto simp: version_by_id_def query_def split: if_splits)
    moreover have "\<not> fails w1" if "quiet w"
      using keepsD [OF keeps_quiet_submission that, of E v j x] t by simp
    ultimately show ?thesis using Some by (intro queued [of j row]) auto
  qed
qed

lemma submission_cases:
  assumes "uuid_codec E" and "wf_db (next_uuid w) (tables w)" and "submit_version E v x w = (r, w')"
  shows "(\<exists>e. r = Inl e) \<and> tables w' = tables w
    \<or> (\<exists>j row. marshal_manifest E (v_manifest v) = Some j \<and> submitted E v j (tables w) row (tables w')
         \<and> (r = Inl ErrDriver \<and> \<not> quiet w
            \<or> r = (case unmarshal_manifest E j of
                     None \<Rightarrow> Inl (ErrMsg ''decode manifest'')
                   | Some m \<Rightarrow> Inr (version_of_row E m row))))"
  using assms(1,3)
proof (cases rule: submit_version_cases)
  case (queued j row)
  have "ver_id q \<noteq> ver_id row" if "q \<in> set (t_versions (tables w))" for q
    using wf_dbD(3) [OF assms(2)] that queued(2) by (fastforce simp: wf_versions_def)
  then have "find (\<lambda>r. ver_id r = ver_id row) (t_versions (tables w)) = None"
    by (auto simp: find_None_iff)
  then have "find (\<lambda>r. ver_id r = ver_id row) (t_versions (tables w')) = Some row"
    using queued(3) by (simp add: submitted_def find_append)
  with queued show ?thesis by (auto simp: scan_version_def submitted_def)
qed auto

lemma submission_outcomes_row:
  assumes "uuid_codec E" and "wf_db (next_uuid w) (tables w)" and "submit_version E v x w = (Inr y, w')"
  shows "\<exists>j row m. marshal_manifest E (v_manifest v) = Some j \<and> submitted E v j (tables w) row (tables w')
    \<and> y = version_of_row E m row"
  using submission_cases [OF assms] by (auto split: option.splits)

text \<open>
  C9: the outcomes of a submission. It is refused, and no table has changed; or one version is
  queued, with its manifest, and one event says so, while the apps, the revision and every cached
  document stay as they are. It is then that version that is returned, unless reading it back
  fails: such an error comes after the submission has been committed, and only when a call to the
  database fails or the manifest on file cannot be read.
\<close>

theorem submission_outcomes:
  assumes "uuid_codec E" and "wf_db (next_uuid w) (tables w)" and "submit_version E v x w = (r, w')"
  shows "(\<exists>e. r = Inl e) \<and> tables w' = tables w
    \<or> (\<exists>j row. marshal_manifest E (v_manifest v) = Some j \<and> submitted E v j (tables w) row (tables w')
         \<and> (r = Inl ErrDriver \<and> \<not> quiet w
            \<or> r = (case unmarshal_manifest E j of
                     None \<Rightarrow> Inl (ErrMsg ''decode manifest'')
                   | Some m \<Rightarrow> Inr (version_of_row E m row))))"
  using assms by (rule submission_cases)

theorem submission_outcomes_witness:
  "\<exists>r w'. submit_version demo_env (submitted_version demo_new_app ''stable'' (demo_manifest ''a'' ''4'') ''d@x''\<lparr>v_app_id := ''a''\<rparr>)
      None demo_world = (r, w')
    \<and> ((\<exists>e. r = Inl e) \<and> tables w' = tables demo_world
       \<or> (\<exists>j row. submitted demo_env (submitted_version demo_new_app ''stable'' (demo_manifest ''a'' ''4'') ''d@x''\<lparr>v_app_id := ''a''\<rparr>)
            j (tables demo_world) row (tables w')))
    \<and> (\<exists>y. r = Inr y)"
proof -
  let ?v = "submitted_version demo_new_app ''stable'' (demo_manifest ''a'' ''4'') ''d@x''\<lparr>v_app_id := ''a''\<rparr>"
  obtain r w' where s: "submit_version demo_env ?v None demo_world = (r, w')" by fastforce
  have "case fst (submit_version demo_env ?v None demo_world) of Inl e \<Rightarrow> False | Inr y \<Rightarrow> True"
    by code_simp
  with s have "\<exists>y. r = Inr y" by (cases r) auto
  moreover have "wf_db (next_uuid demo_world) (tables demo_world)"
    using demo_wf by (simp add: demo_world_def)
  from submission_outcomes [OF demo_codec this s] have "(\<exists>e. r = Inl e) \<and> tables w' = tables demo_world
       \<or> (\<exists>j row. submitted demo_env ?v j (tables demo_world) row (tables w'))" by blast
  ultimately show ?thesis using s by blast
qed

text \<open>
  A version number is used once. Submitting under a number, app and channel the index has on
  file ends in a conflict (or in the error of a driver call) and changes no table.
\<close>

lemma duplicate_version_refused:
  assumes "marshal_manifest E (v_manifest v) = Some j" and "q \<in> set (t_versions (tables w))"
    and "pg_version_clash E (version_key q) (v_app_id v, v_version v, v_channel v)"
  shows "fst (submit_version E v x w) \<in> {Inl ErrConflict, Inl ErrDriver}
    \<and> tables (snd (submit_version E v x w)) = tables w
    \<and> (quiet w \<longrightarrow> fst (submit_version E v x w) = Inl ErrConflict)"
proof -
  have clash: "insert_version_stmt E v j t n (tables w) = Inl ErrUnique" for t n
    using assms(2,3) by (auto simp: insert_version_stmt_def Let_def list_ex_iff version_key_def)
  let ?w1 = "(tick w)\<lparr>tx_start := Some (now (tick w))\<rparr>"
  have "stmt (insert_version_stmt E v j) ?w1 =
      (if fails ?w1 then (Inl ErrDriver, tick ?w1) else (Inl ErrUnique, tick ?w1))"
    by (simp add: stmt_def Let_def clash)
  then show ?thesis
    using assms(1)
    by (auto simp: submit_version_def transaction_def Let_def andthen_def attempt_def
        conflict_error_def is_unique_violation_def split: if_splits)
qed

section \<open>What gets into the queue\<close>

text \<open>
  C16: a manifest that is accepted is one a platform can use. It is for the app it was sent to, of
  that app's kind, valid, and for one of the two channels; what is queued is that manifest, under
  its own version number, with the lowest platform when it names none, waiting for review.
\<close>

theorem accepted_submission:
  assumes "uuid_codec E" and "wf_db (next_uuid w) (tables w)"
    and "submit_manifest E a channel m who w = (Inr v, w')"
  shows "mf_id m = a_id a \<and> (mf_type m = type_external \<longleftrightarrow> a_type a = type_external)
    \<and> validate_manifest E m [] = None \<and> channel \<in> {[], ''stable'', ''beta''}
    \<and> (\<exists>row. t_versions (tables w') = t_versions (tables w) @ [row]
         \<and> ver_app row = a_id a \<and> ver_version row = mf_version m \<and> ver_status row = ''in_review''
         \<and> ver_channel row = (if channel = [] then ''stable'' else channel)
         \<and> ver_min_platform row = (if mf_platform m = [] then ''>=0.1.0'' else mf_platform m)
         \<and> marshal_manifest E m = Some (ver_manifest row) \<and> ver_submitted_by row = who
         \<and> v_id v = pg_uuid_text E (ver_id row))"
proof -
  let ?c = "if channel = [] then ''stable'' else channel"
  have ok: "submission_error E a ?c m = None"
    using assms(3) by (auto simp: submit_manifest_def Let_def split: option.splits if_splits)
  then have s: "submit_version E (submitted_version a ?c m who) (external_from_manifest E (a_id a) m) w = (Inr v, w')"
    using assms(3) by (simp add: submit_manifest_def Let_def split: if_splits)
  from submission_outcomes_row [OF assms(1,2) s] obtain j row m' where j: "marshal_manifest E m = Some j"
    and row: "submitted E (submitted_version a ?c m who) j (tables w) row (tables w')"
    and v: "v = version_of_row E m' row"
    by (auto simp: submitted_version_def)
  have "v_id v = pg_uuid_text E (ver_id row)" by (simp add: v version_of_row_def)
  with ok j row show ?thesis
    by (auto simp: submission_error_def submitted_def submitted_version_def split: if_splits)
qed

theorem accepted_submission_witness:
  "\<exists>v w'. submit_manifest demo_env (demo_new_app\<lparr>a_id := ''a''\<rparr>) [] (demo_manifest ''a'' ''4'') ''d@x'' demo_world = (Inr v, w')
     \<and> (\<exists>row. t_versions (tables w') = t_versions demo_db @ [row] \<and> ver_version row = ''4''
          \<and> ver_status row = ''in_review'' \<and> ver_channel row = ''stable'')"
proof -
  let ?run = "submit_manifest demo_env (demo_new_app\<lparr>a_id := ''a''\<rparr>) [] (demo_manifest ''a'' ''4'') ''d@x'' demo_world"
  have "case fst ?run of Inl e \<Rightarrow> False | Inr y \<Rightarrow> True" by code_simp
  then obtain v w' where s: "?run = (Inr v, w')" by (cases ?run) (auto split: sum.splits)
  have "wf_db (next_uuid demo_world) (tables demo_world)" and t: "tables demo_world = demo_db"
    using demo_wf by (simp_all add: demo_world_def)
  from accepted_submission [OF demo_codec this(1) s] s show ?thesis
    by (auto simp: t demo_manifest_def)
qed

section \<open>A submission and the documents\<close>

definition same_documents :: "database \<Rightarrow> database \<Rightarrow> bool" where
  "same_documents d d' \<longleftrightarrow> content d' = content d \<and> t_revision d' = t_revision d
     \<and> t_snapshots d' = t_snapshots d \<and> t_private d' = t_private d \<and> t_grants d' = t_grants d"

interpretation documents: two_state same_documents
  by unfold_locales (simp_all add: same_documents_def)

lemma documents_submit: "v_status v \<noteq> ''published'' \<Longrightarrow> moves same_documents (submit_version E v x)"
proof -
  assume v: "v_status v \<noteq> ''published''"
  have "moves same_documents (stmt (insert_version_stmt E v j))" for j
    by (rule documents.moves_stmt)
      (use v in \<open>auto simp: insert_version_stmt_def Let_def same_documents_def content_def is_published_def
        split: if_splits\<close>)
  moreover have "moves same_documents (stmt (upsert_external_stmt E i e))"
    "moves same_documents (stmt (insert_event_stmt E i aid actor action nt))" for i e aid actor action nt
    by (rule documents.moves_stmt, drule frame, auto simp: same_documents_def content_def)+
  ultimately show ?thesis
    unfolding submit_version_def version_by_id_def
    by (intro documents.moves_rules documents.moves_transaction)
qed

lemma documents_answers: "moves same_documents (answer_json n x)" "moves same_documents (answer_error n t)"
  by (simp_all add: answer_json_def answer_error_def documents.moves_ok)

lemma documents_submit_handler: "moves same_documents (handle_submit_version E r b)"
proof -
  have "moves same_documents (submit_manifest E a channel m who)" for a channel m who
    unfolding submit_manifest_def Let_def
    by (intro documents.moves_rules documents_submit) (simp add: submitted_version_def)
  then show ?thesis
    unfolding handle_submit_version_def own_app_def publisher_for_def publisher_by_tenant_def app_by_slug_def
    by (auto intro!: documents.moves_rules documents_answers split: sum.split option.split err.split)
qed

text \<open>
  A publisher cannot change what any instance is served. Whatever is submitted and whatever
  fails on the way, every document, of every audience, channel and platform, is built as before,
  the revision does not move, and no cached document is touched.
\<close>

lemma submission_changes_no_document:
  "build_pure E s channel platform rv aud (tables (perform E' m (SubmitVersion r b) w)) =
     build_pure E s channel platform rv aud (tables w)
   \<and> t_revision (tables (perform E' m (SubmitVersion r b) w)) = t_revision (tables w)
   \<and> t_snapshots (tables (perform E' m (SubmitVersion r b) w)) = t_snapshots (tables w)
   \<and> t_private (tables (perform E' m (SubmitVersion r b) w)) = t_private (tables w)
   \<and> grants_of u (tables (perform E' m (SubmitVersion r b) w)) = grants_of u (tables w)"
proof -
  have "same_documents (tables w) (tables (perform E' m (SubmitVersion r b) w))"
    using documents_submit_handler [of E' r b] by (simp add: moves_def)
  then have d: "content (tables (perform E' m (SubmitVersion r b) w)) = content (tables w)"
    and "t_revision (tables (perform E' m (SubmitVersion r b) w)) = t_revision (tables w)"
    and "t_snapshots (tables (perform E' m (SubmitVersion r b) w)) = t_snapshots (tables w)"
    and "t_private (tables (perform E' m (SubmitVersion r b) w)) = t_private (tables w)"
    and "t_grants (tables (perform E' m (SubmitVersion r b) w)) = t_grants (tables w)"
    unfolding same_documents_def by blast+
  moreover note build_pure_content [OF d, of E s channel platform rv aud]
  ultimately show ?thesis by (simp only: grants_of_def)
qed

end
