(* ===== verification/HistorySpec.thy ===== *)
theory HistorySpec
  imports StoreSpec
begin

text \<open>
  What requests may not do to the records of the store: rewrite the review trail, publish without
  a decision, verify a publisher without a reviewer. Each is an invariant of every statement but
  those of the decision it is about, so each is an interpretation of the contract of statements.
\<close>

section \<open>The review trail\<close>

definition trail_kept :: "database \<Rightarrow> database \<Rightarrow> bool" where
  "trail_kept d d' \<longleftrightarrow> (\<exists>es. t_events d' = t_events d @ es)"

lemma trail_same: "t_events d' = t_events d \<Longrightarrow> trail_kept d0 d \<Longrightarrow> trail_kept d0 d'"
  by (simp add: trail_kept_def)

lemma trail_event:
  "insert_event_stmt E v aid actor action nt t n d = Inr (x, d') \<Longrightarrow> trail_kept d0 d \<Longrightarrow> trail_kept d0 d'"
  by (auto simp: insert_event_stmt_def trail_kept_def split: option.splits sum.splits)

interpretation trail: statement_closed E "\<lambda>w. trail_kept d (tables w)" for E d
proof unfold_locales
  show "keeps (\<lambda>w. trail_kept d (tables w)) (stmt (insert_event_stmt E v aid actor action nt))"
    for v aid actor action nt
    by (rule keeps_stmt_tables) (rule trail_event)
qed (simp_all add: discard_snapshots_def,
    (rule keeps_stmt_tables, (drule frame)?, auto intro: trail_same)+)

text \<open>
  The review trail is append-only: no request of any module changes, removes or reorders an
  event recorded before it.
\<close>

lemma review_trail_append_only:
  assumes "uuid_codec E"
  shows "\<exists>es. t_events (tables (perform E m c w)) = t_events (tables w) @ es"
  using perform_keeps [OF trail.operations_axioms assms, of m "tables w" w c]
  by (simp add: trail_kept_def)

section \<open>Publishing\<close>

definition only_queued :: "database \<Rightarrow> database \<Rightarrow> bool" where
  "only_queued d d' \<longleftrightarrow>
     (\<exists>vs. t_versions d' = t_versions d @ vs \<and> (\<forall>v\<in>set vs. ver_status v = ''in_review''))"

lemma only_queued_same: "t_versions d' = t_versions d \<Longrightarrow> only_queued d0 d \<Longrightarrow> only_queued d0 d'"
  by (simp add: only_queued_def)

lemma only_queued_insert:
  assumes "v_status v = ''in_review''" and "insert_version_stmt E v j t n d = Inr (x, d')"
    and "only_queued d0 d"
  shows "only_queued d0 d'"
proof -
  from assms(2) obtain r where "t_versions d' = t_versions d @ [r]" and "ver_status r = v_status v"
    by (auto simp: insert_version_stmt_def Let_def split: if_splits)
  moreover from assms(3) obtain vs where "t_versions d = t_versions d0 @ vs"
    and "\<forall>v\<in>set vs. ver_status v = ''in_review''"
    unfolding only_queued_def by blast
  ultimately show ?thesis
    using assms(1) unfolding only_queued_def by (intro exI [of _ "vs @ [r]"]) simp
qed

interpretation queued: statement_core E "\<lambda>w. only_queued d (tables w)" for E d
proof unfold_locales
  show "keeps (\<lambda>w. only_queued d (tables w)) (stmt (insert_version_stmt E v j))"
    if "v_status v = ''in_review''" for v j
    by (rule keeps_stmt_tables) (rule only_queued_insert [OF that])
qed (simp_all add: discard_snapshots_def,
    (rule keeps_stmt_tables, (drule frame)?, auto intro: only_queued_same)+)

lemma queued_verify: "keeps (\<lambda>w. only_queued d (tables w)) (handle_verify_publisher E r)"
  by (rule queued.keeps_verify_handler)
    (auto simp: set_publisher_verified_def intro!: keeps_intros keeps_stmt_tables
      dest!: publisher_frames(2) intro: only_queued_same)

text \<open>
  C6: nothing is published without a decision. Every request but a reviewer's decision leaves
  the versions on file exactly as they are, in their place, and whatever it adds waits for review.
\<close>

theorem only_a_decision_publishes:
  assumes "uuid_codec E" and "\<And>r b. c \<noteq> Decision r b"
  shows "\<exists>vs. t_versions (tables (perform E m c w)) = t_versions (tables w) @ vs
    \<and> (\<forall>v\<in>set vs. ver_status v = ''in_review'' \<and> \<not> is_published v)"
proof -
  have "only_queued (tables w) (tables (perform E m c w))"
    using perform_keeps_catalog [OF queued.catalog_operations_axioms assms(1), of m "tables w" w c]
      assms(2) queued_verify
    by (simp add: only_queued_def split: call.split)
  then show ?thesis by (auto simp: only_queued_def is_published_def)
qed

theorem only_a_decision_publishes_witness:
  "\<exists>vs. t_versions (tables (perform demo_env demo_module
      (SubmitVersion (demo_request\<lparr>rq_param := (\<lambda>_. ''a'')\<rparr>)
        (Some \<lparr>sb_channel = [], sb_manifest = demo_manifest ''a'' ''4''\<rparr>)) demo_world)) =
      t_versions (tables demo_world) @ vs \<and> (\<forall>v\<in>set vs. \<not> is_published v)"
  using only_a_decision_publishes [OF demo_codec, of "SubmitVersion (demo_request\<lparr>rq_param := (\<lambda>_. ''a'')\<rparr>)
        (Some \<lparr>sb_channel = [], sb_manifest = demo_manifest ''a'' ''4''\<rparr>)" demo_module demo_world]
  by blast

section \<open>Verification\<close>

text \<open>What a reviewer has said about a publisher.\<close>

definition badge :: "publisher_row \<Rightarrow> uuid \<times> bool \<times> time option \<times> uuid option" where
  "badge p = (pub_id p, pub_verified p, pub_verified_at p, pub_verified_by p)"

definition badges_kept :: "database \<Rightarrow> database \<Rightarrow> bool" where
  "badges_kept d d' \<longleftrightarrow> badge ` set (t_publishers d) \<subseteq> badge ` set (t_publishers d')"

lemma badges_same: "t_publishers d' = t_publishers d \<Longrightarrow> badges_kept d0 d \<Longrightarrow> badges_kept d0 d'"
  by (simp add: badges_kept_def)

lemma badge_profile: "badge (r\<lparr>pub_slug := a, pub_name := b, pub_email := c, pub_updated_at := t\<rparr>) = badge r"
  by (simp add: badge_def)

lemma badges_upsert:
  assumes "upsert_publisher_stmt E p t n d = Inr (x, d')" and "badges_kept d0 d"
  shows "badges_kept d0 d'"
proof -
  from assms(1) obtain tenant new where "d' = d\<lparr>t_publishers := upsert (\<lambda>r. pub_tenant r = tenant) new
      (\<lambda>r. r\<lparr>pub_slug := b_slug p, pub_name := b_name p, pub_email := b_contact_email p,
             pub_updated_at := t\<rparr>) (t_publishers d)\<rparr>"
    by (auto simp: upsert_publisher_stmt_def Let_def split: option.splits if_splits)
  with assms(2) show ?thesis
    unfolding badges_kept_def by (simp add: subset_trans [OF _ upsert_ids [where key = badge]] badge_profile)
qed

interpretation badges: statement_core E "\<lambda>w. badges_kept d (tables w)" for E d
proof unfold_locales
  show "keeps (\<lambda>w. badges_kept d (tables w)) (stmt (upsert_publisher_stmt E p))" for p
    by (rule keeps_stmt_tables) (rule badges_upsert)
qed (simp_all add: discard_snapshots_def,
    (rule keeps_stmt_tables, (drule frame)?, auto intro: badges_same)+)

lemma badges_decide: "keeps (\<lambda>w. badges_kept d (tables w)) (decide_version E v action aid actor nt)"
proof -
  have "keeps (\<lambda>w. badges_kept d (tables w)) (stmt (decide_stmt E v status nt))"
    "keeps (\<lambda>w. badges_kept d (tables w)) (stmt (provenance_stmt E v aid))" for status
    by (rule keeps_stmt_tables, drule frame, auto intro: badges_same)+
  then show ?thesis
    unfolding decide_version_def bump_revision_def
    by (intro badges.st_transaction badges.st_rules keeps_intros)
qed

text \<open>
  C15: a publisher cannot verify itself. Every request but a reviewer's verification leaves every
  publisher's verified flag, its date and the reviewer named on it as they are, and removes no
  publisher.
\<close>

theorem only_a_reviewer_verifies:
  assumes "uuid_codec E" and "\<And>r. c \<noteq> VerifyPublisher r" and "p \<in> set (t_publishers (tables w))"
  shows "\<exists>p'\<in>set (t_publishers (tables (perform E m c w))). pub_id p' = pub_id p
    \<and> pub_verified p' = pub_verified p \<and> pub_verified_at p' = pub_verified_at p
    \<and> pub_verified_by p' = pub_verified_by p"
proof -
  have "badges_kept (tables w) (tables (perform E m c w))"
    using perform_keeps_catalog [OF badges.catalog_operations_axioms assms(1), of m "tables w" w c]
      assms(2) badges.keeps_decide_handler [OF badges_decide]
    by (simp add: badges_kept_def split: call.split)
  with assms(3) have "badge p \<in> badge ` set (t_publishers (tables (perform E m c w)))"
    by (auto simp: badges_kept_def)
  then show ?thesis by (auto simp: badge_def)
qed

theorem only_a_reviewer_verifies_witness:
  "\<exists>p'\<in>set (t_publishers (tables (perform demo_env demo_module
      (SaveProfile demo_request (Some \<lparr>pb_slug = ''acme'', pb_name = ''Acme 2'', pb_contact_email = []\<rparr>))
      demo_world))). pub_id p' = pub_id demo_publisher \<and> pub_verified p' = pub_verified demo_publisher"
proof -
  have "demo_publisher \<in> set (t_publishers (tables demo_world))"
    by (simp add: demo_world_def demo_db_def empty_db_def)
  from only_a_reviewer_verifies [OF demo_codec _ this] show ?thesis by blast
qed

end
