(* ===== verification/ServingSpec.thy ===== *)
theory ServingSpec
  imports Demo
begin

text \<open>
  The properties of the service in any run: what a request for the catalogue is answered, and what
  the cache holds meanwhile.
\<close>

section \<open>What is served\<close>

text \<open>
  C1: the public catalogue is never stale. In every state a run can reach, whatever driver calls
  have failed and whatever is cached, a request without a credential of an enabled platform with
  grants is answered 200 or 304 only with the document that building it now from the tables would
  give, at the current revision.
\<close>

theorem public_catalogue_current:
  assumes "uuid_codec E" and "m_catalog m = Some s" and "reachable E m admits Q w"
    and "audience_view E (bearer_token (rq_header r ''Authorization'')) (tables w) = no_audience"
    and "handle_catalog E m r w = (Inr resp, w')"
    and "rs_status resp \<in> {200, 304}"
  shows "\<exists>rv snap. t_revision (tables w) = Some rv
    \<and> build_pure E s (or_default (rq_query r ''channel'') ''stable'')
         (or_default (rq_query r ''platform'') default_platform) rv no_audience (tables w) = Inr snap
    \<and> resp = catalog_response r snap no_audience"
  using handle_catalog_served [OF assms(1,2,5) reachable_public_ok [OF assms(1-3)] assms(4)] assms(6)
  by (metis insertE singletonD)

lemma demo_public_request:
  "\<exists>resp w'. handle_catalog demo_env demo_module no_request boot_world = (Inr resp, w')
     \<and> rs_status resp = 200"
proof -
  have "case fst (handle_catalog demo_env demo_module no_request boot_world) of
      Inl e \<Rightarrow> False | Inr resp \<Rightarrow> rs_status resp = 200"
    by code_simp
  then show ?thesis
    by (cases "handle_catalog demo_env demo_module no_request boot_world") (auto split: sum.splits)
qed

theorem public_catalogue_current_witness:
  "\<exists>resp w' snap. handle_catalog demo_env demo_module no_request boot_world = (Inr resp, w')
     \<and> build_pure demo_env demo_signer ''stable'' ''1.0.0'' 0 no_audience empty_db = Inr snap
     \<and> resp = catalog_response no_request snap no_audience"
proof -
  from demo_public_request obtain resp w' where
    h: "handle_catalog demo_env demo_module no_request boot_world = (Inr resp, w')"
    and "rs_status resp = 200" by blast
  then have st: "rs_status resp \<in> {200, 304}" by simp
  have t: "tables boot_world = empty_db" by (simp add: boot_world_def)
  have a: "audience_view demo_env (bearer_token (rq_header no_request ''Authorization'')) (tables boot_world) = no_audience"
    and "rq_query no_request ''channel'' = []" and "rq_query no_request ''platform'' = []"
    and "t_revision empty_db = Some 0"
    by (simp_all add: t audience_view_def empty_db_def no_request_def bearer_token_def)
  moreover have "m_catalog demo_module = Some demo_signer" by (simp add: demo_module_def)
  from public_catalogue_current [OF demo_codec this boot_reachable [of "\<lambda>_. True"] a h st]
  obtain rv snap where "t_revision empty_db = Some rv"
    and "build_pure demo_env demo_signer (or_default (rq_query no_request ''channel'') ''stable'')
         (or_default (rq_query no_request ''platform'') default_platform) rv no_audience empty_db = Inr snap"
    and "resp = catalog_response no_request snap no_audience"
    unfolding t by blast
  ultimately show ?thesis using h by (auto simp: or_default_def default_platform_def)
qed

text \<open>
  C11: a platform's private catalogue is what it has been granted now. In every state reached by
  requests handled one at a time while the database answers, a request is answered 200 or 304 only
  with the document built from the tables for the audience of its credential: grants, revocations,
  disabled platforms and publications have taken effect. (Requests that overlap can break this:
  \<open>revocation_overtaken\<close>.)
\<close>

theorem private_catalogue_current:
  assumes "uuid_codec E" and "m_catalog m = Some s" and "reachable E m admits all_answer w"
    and "handle_catalog E m r w = (Inr resp, w')" and "rs_status resp \<in> {200, 304}"
  shows "\<exists>rv snap. t_revision (tables w) = Some rv
    \<and> build_pure E s (or_default (rq_query r ''channel'') ''stable'')
         (or_default (rq_query r ''platform'') default_platform) rv
         (audience_view E (bearer_token (rq_header r ''Authorization'')) (tables w)) (tables w) = Inr snap
    \<and> resp = catalog_response r snap
         (audience_view E (bearer_token (rq_header r ''Authorization'')) (tables w))"
  using handle_catalog_served [OF assms(1,2,4) reachable_public_ok [OF assms(1-3)] refl]
    reachable_private_ok [OF assms(1-3)] assms(5)
  by (metis insertE singletonD)

text \<open>A platform asks after a private app has been granted to it, and is offered that app.\<close>

theorem private_catalogue_current_witness:
  "\<exists>resp w' rv snap g apps. handle_catalog demo_env demo_module granted_ask granted_world = (Inr resp, w')
     \<and> resp = catalog_response granted_ask snap \<lparr>aud_platform_id = pg_uuid_text demo_env 15, aud_app_ids = [''a'']\<rparr>
     \<and> build_pure demo_env demo_signer ''stable'' ''1.0.0'' rv
         \<lparr>aud_platform_id = pg_uuid_text demo_env 15, aud_app_ids = [''a'']\<rparr> (tables granted_world) = Inr snap
     \<and> selected_apps demo_env ''stable'' ''1.0.0''
         \<lparr>aud_platform_id = pg_uuid_text demo_env 15, aud_app_ids = [''a'']\<rparr> (tables granted_world) = Inr (g, apps)
     \<and> map ca_id apps = [''a'']"
proof -
  let ?aud = "\<lparr>aud_platform_id = pg_uuid_text demo_env 15, aud_app_ids = [''a'']\<rparr>"
  have aud: "audience_view demo_env (bearer_token (rq_header granted_ask ''Authorization'')) (tables granted_world) = ?aud"
    by code_simp
  have "case selected_apps demo_env ''stable'' ''1.0.0'' ?aud (tables granted_world) of
      Inl e \<Rightarrow> False | Inr (g, apps) \<Rightarrow> map ca_id apps = [''a'']"
    by code_simp
  then obtain g apps where apps: "selected_apps demo_env ''stable'' ''1.0.0'' ?aud (tables granted_world) = Inr (g, apps)"
    "map ca_id apps = [''a'']" by (auto split: sum.splits)
  have "case fst (handle_catalog demo_env demo_module granted_ask granted_world) of
      Inl e \<Rightarrow> False | Inr resp \<Rightarrow> rs_status resp = 200"
    by code_simp
  then obtain resp w' where h: "handle_catalog demo_env demo_module granted_ask granted_world = (Inr resp, w')"
    and st: "rs_status resp \<in> {200, 304}"
    by (cases "handle_catalog demo_env demo_module granted_ask granted_world") (auto split: sum.splits)
  have m: "m_catalog demo_module = Some demo_signer" by (simp add: demo_module_def)
  have "or_default (rq_query granted_ask ''channel'') ''stable'' = ''stable''"
    "or_default (rq_query granted_ask ''platform'') default_platform = ''1.0.0''"
    by code_simp+
  with private_catalogue_current [OF demo_codec m granted_reachable h st] aud apps h show ?thesis by auto
qed

section \<open>The bound of the cache\<close>

text \<open>Every operation but a request for the catalogue leaves the public table alone or empties it.\<close>

definition cache_step :: "database \<Rightarrow> database \<Rightarrow> bool" where
  "cache_step d d' \<longleftrightarrow> t_snapshots d' = t_snapshots d \<or> t_snapshots d' = []"

definition bounded_cache :: "world \<Rightarrow> bool" where
  "bounded_cache w \<longleftrightarrow> quiet w \<and> distinct (map snapshot_key (t_snapshots (tables w)))
     \<and> (\<forall>channel. length (channel_rows channel (tables w)) \<le> 64)"

lemma bounded_step:
  assumes "cache_step (tables w) (tables w')" and "quiet w'" and "bounded_cache w"
  shows "bounded_cache w'"
  using assms by (auto simp: cache_step_def bounded_cache_def channel_rows_def)

lemma keeps_bounded:
  assumes "keeps quiet m" and "moves cache_step m"
  shows "keeps bounded_cache m"
proof (rule keepsI)
  fix w assume w: "bounded_cache w"
  then have "quiet (snd (m w))" using assms(1) by (intro keepsD [of quiet m]) (simp_all add: bounded_cache_def)
  with w assms(2) show "bounded_cache (snd (m w))" by (auto simp: moves_def intro: bounded_step)
qed

lemma channel_rows_store:
  "c \<noteq> fst k \<Longrightarrow> channel_rows c (store_public k sn t d) = channel_rows c d"
proof -
  assume c: "c \<noteq> fst k"
  have "filter (\<lambda>r. sn_channel r = c) (map (\<lambda>r. if at_key (fst k) (snd k) r
      then row_of_snapshot (fst k) (snd k) sn t else r) xs) = filter (\<lambda>r. sn_channel r = c) xs" for xs
    using c by (induction xs) (auto simp: at_key_def row_of_snapshot_def)
  moreover have "sn_channel (row_of_snapshot (fst k) (snd k) sn t) = fst k"
    by (simp add: row_of_snapshot_def)
  ultimately show ?thesis
    using c by (simp add: channel_rows_def store_public_def upsert_def update_where_def)
qed

lemma save_bounded: "keeps bounded_cache (save_snapshot E channel platform aud sn)"
proof (rule keepsI)
  fix w assume w: "bounded_cache w"
  then have q: "quiet w" by (simp add: bounded_cache_def)
  show "bounded_cache (snd (save_snapshot E channel platform aud sn w))"
  proof (cases "anonymous aud")
    case False
    have "moves cache_step (stmt (save_private_stmt E p c pl b))" for p c pl b
      by (rule moves_weaken [OF same_catalogue_side_stmts(1)]) (simp add: cache_step_def same_catalogue_def)
    with w False show ?thesis
      by (simp add: save_snapshot_def keepsD [OF keeps_bounded [OF keeps_quiet_stmt]])
  next
    case True
    define w1 where "w1 = (tick w)\<lparr>tables := store_public (channel, platform) sn (clock (tick w)) (tables w)\<rparr>"
    define w2 where "w2 = snd (prune_snapshots channel w1)"
    have q1: "quiet w1" using q by (simp add: w1_def)
    have d1: "distinct (map snapshot_key (t_snapshots (tables w1)))"
      using w by (simp add: w1_def distinct_store_public bounded_cache_def)
    have w2: "prune_stmt channel (clock (tick w1)) (next_uuid w1) (tables w1) = Inr ((), tables w2)"
      using q1 by (simp add: w2_def prune_snapshots_def stmt_quiet prune_stmt_def)
    have snaps: "t_snapshots (tables w2) = filter (\<lambda>r. \<not> (sn_channel r = channel \<and>
        sn_platform r \<notin> set (kept_platforms channel (tables w1)))) (t_snapshots (tables w1))"
      using w2 by (auto simp: prune_stmt_def dest!: arg_cong [where f = t_snapshots])
    have ch: "length (channel_rows c (tables w2)) \<le> 64" for c
    proof (cases "c = channel")
      case True
      with prune_bound [OF d1 w2] show ?thesis by simp
    next
      case False
      with snaps have "channel_rows c (tables w2) = channel_rows c (tables w1)"
        by (auto simp: channel_rows_def intro: filter_cong)
      also have "\<dots> = channel_rows c (tables w)"
        using False channel_rows_store [of c "(channel, platform)"]
        by (simp add: w1_def channel_rows_def)
      finally show ?thesis using w by (simp add: bounded_cache_def)
    qed
    have "distinct (map snapshot_key (t_snapshots (tables w2)))"
      unfolding snaps using d1 by (rule distinct_map_filter)
    moreover have "quiet w2" using q1 by (simp add: w2_def prune_snapshots_def keepsD [OF keeps_quiet_stmt])
    moreover have "snd (save_snapshot E channel platform aud sn w) = w2"
      using True q by (simp add: save_snapshot_def stmt_quiet save_public_stmt_def attempt_def w1_def w2_def
          split: prod.split)
    ultimately show ?thesis using ch by (simp add: bounded_cache_def)
  qed
qed

lemma catalog_bounded: "keeps bounded_cache (catalog E s channel platform aud)"
proof (rule keepsI)
  fix w assume w: "bounded_cache w"
  obtain r w' where c: "catalog E s channel platform aud w = (r, w')" by fastforce
  have q: "quiet w'"
    using w c keepsD [OF quiet_run.keeps_catalog, of w E s channel platform aud] by (simp add: bounded_cache_def)
  from c show "bounded_cache (snd (catalog E s channel platform aud w))"
  proof (cases rule: catalog_cases)
    case (built rv b w1)
    have "bounded_cache w1"
      using built(2,6) w by (simp add: bounded_cache_def)
    with c built(5) keepsD [OF save_bounded] show ?thesis by simp
  qed (use c q w in \<open>auto simp: bounded_cache_def\<close>)
qed

lemma side_cache_step: "moves same_catalogue m \<Longrightarrow> moves cache_step m"
  by (erule moves_weaken) (simp add: same_catalogue_def cache_step_def)

lemma counter_cache_step: "moves (\<lambda>d d'. d' = d \<or> bumped d d') m \<Longrightarrow> moves cache_step m"
  by (erule moves_weaken) (auto simp: bumped_def cache_step_def)

interpretation cache_steps: two_state cache_step
  by unfold_locales (auto simp: cache_step_def)

lemma submit_cache_step: "moves cache_step (submit_version E v x)"
  unfolding submit_version_def version_by_id_def
  by (intro cache_steps.moves_rules cache_steps.moves_transaction cache_steps.moves_stmt;
      auto dest!: frame simp: cache_step_def)

lemma discard_cache_step: "moves cache_step discard_snapshots"
  unfolding discard_snapshots_def by (rule cache_steps.moves_stmt) (auto simp: cache_step_def)

interpretation bounded: operations E bounded_cache UNIV for E
proof unfold_locales
  show "keeps bounded_cache (record_audit a)" for a
    by (rule keeps_bounded) (auto intro: cache_steps.moves_audit keeps_quiet_audit)
  show "bounded_cache (tick w)" if "bounded_cache w" for w
    using that by (simp add: bounded_cache_def)
qed (intro keeps_bounded catalog_bounded quiet_run.op_touch quiet_run.op_create quiet_run.op_enable
    quiet_run.op_discard_private quiet_run.op_discard quiet_run.op_publisher quiet_run.op_verify
    quiet_run.op_app quiet_run.op_submit quiet_run.op_decide quiet_run.op_grant quiet_run.op_revoke
    side_cache_step same_catalogue_platform_ops same_catalogue_publisher_ops submit_cache_step
    discard_cache_step counter_cache_step upsert_app_bumps decide_version_bumps; assumption?)+

text \<open>
  C18: a stranger cannot make the cache grow. In every state reached by requests handled one at a
  time, whichever calls fail, the public table holds one document for each channel and platform
  version, and a prune of a channel that goes through leaves at most 64 of them, whatever earlier
  prunes failed. When no call fails there are never more than 64, however many versions have been
  asked for.
\<close>

theorem cache_stays_bounded:
  assumes "uuid_codec E" and "reachable E m admits Q w"
  shows "distinct (map (\<lambda>r. (sn_channel r, sn_platform r)) (t_snapshots (tables w)))
    \<and> (\<forall>w'. prune_snapshots channel w = (Inr (), w') \<longrightarrow>
         length (filter (\<lambda>r. sn_channel r = channel) (t_snapshots (tables w'))) \<le> max_snapshots_per_channel)
    \<and> ((\<forall>os. Q os \<longrightarrow> Fails \<notin> set os) \<longrightarrow>
         length (filter (\<lambda>r. sn_channel r = channel) (t_snapshots (tables w))) \<le> max_snapshots_per_channel)"
proof (intro conjI allI impI)
  have d: "distinct (map snapshot_key (t_snapshots (tables w)))"
    using reachable_wf [OF assms] by (rule wf_dbD)
  then show "distinct (map (\<lambda>r. (sn_channel r, sn_platform r)) (t_snapshots (tables w)))"
    by (simp add: snapshot_key_def [abs_def])
  show "length (filter (\<lambda>r. sn_channel r = channel) (t_snapshots (tables w'))) \<le> max_snapshots_per_channel"
    if "prune_snapshots channel w = (Inr (), w')" for w'
  proof -
    from stmt_InrD [OF that [unfolded prune_snapshots_def]]
    have "prune_stmt channel (clock (tick w)) (next_uuid w) (tables w) = Inr ((), tables w')" by auto
    from prune_bound [OF d this] show ?thesis by (simp add: channel_rows_def max_snapshots_per_channel_def)
  qed
  show "length (filter (\<lambda>r. sn_channel r = channel) (t_snapshots (tables w))) \<le> max_snapshots_per_channel"
    if "\<forall>os. Q os \<longrightarrow> Fails \<notin> set os"
  proof -
    have "reachable E m admits all_answer w" by (rule reachable_schedules [OF assms(2)]) (simp add: that)
    then have "bounded_cache w"
    proof (rule reachable_invariant)
      show "bounded_cache (perform E m c w)" if "bounded_cache w" for w c
        using that by (intro perform_keeps [OF bounded.operations_axioms assms(1)]) simp_all
    qed (auto simp: bounded_cache_def quiet_def empty_db_def channel_rows_def)
    then show ?thesis by (simp add: bounded_cache_def channel_rows_def max_snapshots_per_channel_def)
  qed
qed

theorem cache_stays_bounded_witness:
  "length (filter (\<lambda>r. sn_channel r = ''stable'')
     (t_snapshots (tables (perform demo_env demo_module (GetCatalog no_request) boot_world)))) \<le> 64"
proof -
  have b: "reachable demo_env demo_module (\<lambda>_. True) all_answer boot_world"
    by (rule boot_reachable) simp
  have "step demo_env demo_module (\<lambda>_. True) all_answer boot_world
      (serve demo_env demo_module (\<lambda>_. True) (GetCatalog no_request) boot_world)"
    by (rule step.request)
  with b have "reachable demo_env demo_module (\<lambda>_. True) all_answer
      (perform demo_env demo_module (GetCatalog no_request) boot_world)"
    using reachable.onward by (fastforce simp: serve_def)
  from cache_stays_bounded [OF demo_codec this, of "''stable''"] show ?thesis
    by (simp add: max_snapshots_per_channel_def)
qed

end
