(* ===== verification/HandlerSpec.thy ===== *)
theory HandlerSpec
  imports Demo
begin

text \<open>
  What a response is: every public handler ends in one, its status, and, for a client that revalidates
  the catalogue, whether it is told that nothing has changed.
\<close>

section \<open>Statuses\<close>

lemma answers_touch [answers_intros]: "answers (touch_platform E p)"
  unfolding touch_platform_def by (intro answers_intros)

lemma answers_handle_catalog: "answers (handle_catalog E m r)"
  unfolding handle_catalog_def require_catalogue_def Let_def by (intro answers_intros)

text \<open>The status a call is answered with.\<close>

definition status_of :: "'b response act \<Rightarrow> world \<Rightarrow> nat option" where
  "status_of h w = (case fst (h w) of Inl e \<Rightarrow> None | Inr x \<Rightarrow> Some (rs_status x))"

fun answer_status :: "env \<Rightarrow> module \<Rightarrow> call \<Rightarrow> world \<Rightarrow> nat option" where
  "answer_status E m (GetCatalog r) w = status_of (handle_catalog E m r) w"
| "answer_status E m (ListApps r) w = status_of (handle_list_apps E r) w"
| "answer_status E m (GetApp r) w = status_of (handle_get_app E r) w"
| "answer_status E m (ListVersions r) w = status_of (handle_list_versions E r) w"
| "answer_status E m (Chronicle r) w = status_of (handle_chronicle E r) w"
| "answer_status E m Keys w = status_of (handle_keys E m) w"
| "answer_status E m RegistryState w = status_of (handle_registry_state E m) w"
| "answer_status E m RebuildSnapshots w = status_of (handle_rebuild_snapshots m) w"
| "answer_status E m ListPlatforms w = status_of (handle_list_platforms E) w"
| "answer_status E m (CreatePlatform r b) w = status_of (handle_create_platform E r b) w"
| "answer_status E m (SetPlatformEnabled r b) w = status_of (handle_set_platform_enabled E r b) w"
| "answer_status E m (Grant r) w = status_of (handle_grant E r) w"
| "answer_status E m (Revoke r) w = status_of (handle_revoke E r) w"
| "answer_status E m Queue w = status_of (handle_queue E) w"
| "answer_status E m (History r) w = status_of (handle_history E r) w"
| "answer_status E m (Decision r b) w = status_of (handle_decision E r b) w"
| "answer_status E m Publishers w = status_of (handle_publishers E) w"
| "answer_status E m (VerifyPublisher r) w = status_of (handle_verify_publisher E r) w"
| "answer_status E m (Profile r) w = status_of (handle_profile E r) w"
| "answer_status E m (SaveProfile r b) w = status_of (handle_save_profile E r b) w"
| "answer_status E m (ListOwnApps r) w = status_of (handle_list_own_apps E r) w"
| "answer_status E m (UpsertApp r b) w = status_of (handle_upsert_app E r b) w"
| "answer_status E m (ListOwnVersions r) w = status_of (handle_list_own_versions E r) w"
| "answer_status E m (SubmitVersion r b) w = status_of (handle_submit_version E r b) w"

section \<open>Revalidation\<close>

lemma set_hex_encode: "set (hex_encode s) \<subseteq> set hex_digits"
proof (induction s)
  case (Cons c s)
  have "byte c div 16 < length hex_digits" and "byte c mod 16 < length hex_digits"
    using byte_less_256 [of c] hex_digits_facts by (simp_all add: less_mult_imp_div_less)
  with Cons show ?case by simp
qed simp

lemma etag_solid: "list_all solid (etag_of E doc)" "CHR '','' \<notin> set (etag_of E doc)" "etag_of E doc \<noteq> []"
proof -
  have h: "list_all (\<lambda>c. solid c \<and> c \<noteq> CHR '','') hex_digits" by code_simp
  then have "list_all (\<lambda>c. solid c \<and> c \<noteq> CHR '','') (hex_encode (sha256 E doc))"
    using set_hex_encode [of "sha256 E doc"] unfolding list_all_iff by blast
  moreover have "list_all (\<lambda>c. solid c \<and> c \<noteq> CHR '','') (CHR 0x22 # ''sha256:'')" by code_simp
  ultimately have "list_all (\<lambda>c. solid c \<and> c \<noteq> CHR '','') (etag_of E doc)"
    by (simp add: etag_of_def)
  then show "list_all solid (etag_of E doc)" "CHR '','' \<notin> set (etag_of E doc)" "etag_of E doc \<noteq> []"
    by (auto simp: list_all_iff etag_of_def)
qed

lemma etag_of_inject: "etag_of E doc = etag_of E doc' \<longleftrightarrow> sha256 E doc = sha256 E doc'"
  by (simp add: etag_of_def hex.enc_inject)

lemma weak_etag:
  assumes "weak \<in> {[], ''W/''}"
  shows "trim_space (replicate k (CHR '' '') @ (weak @ etag_of E doc) @ replicate j (CHR '' '')) = weak @ etag_of E doc"
    and "CHR '','' \<notin> set (replicate k (CHR '' '') @ (weak @ etag_of E doc) @ replicate j (CHR '' ''))"
    and "(let c = weak @ etag_of E doc in c = ''*'' \<or> c = etag_of E doc' \<or> trim_prefix ''W/'' c = etag_of E doc')
      \<longleftrightarrow> sha256 E doc = sha256 E doc'"
proof -
  have w: "list_all solid weak" using assms by (auto simp: solid_def byte_def)
  show "trim_space (replicate k (CHR '' '') @ (weak @ etag_of E doc) @ replicate j (CHR '' '')) = weak @ etag_of E doc"
    using w etag_solid by (intro trim_space_blanks) simp_all
  show "CHR '','' \<notin> set (replicate k (CHR '' '') @ (weak @ etag_of E doc) @ replicate j (CHR '' ''))"
    using assms etag_solid by auto
  show "(let c = weak @ etag_of E doc in c = ''*'' \<or> c = etag_of E doc' \<or> trim_prefix ''W/'' c = etag_of E doc')
      \<longleftrightarrow> sha256 E doc = sha256 E doc'"
    using assms etag_of_inject [of E doc doc'] by (auto simp: etag_of_def trim_prefix_def)
qed

text \<open>
  Revalidation is exact. A client that sends back the ETag it was given, strong or weakened by
  a proxy and with blanks around it, is told that nothing has changed exactly when the document now
  has the same digest; and it is told so as well when other candidates follow.
\<close>

lemma etag_revalidates:
  assumes "weak \<in> {[], ''W/''}"
  shows "(etag_matches (replicate k (CHR '' '') @ (weak @ etag_of E doc) @ replicate j (CHR '' '')) (etag_of E doc')
      \<longleftrightarrow> sha256 E doc = sha256 E doc')
    \<and> (sha256 E doc = sha256 E doc' \<longrightarrow>
      etag_matches ((replicate k (CHR '' '') @ (weak @ etag_of E doc) @ replicate j (CHR '' '')) @ CHR '','' # others)
        (etag_of E doc'))"
proof -
  let ?c = "replicate k (CHR '' '') @ (weak @ etag_of E doc) @ replicate j (CHR '' '')"
  have "split_on (CHR '','') ?c = [?c]" and "split_on (CHR '','') (?c @ CHR '','' # others) = ?c # split_on (CHR '','') others"
    by (rule split_on_no_sep [OF weak_etag(2) [OF assms]], rule split_on_append [OF weak_etag(2) [OF assms]])
  then show ?thesis
    using weak_etag(1,3) [OF assms] by (simp add: etag_matches_def Let_def del: append_assoc)
qed

end
