(* ===== verification/AccessSpec.thy ===== *)
theory AccessSpec
  imports HandlerSpec Transactions
begin

text \<open>
  Who sees what, and what a decision leaves behind: the operators' endpoints when the database
  fails half-way, the storefront's reads, a publisher asking for another's app, the reviewers'
  decisions and their audit.
\<close>

section \<open>Half-done changes\<close>

lemma fails_sched: "sched w = Fails # os \<Longrightarrow> fails w" "sched w = Succeeds n # os \<Longrightarrow> \<not> fails w"
  "sched w = [] \<Longrightarrow> \<not> fails w"
  by (simp_all add: fails_def)

lemma sched_tick: "sched (tick w) = tl (sched w)"
  by (simp add: tick_def split: list.split outcome.split)

text \<open>What a revocation does when the second of its two statements fails.\<close>

lemma revoke_failed_discard:
  assumes "pg_uuid E (rq_param r ''id'') = Some u" and "sched w = [Succeeds k, Fails]"
  shows "\<exists>w'. handle_revoke E r w = (Inr (respond 200 (Json (PGranted (rq_param r ''id'') (rq_param r ''appID'') False))), w')
    \<and> quiet w' \<and> tables w' = (tables w)\<lparr>t_grants :=
         filter (\<lambda>g. \<not> (gr_app g = rq_param r ''appID'' \<and> gr_platform g = u)) (t_grants (tables w))\<rparr>"
proof -
  let ?w1 = "(tick w)\<lparr>tables := (tables w)\<lparr>t_grants :=
         filter (\<lambda>g. \<not> (gr_app g = rq_param r ''appID'' \<and> gr_platform g = u)) (t_grants (tables w))\<rparr>\<rparr>"
  have "revoke E (rq_param r ''appID'') (rq_param r ''id'') w = (Inr (), ?w1)"
    using assms by (simp add: revoke_def stmt_def Let_def revoke_stmt_def fails_sched)
  moreover have f: "fails ?w1" using assms(2) by (intro fails_sched(1)) (simp add: sched_tick)
  then have "discard_private_snapshots E (rq_param r ''id'') ?w1 = (Inl ErrDriver, tick ?w1)"
    by (simp add: discard_private_snapshots_def stmt_def)
  moreover have "quiet (tick ?w1)" using assms(2) by (simp add: quiet_def sched_tick)
  ultimately show ?thesis
    by (simp add: handle_revoke_def Let_def attempt_def record_audit_def answer_json_def)
qed

lemma catalog_hit:
  assumes "quiet w" and "t_revision (tables w) = Some rv"
    and "load_for E (or_default channel ''stable'') (or_default platform default_platform) aud (tables w) = Inr (Some sn)"
    and "ss_revision sn = rv"
  shows "fst (catalog E s channel platform aud w) = Inr sn"
  using assms
  by (simp add: catalog_def Let_def revision_def load_snapshot_query query_quiet andthen_apply)

text \<open>A document on file at the present revision is what its platform is served.\<close>

lemma platform_served_held:
  assumes "uuid_codec E" and "wf_platforms n (t_platforms (tables w))" and "quiet w" and "m_catalog m = Some s"
    and "p \<in> set (t_platforms (tables w))" and "pl_disabled_at p = None"
    and "pl_digest p = token_digest E (bearer_token (rq_header q ''Authorization''))"
    and "bearer_token (rq_header q ''Authorization'') \<noteq> []"
    and "grants_of (pl_id p) (tables w) \<noteq> []"
    and "valid_catalog_query E (rq_query q ''channel'') (rq_query q ''platform'') = None"
    and "load_private (pl_id p, or_default (rq_query q ''channel'') ''stable'',
           or_default (rq_query q ''platform'') default_platform) (tables w) = Some sn"
    and "t_revision (tables w) = Some (ss_revision sn)"
  shows "\<exists>aud w'. handle_catalog E m q w = (Inr (catalog_response q sn aud), w')"
proof -
  let ?t = "bearer_token (rq_header q ''Authorization'')"
  have "find (\<lambda>r. pl_digest r = token_digest E ?t) (t_platforms (tables w)) = Some p"
    using assms(2,5,7) by (intro find_distinct_key [where key = pl_digest]) (auto simp: wf_platforms_def)
  then have aud: "audience_view E ?t (tables w) = platform_audience E (pl_id p) (tables w)"
    using assms(6,8,9) by (simp add: audience_view_def platform_audience_def)
  then have priv: "\<not> anonymous (audience_view E ?t (tables w))"
    using platform_not_anonymous [OF assms(1)] by simp
  obtain resp w2 where h: "handle_catalog E m q w = (Inr resp, w2)"
    using answers_handle_catalog [of E m q] unfolding answers_def by (metis prod.collapse)
  from assms(1,4) h have "resp = catalog_response q sn (audience_view E ?t (tables w))"
  proof (cases rule: handle_catalog_cases)
    case (asked wq res)
    have l: "load_private k (tables wq) = load_private k (tables w)" for k
      using asked(2) by (simp add: same_private_def load_private_def)
    have "fst (catalog E s (rq_query q ''channel'') (rq_query q ''platform'')
        (audience_view E ?t (tables w)) wq) = Inr sn"
    proof (rule catalog_hit [OF asked(3) [OF assms(3)] _ _ refl])
      show "t_revision (tables wq) = Some (ss_revision sn)"
        using asked(1) assms(12) by (simp add: same_catalogue_def)
      show "load_for E (or_default (rq_query q ''channel'') ''stable'')
          (or_default (rq_query q ''platform'') default_platform) (audience_view E ?t (tables w)) (tables wq)
          = Inr (Some sn)"
        using priv assms(11) l uuid_codecD(1) [OF assms(1)]
        by (simp add: load_for_def aud platform_audience_def)
    qed
    with asked(4) have "res = Inr sn" by simp
    with asked(5) show ?thesis by simp
  next
    case failed
    with audience_for_quiet [OF assms(1,3)] show ?thesis by simp
  qed (use assms(10) in simp)
  with h show ?thesis by blast
qed

text \<open>
  A revocation whose clean-up fails is reported as done and is not. When the database refuses
  the statement that discards the platform's cached documents, the operator is answered 200, and a
  platform that keeps another grant is still served the document built before, with the revoked
  app in it, until something is published.
\<close>

lemma revocation_outlived_by_document:
  assumes "uuid_codec E" and "wf_db n (tables w)" and "m_catalog m = Some s"
    and "pg_uuid E (rq_param r ''id'') = Some (pl_id p)" and "sched w = [Succeeds k, Fails]"
    and "p \<in> set (t_platforms (tables w))" and "pl_disabled_at p = None"
    and "pl_digest p = token_digest E (bearer_token (rq_header q ''Authorization''))"
    and "bearer_token (rq_header q ''Authorization'') \<noteq> []"
    and "g \<in> set (t_grants (tables w))" and "gr_platform g = pl_id p" and "gr_app g \<noteq> rq_param r ''appID''"
    and "valid_catalog_query E (rq_query q ''channel'') (rq_query q ''platform'') = None"
    and "load_private (pl_id p, or_default (rq_query q ''channel'') ''stable'',
           or_default (rq_query q ''platform'') default_platform) (tables w) = Some sn"
    and "t_revision (tables w) = Some (ss_revision sn)"
  shows "\<exists>resp w1 aud w2. handle_revoke E r w = (Inr resp, w1) \<and> rs_status resp = 200
    \<and> rq_param r ''appID'' \<notin> set (grants_of (pl_id p) (tables w1))
    \<and> handle_catalog E m q w1 = (Inr (catalog_response q sn aud), w2)"
proof -
  from revoke_failed_discard [OF assms(4,5)] obtain w1 where
    rv: "handle_revoke E r w = (Inr (respond 200 (Json (PGranted (rq_param r ''id'') (rq_param r ''appID'') False))), w1)"
    and qw: "quiet w1" and t1: "tables w1 = (tables w)\<lparr>t_grants :=
         filter (\<lambda>g. \<not> (gr_app g = rq_param r ''appID'' \<and> gr_platform g = pl_id p)) (t_grants (tables w))\<rparr>"
    by blast
  have gone: "rq_param r ''appID'' \<notin> set (grants_of (pl_id p) (tables w1))"
    by (auto simp: t1 grants_of_def)
  have "gr_app g \<in> set (grants_of (pl_id p) (tables w1))"
    using assms(10-12) by (auto simp: t1 grants_of_def)
  then have "grants_of (pl_id p) (tables w1) \<noteq> []" by auto
  moreover have "wf_platforms n (t_platforms (tables w1))" using wf_dbD(4) [OF assms(2)] by (simp add: t1)
  ultimately have "\<exists>aud w2. handle_catalog E m q w1 = (Inr (catalog_response q sn aud), w2)"
    using assms(6-9,13-15)
    by (intro platform_served_held [where p = p and n = n, OF assms(1) _ qw assms(3)]) (auto simp: t1 load_private_def)
  with rv gone show ?thesis by (auto simp: respond_def)
qed

text \<open>The demo tables with a second private app granted to the platform, and a document on file.\<close>

definition stale_document :: snapshot where
  "stale_document = \<lparr>ss_revision = 0, ss_generated_at = 0, ss_etag = ''e'', ss_document = ''d''\<rparr>"

definition stale_world :: world where
  "stale_world = demo_world
     \<lparr>tables := demo_db
        \<lparr>t_apps := t_apps demo_db @ [demo_app ''c'' ''private''],
         t_grants := t_grants demo_db @ [\<lparr>gr_app = ''c'', gr_platform = 4, gr_granted_at = 0, gr_granted_by = None\<rparr>],
         t_private := [(4, row_of_snapshot ''stable'' ''1.0.0'' stale_document 0)]\<rparr>,
      sched := [Succeeds 0, Fails]\<rparr>"

definition stale_revoke :: request where
  "stale_revoke = no_request\<lparr>rq_param := (\<lambda>k. if k = ''id'' then ''xxxxx'' else ''b'')\<rparr>"

definition stale_query :: request where
  "stale_query = no_request\<lparr>rq_header := (\<lambda>k. if k = ''Authorization'' then ''Bearer T'' else [])\<rparr>"

text \<open>
  Rebuilding discards the public documents and only those: the count answered is that of the
  public table, and what is cached for platforms is still there and still served.
\<close>

lemma rebuild_leaves_private_documents:
  assumes "m_catalog m = Some s" and "quiet w"
  shows "handle_rebuild_snapshots m w =
      (Inr (respond 200 (Json (PDiscarded (length (t_snapshots (tables w)))))),
       (tick w)\<lparr>tables := (tables w)\<lparr>t_snapshots := []\<rparr>\<rparr>)
    \<and> (\<forall>k. load_public k ((tables w)\<lparr>t_snapshots := []\<rparr>) = None)
    \<and> (\<forall>k. load_private k ((tables w)\<lparr>t_snapshots := []\<rparr>) = load_private k (tables w))"
  using assms
  by (simp add: handle_rebuild_snapshots_def require_catalogue_def discard_snapshots_def stmt_quiet
      attempt_def answer_json_def load_public_def load_private_def)

section \<open>What strangers and other publishers see\<close>

lemma scan_appsD:
  assumes "scan_apps E d as = Inr xs" and "x \<in> set xs"
  shows "\<exists>a\<in>set as. scan_app_into E d a = Inr (Some x)"
  using assms by (induction as arbitrary: xs) (auto split: sum.splits option.splits)

lemma scan_app_intoD: "scan_app_into E d a = Inr (Some x) \<Longrightarrow> a_id x = app_id a \<and> a_name x = app_name a
    \<and> a_visibility x = app_visibility a \<and> a_publisher_id x = pg_uuid_text E (app_publisher a)"
  by (auto simp: scan_app_into_def split: option.splits sum.splits)

lemma scan_apps_sorted:
  assumes "scan_apps E d as = Inr xs" and "sorted (map app_name as)"
  shows "sorted (map a_name xs)"
  using assms
proof (induction as arbitrary: xs)
  case (Cons a as)
  then obtain x ys where a: "scan_app_into E d a = Inr x" and ys: "scan_apps E d as = Inr ys"
    and xs: "xs = (case x of None \<Rightarrow> ys | Some y \<Rightarrow> y # ys)"
    by (auto split: sum.splits)
  have "app_name a \<le> a_name y" if "y \<in> set ys" for y
    using scan_appsD [OF ys that] Cons.prems(2) scan_app_intoD by fastforce
  with Cons.IH [OF ys] Cons.prems(2) a show ?case
    by (auto simp: xs dest: scan_app_intoD split: option.split)
qed simp

text \<open>
  C26: the storefront lists what has been reviewed. Every app on the public listing is public and
  has a published version, and the listing is in the order of the names.
\<close>

theorem storefront_lists_published:
  assumes "fst (list_apps E [] w) = Inr apps"
  shows "sorted (map a_name apps) \<and> (\<forall>x\<in>set apps. a_visibility x = ''public''
    \<and> (\<exists>v\<in>set (t_versions (tables w)). ver_app v = a_id x \<and> is_published v))"
proof -
  let ?d = "tables w"
  let ?rows = "sort_key app_name (filter (\<lambda>a. app_visibility a = ''public'' \<and> has_published (app_id a) ?d) (t_apps ?d))"
  have s: "scan_apps E ?d ?rows = Inr apps"
    using assms by (simp add: list_apps_def listed_apps_def query_def split: if_splits)
  have "a_visibility x = ''public'' \<and> (\<exists>v\<in>set (t_versions ?d). ver_app v = a_id x \<and> is_published v)"
    if "x \<in> set apps" for x
    using scan_appsD [OF s that] by (auto simp: has_published_def list_ex_iff dest!: scan_app_intoD)
  with scan_apps_sorted [OF s] show ?thesis by simp
qed

theorem storefront_lists_published_witness:
  "\<exists>apps. fst (list_apps demo_env [] demo_world) = Inr apps \<and> length apps = 1
     \<and> (\<forall>x\<in>set apps. a_visibility x = ''public'')"
proof -
  have "case fst (list_apps demo_env [] demo_world) of Inl e \<Rightarrow> False | Inr apps \<Rightarrow> length apps = 1"
    by code_simp
  then obtain apps where "fst (list_apps demo_env [] demo_world) = Inr apps" and "length apps = 1"
    by (auto split: sum.splits)
  with storefront_lists_published [of demo_env demo_world apps] show ?thesis by blast
qed

text \<open>
  A private app has a public page. Unlike the listing and the signed catalogue, the page of
  one app is found by its slug alone: it is answered 200, with the app's description and its
  published versions, whatever the app's visibility is and whether or not anything is published.
\<close>

lemma page_ignores_visibility:
  assumes "quiet w" and "wf_db n (tables w)" and "a \<in> set (t_apps (tables w))"
    and "app_slug a = rq_param r ''slug''" and "scan_app_into E (tables w) a = Inr (Some x)"
    and "scan_versions E (versions_of (app_id a) True (tables w)) = Inr vs"
  shows "\<exists>v w'. handle_get_app E r w = (Inr (respond 200 (Json (PApp v))), w')
    \<and> vw_id v = app_id a \<and> vw_versions v = Some vs \<and> vw_publisher v = a_publisher_name x"
proof -
  have f: "find (\<lambda>b. app_slug b = rq_param r ''slug'') (t_apps (tables w)) = Some a"
    using wf_dbD(2) [OF assms(2)] assms(3,4)
    by (intro find_distinct_key [where key = app_slug]) (auto simp: wf_apps_def)
  have x: "a_id x = app_id a" using scan_app_intoD [OF assms(5)] by simp
  have view: "app_view x loc v = (Inr (translate_view (texts_of (a_id x) (tables v)) loc (app_view_base x)), tick v)"
    if "quiet v" for v loc
    using that by (simp add: app_view_def app_texts_def attempt_def query_quiet)
  have t: "vw_id (translate_view ts loc (app_view_base x)) = app_id a
      \<and> vw_publisher (translate_view ts loc (app_view_base x)) = a_publisher_name x" for ts loc
    using x by (simp add: translate_view_def app_view_base_def Let_def split: option.split)
  show ?thesis
    using assms(1,6) f assms(5) x t
    by (auto simp: handle_get_app_def with_app_by_slug_def app_by_slug_def list_versions_def attempt_def
        query_quiet scan_app_def view Let_def external_registration_of_def answer_json_def andthen_apply
        split: option.split sum.split)
qed

text \<open>The same request about another slug.\<close>

definition about_slug :: "string \<Rightarrow> request \<Rightarrow> request" where
  "about_slug slug r = r\<lparr>rq_param := (rq_param r)(''slug'' := slug)\<rparr>"

text \<open>No app with the slug is one of the caller's organisation.\<close>

definition not_owned :: "env \<Rightarrow> request \<Rightarrow> string \<Rightarrow> database \<Rightarrow> bool" where
  "not_owned E r slug d \<longleftrightarrow> (\<forall>a\<in>set (t_apps d). \<forall>p\<in>set (t_publishers d). \<forall>t.
     app_slug a = slug \<longrightarrow> rq_tenant r = Inr t \<longrightarrow> pg_uuid E t = Some (pub_tenant p) \<longrightarrow> app_publisher a \<noteq> pub_id p)"

text \<open>What \<open>own_app\<close> comes to for a slug that is not the caller's, whatever it would go on to do.\<close>

definition not_yours :: "env \<Rightarrow> request \<Rightarrow> publisher_payload response act" where
  "not_yours E r = publisher_for E r (\<lambda>p t. attempt (query (\<lambda>d. Inr ())) (\<lambda>_. answer_error 404 ''app not found''))"

lemma own_app_foreign:
  assumes "uuid_codec E" and "not_owned E r (rq_param r ''slug'') (tables w)"
  shows "own_app E r k w = not_yours E r w"
proof (cases "\<exists>t p w'. rq_tenant r = Inr t \<and> publisher_by_tenant E t w = (Inr p, w')")
  case False
  then show ?thesis
    by (auto simp: own_app_def not_yours_def publisher_for_def attempt_def split: sum.splits prod.splits)
next
  case True
  then obtain t b w' where t: "rq_tenant r = Inr t" and pub: "publisher_by_tenant E t w = (Inr b, w')" by blast
  from pub obtain u p where u: "pg_uuid E t = Some u" and "find (\<lambda>q. pub_tenant q = u) (t_publishers (tables w)) = Some p"
    and b: "b = publisher_of_row E p" and w': "tables w' = tables w"
    by (auto simp: publisher_by_tenant_def query_def scan_publisher_def split: if_splits option.splits)
  then have p: "p \<in> set (t_publishers (tables w))" "pub_tenant p = u" by (auto dest: find_SomeD)
  let ?f = "find (\<lambda>a. app_slug a = rq_param r ''slug'') (t_apps (tables w))"
  have "a_publisher_id x \<noteq> b_id b" if x: "scan_app E (tables w) ?f = Inr x" for x
  proof -
    from x obtain a where a: "?f = Some a" and "scan_app_into E (tables w) a = Inr (Some x)"
      by (auto simp: scan_app_def split: option.splits sum.splits)
    with scan_app_intoD have "a_publisher_id x = pg_uuid_text E (app_publisher a)" by blast
    moreover have "app_publisher a \<noteq> pub_id p"
      using assms(2) a t u p by (auto simp: not_owned_def dest: find_SomeD)
    ultimately show ?thesis using uuid_text_inject [OF assms(1)] by (simp add: b publisher_of_row_def)
  qed
  then show ?thesis
    using t pub w'
    by (auto simp: own_app_def not_yours_def publisher_for_def app_by_slug_def query_def attempt_def answer_error_def
        split: sum.split)
qed

lemma not_yours_about: "not_yours E (about_slug slug r) = not_yours E r"
  by (simp add: not_yours_def publisher_for_def about_slug_def)

lemma not_yours_writes_nothing: "silent (not_yours E r)" "tables (snd (not_yours E r w)) = tables w"
proof -
  show "silent (not_yours E r)"
    unfolding not_yours_def publisher_for_def publisher_by_tenant_def answer_error_def by (intro silent_rules)
  show "tables (snd (not_yours E r w)) = tables w"
    by (simp add: not_yours_def publisher_for_def publisher_by_tenant_def query_def attempt_def answer_error_def
        split: sum.split)
qed

text \<open>
  C25: another publisher's app is as good as absent. Whichever driver calls fail, a caller gets, for
  a slug under which no app of its own organisation is registered, the same answer and leaves the
  same world as for any other such slug, one that names no app included, and no table changes. While
  the database answers, that is a 404 to a caller whose organisation has a profile.
\<close>

theorem foreign_app_hidden:
  assumes "uuid_codec E" and "not_owned E r (rq_param r ''slug'') (tables w)" and "not_owned E r slug (tables w)"
  shows "handle_list_own_versions E r w = handle_list_own_versions E (about_slug slug r) w
    \<and> handle_submit_version E r b w = handle_submit_version E (about_slug slug r) b w
    \<and> tables (snd (handle_submit_version E r b w)) = tables w
    \<and> audits (snd (handle_submit_version E r b w)) = audits w
    \<and> (quiet w \<longrightarrow> (\<exists>t p. rq_tenant r = Inr t \<and> p \<in> set (t_publishers (tables w)) \<and> pg_uuid E t = Some (pub_tenant p)) \<longrightarrow>
        fst (handle_submit_version E r b w) = Inr (respond 404 (ErrorText ''app not found''))
        \<and> fst (handle_list_own_versions E r w) = Inr (respond 404 (ErrorText ''app not found'')))"
proof -
  have s: "rq_param (about_slug slug r) ''slug'' = slug" and t: "rq_tenant (about_slug slug r) = rq_tenant r"
    by (simp_all add: about_slug_def)
  have "not_owned E (about_slug slug r) (rq_param (about_slug slug r) ''slug'') (tables w)"
    using assms(3) unfolding s by (simp add: not_owned_def t)
  note own = own_app_foreign [OF assms(1,2)] own_app_foreign [OF assms(1) this, unfolded not_yours_about]
  have "fst (not_yours E r w) = Inr (respond 404 (ErrorText ''app not found''))"
    if "quiet w" and "rq_tenant r = Inr t'" and "p \<in> set (t_publishers (tables w))" and "pg_uuid E t' = Some (pub_tenant p)"
    for t' p
  proof -
    have "find (\<lambda>q. pub_tenant q = pub_tenant p) (t_publishers (tables w)) \<noteq> None"
      using that(3) by (auto simp: find_None_iff)
    with that show ?thesis
      by (auto simp: not_yours_def publisher_for_def publisher_by_tenant_def scan_publisher_def query_quiet attempt_def
          answer_error_def)
  qed
  then show ?thesis
    using not_yours_writes_nothing(2) [of E r w] silentD [OF not_yours_writes_nothing(1) [of E r], of w]
    by (auto simp: handle_list_own_versions_def handle_submit_version_def own)
qed

text \<open>A second organisation asks about the first one's app \<open>a\<close>, and about \<open>c\<close>, which does not exist.\<close>

definition rival_world :: world where
  "rival_world = demo_world\<lparr>tables := demo_db\<lparr>t_publishers :=
     [demo_publisher, demo_publisher\<lparr>pub_id := 7, pub_tenant := 1, pub_slug := ''rival''\<rparr>]\<rparr>\<rparr>"

definition rival_request :: request where
  "rival_request = demo_request\<lparr>rq_tenant := Inr ''xx'', rq_param := (\<lambda>_. ''a'')\<rparr>"

definition rival_body :: "submit_body option" where
  "rival_body = Some \<lparr>sb_channel = [], sb_manifest = demo_manifest ''a'' ''9''\<rparr>"

theorem foreign_app_hidden_witness:
  "''a'' \<in> app_slug ` set (t_apps (tables rival_world)) \<and> ''c'' \<notin> app_slug ` set (t_apps (tables rival_world))
    \<and> handle_submit_version demo_env rival_request rival_body rival_world =
        handle_submit_version demo_env (about_slug ''c'' rival_request) rival_body rival_world
    \<and> fst (handle_submit_version demo_env rival_request rival_body rival_world) = Inr (respond 404 (ErrorText ''app not found''))"
proof -
  note w = rival_world_def rival_request_def demo_world_def demo_db_def empty_db_def demo_app_def demo_publisher_def
    demo_env_def demo_uuid_def demo_request_def quiet_def
  have a: "''a'' \<in> app_slug ` set (t_apps (tables rival_world))" "''c'' \<notin> app_slug ` set (t_apps (tables rival_world))"
    by (simp_all add: w)
  have n: "not_owned demo_env rival_request slug (tables rival_world)" for slug
    by (simp add: not_owned_def w)
  have "quiet rival_world" and "rq_tenant rival_request = Inr ''xx''"
    and "demo_publisher\<lparr>pub_id := 7, pub_tenant := 1, pub_slug := ''rival''\<rparr> \<in> set (t_publishers (tables rival_world))"
    and "pg_uuid demo_env ''xx'' = Some (pub_tenant (demo_publisher\<lparr>pub_id := 7, pub_tenant := 1, pub_slug := ''rival''\<rparr>))"
    by (simp_all add: w)
  with foreign_app_hidden [OF demo_codec n n, of "''c''" rival_body] a show ?thesis by blast
qed

section \<open>Decisions\<close>

lemma decide_audits: "audits (snd (decide_version E v action aid actor nt w)) = audits w"
  unfolding decide_version_def bump_revision_def by (intro silentD silent_rules)

text \<open>
  C24: who decided, and why. A decision answered 200 was made by a signed-in user of a tenant, says
  why unless it publishes, is in the tables in full, with that user on the event, and is audited
  once under that user; a decision answered otherwise has changed no table and is not audited.
\<close>

theorem decision_recorded:
  assumes "handle_decision E r b w = (Inr resp, w')" and "rq_tenant r \<noteq> Inl 200"
  shows "(rs_status resp = 200 \<longrightarrow> (\<exists>t c d. rq_tenant r = Inr t \<and> rq_claims r = Some c \<and> b = Some d
      \<and> (de_action d = ''publish'' \<or> trim_space (de_note d) \<noteq> [])
      \<and> decide_pure E (rq_param r ''id'') (de_action d) (cl_user_id c) (cl_email c) (trim_space (de_note d))
          (now (tick w)) (tables w) = Inr ((), tables w')
      \<and> audits w' = audits w @ [\<lparr>au_tenant = t, au_user = cl_user_id c, au_action = ''review.'' @ de_action d,
          au_kind = ''store_app_version'',
          au_details = [(''version_id'', AuditText (rq_param r ''id'')), (''note'', AuditText (de_note d))]\<rparr>]))
    \<and> (rs_status resp \<noteq> 200 \<longrightarrow> tables w' = tables w \<and> audits w' = audits w)"
proof (cases "\<exists>t c d. rq_tenant r = Inr t \<and> rq_claims r = Some c \<and> b = Some d \<and> decision_error d = None")
  case False
  then have "tables w' = tables w \<and> audits w' = audits w \<and> rs_status resp \<noteq> 200"
    using assms
    by (auto simp: handle_decision_def require_session_def answer_error_def respond_def
        split: sum.splits option.splits)
  then show ?thesis by simp
next
  case True
  then obtain t c d where s: "rq_tenant r = Inr t" "rq_claims r = Some c" "b = Some d" "decision_error d = None"
    by blast
  obtain res w1 where dec: "decide_version E (rq_param r ''id'') (de_action d) (cl_user_id c) (cl_email c)
      (trim_space (de_note d)) w = (res, w1)" by fastforce
  have au: "audits w1 = audits w" using decide_audits dec by (metis snd_conv)
  have nt: "de_action d = ''publish'' \<or> trim_space (de_note d) \<noteq> []"
    using s(4) by (auto simp: decision_error_def split: if_splits)
  show ?thesis
  proof (cases res)
    case (Inl e)
    then have "tables w1 = tables w"
      using decide_refines [of E "rq_param r ''id''" "de_action d" "cl_user_id c" "cl_email c" "trim_space (de_note d)" w] dec
      by auto
    with assms(1) s dec Inl au show ?thesis
      by (auto simp: handle_decision_def require_session_def attempt_def answer_error_def respond_def
          split: if_splits)
  next
    case (Inr u)
    with decide_okD dec have "decide_pure E (rq_param r ''id'') (de_action d) (cl_user_id c) (cl_email c)
        (trim_space (de_note d)) (now (tick w)) (tables w) = Inr ((), tables w1)" by simp
    with assms(1) s dec Inr au nt show ?thesis
      by (auto simp: handle_decision_def require_session_def attempt_def answer_json_def respond_def
          record_audit_def)
  qed
qed

theorem decision_recorded_witness:
  "\<exists>resp w'. handle_decision demo_env (demo_request\<lparr>rq_param := (\<lambda>_. ''xxxxxx'')\<rparr>)
       (Some \<lparr>de_action = ''reject'', de_note = '' no icon ''\<rparr>) demo_world = (Inr resp, w')
     \<and> length (audits w') = 1"
proof -
  let ?h = "handle_decision demo_env (demo_request\<lparr>rq_param := (\<lambda>_. ''xxxxxx'')\<rparr>)
       (Some \<lparr>de_action = ''reject'', de_note = '' no icon ''\<rparr>) demo_world"
  have "case fst ?h of Inl e \<Rightarrow> False | Inr resp \<Rightarrow> rs_status resp = 200" by code_simp
  then obtain resp w' where h: "?h = (Inr resp, w')" and s: "rs_status resp = 200"
    by (cases ?h) (auto split: sum.splits)
  have "rq_tenant (demo_request\<lparr>rq_param := (\<lambda>_. ''xxxxxx'')\<rparr>) \<noteq> Inl 200" and "audits demo_world = []"
    by (simp_all add: demo_request_def demo_world_def)
  with decision_recorded [OF h] h s show ?thesis by auto
qed

end
