(* ===== verification/PublicationSpec.thy ===== *)
theory PublicationSpec
  imports ReviewSpec AccessSpec
begin

text \<open>
  From a reviewer's decision to the instances: a version that is published is offered by the next
  catalogue, whatever documents have been cached.
\<close>

section \<open>Serving, when the database answers\<close>

lemma catalog_answers:
  assumes "uuid_codec E" and "quiet w" and "t_revision (tables w) = Some rv" and "public_ok E s (tables w)"
    and "build_pure E s (or_default channel ''stable'') (or_default platform default_platform) rv no_audience
           (tables w) = Inr snap"
  shows "fst (catalog E s channel platform no_audience w) = Inr snap"
proof -
  have "fst (catalog E s channel platform no_audience w) \<noteq> Inl ErrDriver"
    using assms(2,3,5) build_quiet [of "tick (tick w)" E s "or_default channel ''stable''"
        "or_default platform default_platform" rv no_audience]
    by (auto simp: catalog_def Let_def revision_def load_snapshot_query query_quiet andthen_apply attempt_def
        load_for_def anonymous_no_audience split: prod.splits option.split)
  moreover obtain r w' where r: "catalog E s channel platform no_audience w = (r, w')" by fastforce
  have "current_audience E no_audience (tables w)" by (simp add: current_audience_def)
  from catalog_transparent [OF assms(1) this assms(4) _ r] anonymous_no_audience
  have "r = Inl ErrDriver \<or> (\<exists>rv. t_revision (tables w) = Some rv \<and>
    r = build_pure E s (or_default channel ''stable'') (or_default platform default_platform) rv no_audience (tables w))"
    by simp
  ultimately show ?thesis using r assms(3,5) by auto
qed

lemma public_served:
  assumes "uuid_codec E" and "m_catalog m = Some s" and "quiet w" and "public_ok E s (tables w)"
    and "audience_view E (bearer_token (rq_header q ''Authorization'')) (tables w) = no_audience"
    and "valid_catalog_query E (rq_query q ''channel'') (rq_query q ''platform'') = None"
    and "t_revision (tables w) = Some rv"
    and "build_pure E s (or_default (rq_query q ''channel'') ''stable'')
           (or_default (rq_query q ''platform'') default_platform) rv no_audience (tables w) = Inr snap"
  shows "\<exists>w'. handle_catalog E m q w = (Inr (catalog_response q snap no_audience), w')"
proof -
  obtain resp w2 where h: "handle_catalog E m q w = (Inr resp, w2)"
    using answers_handle_catalog [of E m q] unfolding answers_def by (metis prod.collapse)
  from assms(1,2) h have "resp = catalog_response q snap no_audience"
  proof (cases rule: handle_catalog_cases)
    case (asked wq res)
    have "build_pure E s ch pl rv no_audience (tables wq) = build_pure E s ch pl rv no_audience (tables w)" for ch pl
      by (rule build_pure_content) (use same_content [OF asked(1)] in simp)
    moreover have "t_revision (tables wq) = Some rv" using asked(1) assms(7) by (simp add: same_catalogue_def)
    moreover have "public_ok E s (tables wq)" using same_frames_ok(1) [OF asked(1,2)] assms(4) by metis
    ultimately have "fst (catalog E s (rq_query q ''channel'') (rq_query q ''platform'') no_audience wq) = Inr snap"
      using catalog_answers [OF assms(1) asked(3) [OF assms(3)]] assms(8) by simp
    with asked(4) assms(5) have "res = Inr snap" by simp
    with asked(5) assms(5) show ?thesis by simp
  next
    case failed
    with audience_for_quiet [OF assms(1,3)] show ?thesis by simp
  qed (use assms(6) in simp)
  with h show ?thesis by blast
qed

section \<open>What a decision to publish puts on offer\<close>

lemma handle_decision_made:
  assumes "handle_decision E r (Some b) w = (Inr resp, w')" and "rs_status resp = 200" and "rq_tenant r \<noteq> Inl 200"
  obtains aid actor w1 where "decide_version E (rq_param r ''id'') (de_action b) aid actor (trim_space (de_note b)) w = (Inr (), w1)"
    and "tables w' = tables w1"
  using assms
  by (auto simp: handle_decision_def require_session_def attempt_def answer_error_def answer_json_def respond_def
      record_audit_def andthen_apply split: sum.splits option.splits prod.splits if_splits)

lemma published_eligible:
  assumes "decide_version E vid ''publish'' aid actor nt w = (Inr (), w')"
    and "v \<in> set (t_versions (tables w))" and "pg_uuid E vid = Some (ver_id v)"
    and "a \<in> set (t_apps (tables w))" and "app_id a = ver_app v" and "app_visibility a = ''public''"
    and "platform_allows E (ver_min_platform v) platform"
  shows "\<exists>r. eligible E (ver_channel v) platform (aud_app_ids no_audience) (tables w') r
    \<and> app_id (fst r) = ver_app v \<and> ver_version (snd r) = ver_version v"
  using decide_okD [OF assms(1)]
proof (cases rule: decide_pure_okD)
  case (1 status u who)
  then have st: "status = ''published''" and u: "u = ver_id v" using assms(3) by simp_all
  let ?v = "decided_row status nt (now (tick w)) v"
  have "?v \<in> set (t_versions (tables w'))" using assms(2) u by (force simp: 1(5) update_where_def)
  moreover obtain a' where "a' \<in> set (t_apps (tables w'))" "app_id a' = app_id a" "app_visibility a' = app_visibility a"
  proof -
    show thesis
    proof (cases "find (\<lambda>r. ver_id r = u) (t_versions (tables w'))")
      case None
      with 1(8) assms(4) show thesis by (intro that [of a]) simp_all
    next
      case (Some x)
      let ?f = "\<lambda>y. if app_id y = ver_app x then take_provenance E (ver_manifest x) who (now (tick w)) y else y"
      from Some have "t_apps (tables w') = map ?f (t_apps (tables w))" by (simp add: 1(8) st update_where_def)
      with assms(4) show thesis by (intro that [of "?f a"]) (auto simp: take_provenance_def)
    qed
  qed
  ultimately show ?thesis
    using assms(5-7) st
    by (intro exI [of _ "(a', ?v)"])
      (simp add: eligible_def visible_def offered_def allowed_def decided_row_def is_published_def)
qed

section \<open>Property\<close>

text \<open>
  C2: what is published is offered. After a reviewer's decision to publish a version of a public app
  is answered 200, every anonymous request for its channel, from a platform the version allows, is
  answered, while the database answers, with a document that lists the app at that version or at one
  no older than it: if the catalogue can be built from the tables at all, then whatever documents of
  earlier revisions are in the cache. (That the public cache is coherent holds in every run.)
\<close>

theorem published_is_offered:
  assumes "uuid_codec E" and "newer_order E" and "m_catalog m = Some s" and "public_ok E s (tables w)"
    and "handle_decision E r (Some b) w = (Inr resp, w1)" and "rs_status resp = 200"
    and "rq_tenant r \<noteq> Inl 200" and "de_action b = ''publish''"
    and "v \<in> set (t_versions (tables w))" and "pg_uuid E (rq_param r ''id'') = Some (ver_id v)"
    and "a \<in> set (t_apps (tables w))" and "app_id a = ver_app v" and "app_visibility a = ''public''"
    and "quiet w1" and "audience_view E (bearer_token (rq_header q ''Authorization'')) (tables w1) = no_audience"
    and "valid_catalog_query E (rq_query q ''channel'') (rq_query q ''platform'') = None"
    and "or_default (rq_query q ''channel'') ''stable'' = ver_channel v"
    and "platform = or_default (rq_query q ''platform'') default_platform"
    and "platform_allows E (ver_min_platform v) platform"
    and "t_revision (tables w1) = Some rv"
    and "build_pure E s (ver_channel v) platform rv no_audience (tables w1) = Inr snap"
  shows "\<exists>w2 g apps c. handle_catalog E m q w1 = (Inr (catalog_response q snap no_audience), w2)
    \<and> selected_apps E (ver_channel v) platform no_audience (tables w1) = Inr (g, apps)
    \<and> finish E s platform rv g apps = Inr snap
    \<and> c \<in> set apps \<and> ca_id c = ver_app v \<and> \<not> is_newer E (ver_version v) (ca_version c)"
proof -
  from assms(5-7) obtain aid actor w0 where
    d: "decide_version E (rq_param r ''id'') (de_action b) aid actor (trim_space (de_note b)) w = (Inr (), w0)"
    and t: "tables w1 = tables w0" by (rule handle_decision_made)
  have "public_step (tables w) (tables w0)"
    using decide_version_step [of E "rq_param r ''id''" "de_action b" aid actor "trim_space (de_note b)"] d
    unfolding moves_def by (metis snd_conv)
  then have "public_ok E s (tables w1)" using public_ok_step assms(4) t by simp
  from public_served [OF assms(1,3,14) this assms(15,16,20)] assms(17,18,21)
  obtain w2 where h: "handle_catalog E m q w1 = (Inr (catalog_response q snap no_audience), w2)" by auto
  from assms(21) obtain g apps where sel: "selected_apps E (ver_channel v) platform no_audience (tables w1) = Inr (g, apps)"
    and fin: "finish E s platform rv g apps = Inr snap"
    by (auto simp: build_pure_def split: if_splits sum.splits)
  from published_eligible [OF d [unfolded assms(8)] assms(9-13,19)] obtain x
    where "eligible E (ver_channel v) platform (aud_app_ids no_audience) (tables w1) x"
      and "app_id (fst x) = ver_app v" "ver_version (snd x) = ver_version v" unfolding t by blast
  with eligible_listed [OF sel] assms(2) h sel fin show ?thesis by fastforce
qed

theorem published_is_offered_witness:
  "\<exists>snap w1 w2 g apps c. handle_catalog demo_env demo_module no_request w1 = (Inr (catalog_response no_request snap no_audience), w2)
    \<and> selected_apps demo_env ''stable'' default_platform no_audience (tables w1) = Inr (g, apps)
    \<and> c \<in> set apps \<and> ca_id c = ''a'' \<and> \<not> is_newer demo_env ''3'' (ca_version c) \<and> t_revision (tables w1) = Some 1"
proof -
  let ?r = "demo_request\<lparr>rq_param := (\<lambda>_. ''xxxxxx'')\<rparr>" and ?b = "\<lparr>de_action = ''publish'', de_note = []\<rparr>"
  let ?v = "demo_version 5 ''a'' ''3'' ''in_review'' None"
  have "case handle_decision demo_env ?r (Some ?b) demo_world of (Inl e, w1) \<Rightarrow> False
      | (Inr resp, w1) \<Rightarrow> rs_status resp = 200 \<and> sched w1 = [] \<and> t_revision (tables w1) = Some 1
          \<and> (case build_pure demo_env demo_signer ''stable'' default_platform 1 no_audience (tables w1) of
               Inl e \<Rightarrow> False | Inr snap \<Rightarrow> True)"
    by code_simp
  then obtain resp w1 snap where h: "handle_decision demo_env ?r (Some ?b) demo_world = (Inr resp, w1)"
    and w1: "rs_status resp = 200" "quiet w1" "t_revision (tables w1) = Some 1"
    and b: "build_pure demo_env demo_signer ''stable'' default_platform 1 no_audience (tables w1) = Inr snap"
    by (auto simp: quiet_def split: prod.splits sum.splits)
  have p: "public_ok demo_env demo_signer (tables demo_world)"
    by (simp add: public_ok_def public_cache.coherent_def load_public_def demo_world_def demo_db_def empty_db_def)
  have a: "demo_app ''a'' ''public'' \<in> set (t_apps (tables demo_world))"
    and i: "app_id (demo_app ''a'' ''public'') = ver_app ?v" "ver_channel ?v = ''stable''" "ver_version ?v = ''3''" "ver_app ?v = ''a''"
    and vis: "app_visibility (demo_app ''a'' ''public'') = ''public''" and t: "rq_tenant ?r \<noteq> Inl 200"
    and m: "m_catalog demo_module = Some demo_signer" and d: "de_action ?b = ''publish''"
    by (simp_all add: demo_world_def demo_db_def demo_app_def demo_version_def demo_request_def demo_module_def demo_env_def)
  have u: "pg_uuid demo_env (rq_param ?r ''id'') = Some (ver_id ?v)" using demo_waiting(2) by simp
  have "bearer_token (rq_header no_request ''Authorization'') = []"
    and q: "valid_catalog_query demo_env (rq_query no_request ''channel'') (rq_query no_request ''platform'') = None"
    "or_default (rq_query no_request ''channel'') ''stable'' = ver_channel ?v"
    "default_platform = or_default (rq_query no_request ''platform'') default_platform"
    "platform_allows demo_env (ver_min_platform ?v) default_platform"
    by code_simp+
  then have n: "audience_view demo_env (bearer_token (rq_header no_request ''Authorization'')) (tables w1) = no_audience"
    by (simp add: audience_view_def)
  from published_is_offered [OF demo_codec demo_order m p h w1(1) t d demo_waiting(1) u a i(1) vis w1(2) n q w1(3)
      b [folded i(2)]] w1(3)
  show ?thesis unfolding i by blast
qed

end
