(* ===== verification/Calls.thy ===== *)
theory Calls
  imports AccessSpec
begin

text \<open>
  A request for the catalogue taken apart into its driver calls: \<open>progress\<close> is how far its handler
  has come and \<open>advance\<close> makes the next call. Run without interruption it is \<open>handle_catalog\<close>.
\<close>

section \<open>A request, call by call\<close>

text \<open>What the handler has read off its request: token, channel and platform, defaults applied.\<close>

record asked =
  as_token :: string
  as_channel :: string
  as_platform :: string

datatype progress =
    Arrived
  | Recognised platform
  | Entitled audience
  | Touched audience
  | Numbered audience int
  | Missing audience int
  | Listing audience int time "catalog_app list" "catalog_app list"
  | Built audience snapshot
  | Saved audience snapshot
  | Answered "err + snapshot \<times> audience"

text \<open>
  The next call of \<open>handle_catalog\<close>, \<open>audience_for\<close>, \<open>catalog\<close>, \<open>build\<close> and \<open>save_snapshot\<close>,
  and what is computed from its result without a call.
\<close>

fun advance :: "env \<Rightarrow> signer \<Rightarrow> asked \<Rightarrow> progress \<times> world \<Rightarrow> progress \<times> world" where
  "advance E s q (Arrived, w) =
     (case platform_by_token E (as_token q) w of
        (Inl e, w') \<Rightarrow> (Answered (Inl e), w')
      | (Inr None, w') \<Rightarrow> (Entitled no_audience, w')
      | (Inr (Some p), w') \<Rightarrow> (Recognised p, w'))"
| "advance E s q (Recognised p, w) =
     (case granted_app_ids E (p_id p) w of
        (Inl e, w') \<Rightarrow> (Answered (Inl e), w')
      | (Inr granted, w') \<Rightarrow>
          (Entitled (if granted = [] then no_audience
                     else \<lparr>aud_platform_id = p_id p, aud_app_ids = granted\<rparr>), w'))"
| "advance E s q (Entitled aud, w) =
     (Touched aud, if \<not> anonymous aud then snd (touch_platform E (aud_platform_id aud) w) else w)"
| "advance E s q (Touched aud, w) =
     (case revision w of
        (Inl e, w') \<Rightarrow> (Answered (Inl e), w') | (Inr rv, w') \<Rightarrow> (Numbered aud rv, w'))"
| "advance E s q (Numbered aud rv, w) =
     (case load_snapshot E (as_channel q) (as_platform q) aud w of
        (Inl e, w') \<Rightarrow> (Answered (Inl e), w')
      | (Inr held, w') \<Rightarrow>
          (if (case held of None \<Rightarrow> False | Some h \<Rightarrow> ss_revision h = rv)
           then (Answered (Inr (the held, aud)), w') else (Missing aud rv, w')))"
| "advance E s q (Missing aud rv, w) =
     (if \<not> semver_valid E (as_platform q)
      then (Answered (Inl (ErrMsg ''invalid platform version'')), w)
      else case query (\<lambda>d. Inr (catalog_rows (as_channel q) (aud_app_ids aud) d)) w of
          (Inl e, w') \<Rightarrow> (Answered (Inl e), w')
        | (Inr rows, w') \<Rightarrow>
            (case build_rows E (as_platform q) rows build_init of
               Inl e \<Rightarrow> (Answered (Inl e), w')
             | Inr st \<Rightarrow> (Listing aud rv (bs_generated st) [] (chosen_apps st), w')))"
| "advance E s q (Listing aud rv g listed [], w) =
     (case finish E s (as_platform q) rv g listed of
        Inl e \<Rightarrow> (Answered (Inl e), w) | Inr b \<Rightarrow> (Built aud b, w))"
| "advance E s q (Listing aud rv g listed (a # as), w) =
     (case app_texts (ca_id a) w of
        (Inl e, w') \<Rightarrow> (Answered (Inl e), w')
      | (Inr ts, w') \<Rightarrow> (Listing aud rv g (listed @ [with_texts a ts]) as, w'))"
| "advance E s q (Built aud b, w) =
     (if anonymous aud
      then (Saved aud b, snd (stmt (save_public_stmt (as_channel q) (as_platform q) b) w))
      else (Answered (Inr (b, aud)),
            snd (stmt (save_private_stmt E (aud_platform_id aud) (as_channel q) (as_platform q) b) w)))"
| "advance E s q (Saved aud b, w) =
     (Answered (Inr (b, aud)), snd (prune_snapshots (as_channel q) w))"
| "advance E s q (Answered r, w) = (Answered r, w)"

section \<open>Run alone it is the handler\<close>

text \<open>What the handler still does, in the terms of its definitions.\<close>

fun stage :: "progress \<Rightarrow> nat" where
  "stage Arrived = 9" | "stage (Recognised p) = 8" | "stage (Entitled aud) = 7"
| "stage (Touched aud) = 6" | "stage (Numbered aud rv) = 5" | "stage (Missing aud rv) = 4"
| "stage (Listing aud rv g listed todo) = 3" | "stage (Built aud b) = 2" | "stage (Saved aud b) = 1"
| "stage (Answered r) = 0"

function remaining :: "env \<Rightarrow> signer \<Rightarrow> asked \<Rightarrow> progress \<Rightarrow> (snapshot \<times> audience) act" where
  "remaining E s q Arrived =
     andthen (audience_for E (as_token q)) (\<lambda>aud. remaining E s q (Entitled aud))"
| "remaining E s q (Recognised p) =
     andthen (granted_app_ids E (p_id p))
       (\<lambda>granted. remaining E s q (Entitled (if granted = [] then no_audience
          else \<lparr>aud_platform_id = p_id p, aud_app_ids = granted\<rparr>)))"
| "remaining E s q (Entitled aud) =
     andthen (if \<not> anonymous aud then touch_platform E (aud_platform_id aud) else ok ())
       (\<lambda>_. remaining E s q (Touched aud))"
| "remaining E s q (Touched aud) = andthen revision (\<lambda>rv. remaining E s q (Numbered aud rv))"
| "remaining E s q (Numbered aud rv) =
     andthen (load_snapshot E (as_channel q) (as_platform q) aud)
       (\<lambda>held. if (case held of None \<Rightarrow> False | Some h \<Rightarrow> ss_revision h = rv)
          then ok (the held, aud) else remaining E s q (Missing aud rv))"
| "remaining E s q (Missing aud rv) =
     andthen (build E s (as_channel q) (as_platform q) rv aud) (\<lambda>b. remaining E s q (Built aud b))"
| "remaining E s q (Listing aud rv g listed todo) =
     andthen (for_each (\<lambda>a. andthen (app_texts (ca_id a)) (\<lambda>ts. ok (with_texts a ts))) todo)
       (\<lambda>as. andthen (lift_err (finish E s (as_platform q) rv g (listed @ as)))
          (\<lambda>b. remaining E s q (Built aud b)))"
| "remaining E s q (Built aud b) =
     attempt (save_snapshot E (as_channel q) (as_platform q) aud b) (\<lambda>_. ok (b, aud))"
| "remaining E s q (Saved aud b) = attempt (prune_snapshots (as_channel q)) (\<lambda>_. ok (b, aud))"
| "remaining E s q (Answered r) = lift_err r"
  by pat_completeness auto

termination by (relation "measure (\<lambda>(E, s, q, pc). stage pc)") simp_all

declare remaining.simps [simp del]

lemma remaining_advance:
  "(case advance E s q (pc, w) of (pc', w') \<Rightarrow> remaining E s q pc' w') = remaining E s q pc w"
proof (cases pc)
  case Arrived
  have "remaining E s q (Recognised p) =
      andthen (granted_app_ids E (p_id p)) (\<lambda>granted. andthen (if granted = [] then ok no_audience
         else ok \<lparr>aud_platform_id = p_id p, aud_app_ids = granted\<rparr>) (\<lambda>aud. remaining E s q (Entitled aud)))" for p
    by (simp add: remaining.simps(2) andthen_def fun_eq_iff split: prod.split sum.split)
  with Arrived show ?thesis
    by (simp add: remaining.simps(1) audience_for_def andthen_assoc)
      (simp add: andthen_apply remaining.simps(10) split: prod.split sum.split option.split)
next
  case (Missing aud rv)
  then show ?thesis
    by (simp add: remaining.simps(6,7,10) build_def andthen_apply andthen_assoc split: prod.split sum.split)
next
  case (Listing aud rv g listed todo)
  then show ?thesis
    by (cases todo) (simp_all add: remaining.simps(7,10) andthen_assoc andthen_apply split: prod.split sum.split)
next
  case (Built aud b)
  then show ?thesis
    by (simp add: remaining.simps(8-10) save_snapshot_def attempt_def split: prod.split)
qed (simp_all add: remaining.simps(2-5,9,10) andthen_apply attempt_def touch_platform_def
      split: prod.split sum.split)

text \<open>Every request comes to its end, whatever the driver does.\<close>

definition completes :: "env \<Rightarrow> signer \<Rightarrow> asked \<Rightarrow> progress \<Rightarrow> world \<Rightarrow> bool" where
  "completes E s q pc w \<longleftrightarrow> (\<exists>n r w'. (advance E s q ^^ n) (pc, w) = (Answered r, w'))"

lemma completes_step: "completes E s q (fst (advance E s q (pc, w))) (snd (advance E s q (pc, w))) \<Longrightarrow> completes E s q pc w"
  unfolding completes_def prod.collapse by (metis funpow_Suc_right comp_apply)

lemma completes_answered: "completes E s q (Answered r) w"
  unfolding completes_def by (metis funpow_0)

lemma completes_all: "completes E s q pc w"
proof -
  note [simp] = completes_answered
  have saved [simp]: "completes E s q (Saved aud b) w" for aud b w
    by (rule completes_step) simp
  have built [simp]: "completes E s q (Built aud b) w" for aud b w
    by (rule completes_step) simp
  have listing [simp]: "completes E s q (Listing aud rv g listed todo) w" for aud rv g listed todo w
    by (induction todo arbitrary: listed w) (rule completes_step, simp split: prod.split sum.split)+
  have missing [simp]: "completes E s q (Missing aud rv) w" for aud rv w
    by (rule completes_step) (simp split: prod.split sum.split)
  have numbered [simp]: "completes E s q (Numbered aud rv) w" for aud rv w
    by (rule completes_step) (simp split: prod.split sum.split)
  have touched [simp]: "completes E s q (Touched aud) w" for aud w
    by (rule completes_step) (simp split: prod.split sum.split)
  have entitled [simp]: "completes E s q (Entitled aud) w" for aud w
    by (rule completes_step) simp
  have recognised [simp]: "completes E s q (Recognised p) w" for p w
    by (rule completes_step) (simp split: prod.split sum.split)
  have "completes E s q Arrived w" for w
    by (rule completes_step) (simp split: prod.split sum.split option.split)
  then show ?thesis by (cases pc) simp_all
qed

lemma run_remaining:
  "(advance E s q ^^ n) (pc, w) = (pc', w') \<Longrightarrow> remaining E s q pc' w' = remaining E s q pc w"
proof (induction n arbitrary: pc' w')
  case (Suc n)
  obtain pc1 w1 where r: "(advance E s q ^^ n) (pc, w) = (pc1, w1)" by fastforce
  with Suc.prems have "advance E s q (pc1, w1) = (pc', w')" by simp
  with remaining_advance [of E s q pc1 w1] Suc.IH [OF r] show ?case by simp
qed simp

definition asked_of :: "request \<Rightarrow> asked" where
  "asked_of r =
     \<lparr>as_token = bearer_token (rq_header r ''Authorization''),
      as_channel = or_default (rq_query r ''channel'') ''stable'',
      as_platform = or_default (rq_query r ''platform'') default_platform\<rparr>"

definition answer_of :: "request \<Rightarrow> err + snapshot \<times> audience \<Rightarrow> public_payload response" where
  "answer_of r res =
     (case res of Inl e \<Rightarrow> respond 500 (ErrorText ''could not build the catalog'')
      | Inr (snap, aud) \<Rightarrow> catalog_response r snap aud)"

lemma handle_catalog_remaining:
  assumes "m_catalog m = Some s"
    and "valid_catalog_query E (rq_query r ''channel'') (rq_query r ''platform'') = None"
  shows "handle_catalog E m r w = (case remaining E s (asked_of r) Arrived w of (res, w') \<Rightarrow> (Inr (answer_of r res), w'))"
proof -
  have cat: "remaining E s (asked_of r) (Touched aud) =
      andthen (catalog E s (rq_query r ''channel'') (rq_query r ''platform'') aud) (\<lambda>b. ok (b, aud))" for aud
    by (simp add: remaining.simps(4-6,8) catalog_def Let_def asked_of_def andthen_assoc)
      (auto simp: remaining.simps(6,8) fun_eq_iff andthen_apply attempt_def split: prod.split sum.split option.split)
  show ?thesis
    using assms
    by (simp add: handle_catalog_def require_catalogue_def Let_def remaining.simps(1,3) cat)
      (simp add: asked_of_def answer_of_def answer_error_def andthen_apply attempt_def touch_platform_def
        split: prod.split sum.split)
qed

section \<open>Runs of one request\<close>

definition reaches :: "env \<Rightarrow> signer \<Rightarrow> asked \<Rightarrow> progress \<times> world \<Rightarrow> progress \<times> world \<Rightarrow> bool" where
  "reaches E s q x y \<longleftrightarrow> (\<exists>n. (advance E s q ^^ n) x = y)"

lemma reaches_refl: "reaches E s q x x"
  unfolding reaches_def by (metis funpow_0)

lemma reaches_step: "reaches E s q (advance E s q x) y \<Longrightarrow> reaches E s q x y"
  unfolding reaches_def by (metis funpow_Suc_right comp_apply)

lemma reaches_one: "advance E s q x = x1 \<Longrightarrow> reaches E s q x1 y \<Longrightarrow> reaches E s q x y"
  by (metis reaches_step)

section \<open>The handler and its calls\<close>

text \<open>
  When a request is valid, making its calls one by one comes to an end, whatever the driver does;
  uninterrupted, they leave the world the handler leaves and give the answer the handler gives.
\<close>

lemma handler_is_its_calls:
  assumes "m_catalog m = Some s"
    and "valid_catalog_query E (rq_query r ''channel'') (rq_query r ''platform'') = None"
  shows "\<exists>n res w'. (advance E s (asked_of r) ^^ n) (Arrived, w) = (Answered res, w')
    \<and> handle_catalog E m r w = (Inr (answer_of r res), w')"
proof -
  obtain n res w' where run: "(advance E s (asked_of r) ^^ n) (Arrived, w) = (Answered res, w')"
    using completes_all unfolding completes_def by blast
  from run_remaining [OF this] have "remaining E s (asked_of r) Arrived w = (res, w')"
    by (simp add: remaining.simps(10))
  with handle_catalog_remaining [OF assms] run show ?thesis by auto
qed

end
