(* ===== verification/Interleaving.thy ===== *)
theory Interleaving
  imports Calls HistorySpec
begin

text \<open>
  Requests that overlap. \<open>flow\<close> interleaves the calls of any number of requests for the catalogue
  with every other request, and with the store's operations one by one, so that the calls of a
  handler other than the catalogue's may lie apart as well.
\<close>

section \<open>Overlapping requests\<close>

text \<open>The store's operations that write, as the handlers call them.\<close>

datatype operation =
    CreatePlatformOp string string string string
  | EnableOp string bool
  | GrantOp string string string
  | RevokeOp string string
  | DiscardPrivateOp string
  | DiscardPublicOp
  | UpsertPublisherOp publisher
  | VerifyOp string bool string
  | UpsertAppOp app "(string \<times> app_text) list"
  | SubmitOp app string manifest string
  | DecideOp string string string string string

fun operate :: "env \<Rightarrow> operation \<Rightarrow> world \<Rightarrow> world" where
  "operate E (CreatePlatformOp name origin nt actor) w = snd (create_platform E name origin nt actor w)"
| "operate E (EnableOp p on) w = snd (set_platform_enabled E p on w)"
| "operate E (GrantOp a p actor) w = snd (grant E a p actor w)"
| "operate E (RevokeOp a p) w = snd (revoke E a p w)"
| "operate E (DiscardPrivateOp p) w = snd (discard_private_snapshots E p w)"
| "operate E DiscardPublicOp w = snd (discard_snapshots w)"
| "operate E (UpsertPublisherOp b) w = snd (upsert_publisher E b w)"
| "operate E (VerifyOp i v actor) w = snd (set_publisher_verified E i v actor w)"
| "operate E (UpsertAppOp a texts) w = snd (upsert_app E a texts w)"
| "operate E (SubmitOp a channel m who) w = snd (submit_manifest E a channel m who w)"
| "operate E (DecideOp v action aid actor nt) w = snd (decide_version E v action aid actor nt w)"

text \<open>
  A request under way, with the revision at its arrival. In one step of the flow another request
  is handled from beginning to end, or an operation of one is; a request for the catalogue
  arrives; one that is under way makes its next call; or the world moves on.
\<close>

record job =
  jb_asked :: asked
  jb_since :: int
  jb_progress :: progress

inductive flow ::
  "env \<Rightarrow> module \<Rightarrow> signer \<Rightarrow> (call \<Rightarrow> bool) \<Rightarrow> world \<times> job list \<Rightarrow> world \<times> job list \<Rightarrow> bool"
  for E m s admits where
  handled: "flow E m s admits (w, jobs) (serve E m admits c w, jobs)"
| operated: "flow E m s admits (w, jobs) (operate E op w, jobs)"
| arrives: "t_revision (tables w) = Some rv \<Longrightarrow>
     flow E m s admits (w, jobs)
       (w, jobs @ [\<lparr>jb_asked = asked_of r, jb_since = rv, jb_progress = Arrived\<rparr>])"
| calls: "i < length jobs \<Longrightarrow>
     advance E s (jb_asked (jobs ! i)) (jb_progress (jobs ! i), w) = (pc, w') \<Longrightarrow>
     flow E m s admits (w, jobs) (w', jobs[i := (jobs ! i)\<lparr>jb_progress := pc\<rparr>])"
| elapses: "0 \<le> dt \<Longrightarrow>
     flow E m s admits (w, jobs) (w\<lparr>sched := os, entropy := es, now := now w + dt\<rparr>, jobs)"

inductive overlapping ::
  "env \<Rightarrow> module \<Rightarrow> signer \<Rightarrow> (call \<Rightarrow> bool) \<Rightarrow> world \<times> job list \<Rightarrow> bool"
  for E m s admits where
  started: "tables w = empty_db \<Longrightarrow> tx_start w = None \<Longrightarrow> overlapping E m s admits (w, [])"
| flows: "overlapping E m s admits x \<Longrightarrow> flow E m s admits x y \<Longrightarrow> overlapping E m s admits y"

section \<open>What every overlap keeps\<close>

definition dated :: "env \<Rightarrow> signer \<Rightarrow> asked \<Rightarrow> int \<Rightarrow> int \<Rightarrow> database \<Rightarrow> audience \<Rightarrow> snapshot \<Rightarrow> bool" where
  "dated E s q since c d aud b \<longleftrightarrow> since \<le> ss_revision b \<and> ss_revision b \<le> c
     \<and> (ss_revision b = c \<longrightarrow> build_pure E s (as_channel q) (as_platform q) c aud d = Inr b)"

definition dress :: "database \<Rightarrow> catalog_app \<Rightarrow> catalog_app" where
  "dress d a = with_texts a (texts_of (ca_id a) d)"

text \<open>
  What a request under way has read is still so if the revision it has read is still the present
  one, \<open>c\<close>.
\<close>

fun progress_ok :: "env \<Rightarrow> signer \<Rightarrow> asked \<Rightarrow> int \<Rightarrow> int \<Rightarrow> database \<Rightarrow> progress \<Rightarrow> bool" where
  "progress_ok E s q since c d Arrived \<longleftrightarrow> since \<le> c"
| "progress_ok E s q since c d (Recognised p) \<longleftrightarrow> since \<le> c \<and> p_id p \<noteq> []"
| "progress_ok E s q since c d (Entitled aud) \<longleftrightarrow> since \<le> c \<and> proper_audience aud"
| "progress_ok E s q since c d (Touched aud) \<longleftrightarrow> since \<le> c \<and> proper_audience aud"
| "progress_ok E s q since c d (Numbered aud rv) \<longleftrightarrow> since \<le> rv \<and> rv \<le> c \<and> proper_audience aud"
| "progress_ok E s q since c d (Missing aud rv) \<longleftrightarrow> since \<le> rv \<and> rv \<le> c \<and> proper_audience aud"
| "progress_ok E s q since c d (Listing aud rv g listed todo) \<longleftrightarrow> since \<le> rv \<and> rv \<le> c
     \<and> proper_audience aud \<and> semver_valid E (as_platform q)
     \<and> (rv = c \<longrightarrow> (case build_rows E (as_platform q)
            (catalog_rows (as_channel q) (aud_app_ids aud) d) build_init of
          Inl e \<Rightarrow> False
        | Inr st \<Rightarrow> g = bs_generated st
            \<and> map (dress d) (chosen_apps st) = listed @ map (dress d) todo))"
| "progress_ok E s q since c d (Built aud b) \<longleftrightarrow> proper_audience aud \<and> dated E s q since c d aud b"
| "progress_ok E s q since c d (Saved aud b) \<longleftrightarrow> proper_audience aud \<and> dated E s q since c d aud b"
| "progress_ok E s q since c d (Answered r) \<longleftrightarrow>
     (case r of Inl e \<Rightarrow> True
      | Inr (b, aud) \<Rightarrow> anonymous aud \<longrightarrow> proper_audience aud \<and> dated E s q since c d aud b)"

lemma dated_mono:
  assumes "c \<le> c'" and "c' = c \<Longrightarrow> content d' = content d" and "dated E s q since c d aud b"
  shows "dated E s q since c' d' aud b"
proof (cases "c' = c")
  case True
  with assms(2) have "content d' = content d" by simp
  from build_pure_content [OF this] assms(3) True show ?thesis by (simp add: dated_def)
qed (use assms(1,3) in \<open>auto simp: dated_def\<close>)

lemma catalog_rows_content: "content d' = content d \<Longrightarrow> catalog_rows channel ids d' = catalog_rows channel ids d"
  by (simp add: catalog_rows_def joined_rows_content)

lemma dress_content: "content d' = content d \<Longrightarrow> dress d' = dress d"
  by (simp add: fun_eq_iff dress_def texts_of_content)

lemma progress_ok_mono:
  assumes "c \<le> c'" and "c' = c \<Longrightarrow> content d' = content d" and "progress_ok E s q since c d pc"
  shows "progress_ok E s q since c' d' pc"
proof (cases pc)
  case (Listing aud rv g listed todo)
  show ?thesis
  proof (cases "c' = c")
    case True
    with assms(2) have "content d' = content d" by simp
    from catalog_rows_content [OF this] dress_content [OF this] assms(3) True Listing
    show ?thesis by (simp split: sum.splits)
  qed (use assms(1,3) Listing in auto)
next
  case (Answered r)
  with assms dated_mono [OF assms(1,2)] show ?thesis by (auto split: sum.splits prod.splits)
qed (use assms(1,3) dated_mono [OF assms(1,2)] in auto)

lemma finish_revision: "finish E s platform rv g apps = Inr b \<Longrightarrow> ss_revision b = rv"
  by (auto simp: finish_def split: option.splits sum.splits)

lemma calls_read:
  "platform_by_token E token w = (r, w') \<Longrightarrow> tables w' = tables w"
  "granted_app_ids E p w = (r', w') \<Longrightarrow> tables w' = tables w"
  "revision w = (r1, w') \<Longrightarrow> tables w' = tables w"
  "load_snapshot E channel platform aud w = (r2, w') \<Longrightarrow> tables w' = tables w"
  "app_texts i w = (r3, w') \<Longrightarrow> tables w' = tables w"
  "query f w = (r4, w') \<Longrightarrow> tables w' = tables w"
  by (auto simp: platform_by_token_def granted_app_ids_def revision_def load_snapshot_query app_texts_def
      query_def andthen_apply split: if_splits option.splits)

lemma recognised_named: "uuid_codec E \<Longrightarrow> platform_by_token E token w = (Inr (Some p), w') \<Longrightarrow> p_id p \<noteq> []"
  by (auto simp: platform_by_token_def query_def andthen_apply scan_platform_def uuid_codecD(2)
      split: if_splits option.splits)

lemma dated_good_public:
  assumes "dated E s q since c d aud b" and "t_revision d = Some c" and "proper_audience aud" and "anonymous aud"
  shows "good_public E s d (as_channel q, as_platform q) b"
  using assms build_pure_ids [of aud no_audience]
  by (auto simp: dated_def good_public_def proper_audience_def no_audience_def)

lemma good_public_dated:
  assumes "good_public E s d (as_channel q, as_platform q) b" and "t_revision d = Some c"
    and "proper_audience aud" and "anonymous aud" and "since \<le> ss_revision b"
  shows "dated E s q since c d aud b"
  using assms build_pure_ids [of aud no_audience]
  by (auto simp: dated_def good_public_def proper_audience_def no_audience_def)

text \<open>After a call the request is in order again, and the catalogue's content and number are what they were.\<close>

definition goes_on :: "env \<Rightarrow> signer \<Rightarrow> asked \<Rightarrow> int \<Rightarrow> int \<Rightarrow> world \<Rightarrow> progress \<times> world \<Rightarrow> bool" where
  "goes_on E s q since c w x \<longleftrightarrow> public_ok E s (tables (snd x)) \<and> t_revision (tables (snd x)) = Some c
     \<and> content (tables (snd x)) = content (tables w) \<and> progress_ok E s q since c (tables w) (fst x)"

lemma numbered_goes_on:
  assumes "t_revision (tables w) = Some c" and "public_ok E s (tables w)"
    and "progress_ok E s q since c (tables w) (Numbered aud rv)"
  shows "goes_on E s q since c w (advance E s q (Numbered aud rv, w))"
proof -
  obtain r w1 where r: "load_snapshot E (as_channel q) (as_platform q) aud w = (r, w1)" by fastforce
  from calls_read(4) [OF this] have t: "tables w1 = tables w" .
  have "dated E s q since c (tables w) aud h" if "r = Inr (Some h)" and "ss_revision h = rv" and "anonymous aud" for h
  proof (rule good_public_dated [OF _ assms(1) _ that(3)])
    from r that have "load_public (as_channel q, as_platform q) (tables w) = Some h"
      by (auto simp: load_snapshot_def query_def split: if_splits)
    with assms(2) show "good_public E s (tables w) (as_channel q, as_platform q) h"
      unfolding public_ok_def by (rule public_cache.coherentD)
  qed (use assms(3) that in simp_all)
  with r t assms show ?thesis by (auto simp: goes_on_def split: sum.split option.split)
qed

lemma listing_goes_on:
  assumes "t_revision (tables w) = Some c" and "public_ok E s (tables w)"
    and "progress_ok E s q since c (tables w) (Listing aud rv g listed todo)"
  shows "goes_on E s q since c w (advance E s q (Listing aud rv g listed todo, w))"
proof (cases todo)
  case Nil
  have "dated E s q since c (tables w) aud b" if "finish E s (as_platform q) rv g listed = Inr b" for b
    using Nil assms(3) that finish_revision [OF that]
    by (auto simp: dated_def build_pure_def selected_apps_def dress_def [abs_def] split: sum.splits)
  with Nil assms show ?thesis by (auto simp: goes_on_def split: sum.split)
next
  case (Cons a as)
  have "with_texts a (texts_of (ca_id a) (tables w)) = dress (tables w) a" by (simp add: dress_def)
  with Cons assms show ?thesis
    by (auto simp: goes_on_def app_texts_def query_def split: sum.splits)
qed

lemma built_goes_on:
  assumes "t_revision (tables w) = Some c" and "public_ok E s (tables w)"
    and "progress_ok E s q since c (tables w) (Built aud b)"
  shows "goes_on E s q since c w (advance E s q (Built aud b, w))"
proof (cases "anonymous aud")
  case True
  have "good_public E s (tables w) (as_channel q, as_platform q) b"
    using assms(3) by (intro dated_good_public [where since = since, OF _ assms(1) _ True]) simp_all
  with save_public_step [OF _ this assms(2)] assms True show ?thesis
    by (auto simp: goes_on_def stmt_def Let_def save_public_stmt_def)
next
  case False
  let ?w' = "snd (advance E s q (Built aud b, w))"
  have "same_catalogue (tables w) (tables ?w')"
    using False movesD [OF same_catalogue_side_stmts(1) prod.collapse [symmetric]] by auto
  from public_ok_step [OF same_catalogue_step [OF this] assms(2)] same_content [OF this] assms(1,3) False
  show ?thesis by (auto simp: goes_on_def)
qed

lemma entitled_goes_on:
  assumes "t_revision (tables w) = Some c" and "public_ok E s (tables w)"
    and "progress_ok E s q since c (tables w) (Entitled aud)"
  shows "goes_on E s q since c w (advance E s q (Entitled aud, w))"
proof -
  have "same_catalogue (tables w) (tables (snd (advance E s q (Entitled aud, w))))"
    using movesD [OF touch_frame(1) prod.collapse [symmetric]] by (auto simp: same_catalogue_def)
  from public_ok_step [OF same_catalogue_step [OF this] assms(2)] same_content [OF this] assms(1,3)
  show ?thesis by (auto simp: goes_on_def)
qed

lemma saved_goes_on:
  assumes "t_revision (tables w) = Some c" and "public_ok E s (tables w)"
    and "progress_ok E s q since c (tables w) (Saved aud b)"
  shows "goes_on E s q since c w (advance E s q (Saved aud b, w))"
proof -
  let ?w' = "snd (prune_snapshots (as_channel q) w)"
  have "public_step (tables w) (tables ?w')" and "t_revision (tables ?w') = Some c"
    and "content (tables ?w') = content (tables w)"
    using assms(1) prune_shrinks
    by (auto simp: prune_snapshots_def stmt_def Let_def prune_stmt_def public_step_def content_def public.R_refl
        rev.R_refl public_cache.shrinks_refl intro!: rev_step_frame)
  with assms public_ok_step show ?thesis by (auto simp: goes_on_def)
qed

lemma advance_goes_on:
  assumes "uuid_codec E" and "t_revision (tables w) = Some c" and "public_ok E s (tables w)"
    and "progress_ok E s q since c (tables w) pc"
  shows "goes_on E s q since c w (advance E s q (pc, w))"
proof (cases pc)
  case Arrived
  with assms recognised_named [OF assms(1)] show ?thesis
    by (auto simp: goes_on_def proper_audience_def no_audience_def anonymous_no_audience dest: calls_read
        split: prod.split sum.split option.split)
next
  case (Recognised p)
  with assms show ?thesis
    by (auto simp: goes_on_def proper_audience_def no_audience_def anonymous_def dest: calls_read
        split: prod.split sum.split)
next
  case (Missing aud rv)
  with assms show ?thesis
    by (auto simp: goes_on_def query_def dress_def split: sum.split)
next
  case (Touched aud)
  with assms show ?thesis
    by (auto simp: goes_on_def revision_def query_def split: option.split)
next
  case (Entitled aud)
  with assms entitled_goes_on show ?thesis by metis
next
  case (Numbered aud rv)
  with assms numbered_goes_on show ?thesis by metis
next
  case (Listing aud rv g listed todo)
  with assms listing_goes_on show ?thesis by metis
next
  case (Built aud b)
  with assms built_goes_on show ?thesis by metis
next
  case (Saved aud b)
  with assms saved_goes_on show ?thesis by metis
next
  case (Answered r)
  with assms show ?thesis by (simp add: goes_on_def)
qed

text \<open>The invariant of every overlap.\<close>

definition flow_ok :: "env \<Rightarrow> signer \<Rightarrow> world \<times> job list \<Rightarrow> bool" where
  "flow_ok E s x \<longleftrightarrow> (\<exists>c. t_revision (tables (fst x)) = Some c \<and> public_ok E s (tables (fst x))
     \<and> (\<forall>j\<in>set (snd x). progress_ok E s (jb_asked j) (jb_since j) c (tables (fst x)) (jb_progress j)))"

lemma submit_manifest_step: "moves public_step (submit_manifest E a channel m who)"
  unfolding submit_manifest_def Let_def
  by (intro public.moves_case_option public.moves_ok submit_version_step)
    (simp add: submitted_version_def)

lemma operate_step: "public_step (tables w) (tables (operate E op w))"
  using public_step_ops all_public_steps submit_manifest_step
  by (cases op) (simp_all add: moves_def)

lemma flow_ok_move:
  assumes "flow_ok E s (w, jobs)" and "rev_step (tables w) (tables w')" and "public_ok E s (tables w')"
  shows "flow_ok E s (w', jobs)"
proof -
  from assms(1) obtain c where c: "t_revision (tables w) = Some c"
    and jobs: "\<And>j. j \<in> set jobs \<Longrightarrow> progress_ok E s (jb_asked j) (jb_since j) c (tables w) (jb_progress j)"
    by (auto simp: flow_ok_def)
  from c assms(2) obtain c' where c': "t_revision (tables w') = Some c'" "c \<le> c'"
    and "c' = c \<Longrightarrow> content (tables w') = content (tables w)"
    by (auto simp: rev_step_def)
  with progress_ok_mono [OF this(2,3)] jobs assms(3) show ?thesis by (auto simp: flow_ok_def)
qed

lemma flow_keeps:
  assumes "uuid_codec E" and "m_catalog m = Some s" and "flow E m s admits x y" and "flow_ok E s x"
  shows "flow_ok E s y"
  using assms(3,4)
proof (cases rule: flow.cases)
  case (handled w jobs c)
  have "public_ok E s (tables (perform E m c w))"
    using handled assms(4) perform_keeps [OF public_ops.operations_axioms assms(1), of m s w c] assms(2)
    by (auto simp: flow_ok_def)
  with handled assms(4) perform_rev_step [OF assms(1)] flow_ok_move show ?thesis
    by (auto simp: serve_def)
next
  case (operated w jobs op)
  with assms(4) operate_step public_rev public_ok_step flow_ok_move show ?thesis
    by (metis flow_ok_def fst_conv)
next
  case (arrives w rv jobs r)
  with assms(4) show ?thesis by (auto simp: flow_ok_def)
next
  case (calls i jobs w pc w')
  let ?j = "jobs ! i"
  from assms(4) calls obtain c where c: "t_revision (tables w) = Some c" and p: "public_ok E s (tables w)"
    and jobs: "\<And>j. j \<in> set jobs \<Longrightarrow> progress_ok E s (jb_asked j) (jb_since j) c (tables w) (jb_progress j)"
    by (auto simp: flow_ok_def)
  from advance_goes_on [OF assms(1) c p jobs, of ?j] calls(3,4)
  have w': "public_ok E s (tables w')" "t_revision (tables w') = Some c" "content (tables w') = content (tables w)"
    and pc: "progress_ok E s (jb_asked ?j) (jb_since ?j) c (tables w) pc"
    by (simp_all add: goes_on_def)
  from progress_ok_mono [OF order_refl w'(3)] pc jobs
  have "progress_ok E s (jb_asked j) (jb_since j) c (tables w') (jb_progress j)"
    if "j \<in> set (jobs[i := ?j\<lparr>jb_progress := pc\<rparr>])" for j
    using set_update_subset_insert [THEN subsetD, OF that] by auto
  with calls w' show ?thesis by (auto simp: flow_ok_def)
next
  case (elapses dt w os es jobs)
  with assms(4) show ?thesis by (auto simp: flow_ok_def)
qed

lemma overlapping_ok:
  assumes "uuid_codec E" and "m_catalog m = Some s" and "overlapping E m s admits x"
  shows "flow_ok E s x"
  using assms(3)
proof induction
  case (started w)
  then show ?case by (auto simp: flow_ok_def public_ok_empty) (simp add: empty_db_def)
next
  case (flows x y)
  then show ?case using flow_keeps [OF assms(1,2)] by blast
qed

lemma flow_reaches:
  assumes "reaches E s (jb_asked j) (jb_progress j, w) (pc, w')"
  shows "(flow E m s admits)\<^sup>*\<^sup>* (w, [j]) (w', [j\<lparr>jb_progress := pc\<rparr>])"
proof -
  have "(flow E m s admits)\<^sup>*\<^sup>* (w, [j]) (snd x, [j\<lparr>jb_progress := fst x\<rparr>])"
    if "(advance E s (jb_asked j) ^^ n) (jb_progress j, w) = x" for n x
    using that
  proof (induction n arbitrary: x)
    case 0
    then show ?case by auto
  next
    case (Suc n)
    obtain pc1 w1 where r: "(advance E s (jb_asked j) ^^ n) (jb_progress j, w) = (pc1, w1)" by fastforce
    with Suc.prems have "advance E s (jb_asked j) (pc1, w1) = (fst x, snd x)" by simp
    then have "flow E m s admits (w1, [j\<lparr>jb_progress := pc1\<rparr>]) (snd x, [j\<lparr>jb_progress := fst x\<rparr>])"
      using flow.calls [of 0 "[j\<lparr>jb_progress := pc1\<rparr>]" E s w1 "fst x" "snd x" m admits] by simp
    with Suc.IH [OF r] show ?case by (auto intro: rtranclp.rtrancl_into_rtrancl)
  qed
  with assms show ?thesis unfolding reaches_def by fastforce
qed

lemma overlapping_run:
  assumes "overlapping E m s admits x" and "(flow E m s admits)\<^sup>*\<^sup>* x y"
  shows "overlapping E m s admits y"
  using assms(2,1) by induction (auto intro: overlapping.flows)

section \<open>Invariants of the statements\<close>

text \<open>
  What every statement keeps, every call of a request under way and every operation keeps; so the
  invariants of the tables, which hold in runs of whole requests, hold in every overlap too.
\<close>

context statement_closed
begin

lemma closed_operations: "operations E I UNIV"
  by unfold_locales

lemma call_keeps: "keeps I a \<Longrightarrow> I w \<Longrightarrow> a w = (r, w') \<Longrightarrow> I w'"
  by (metis keepsD snd_conv)

lemma request_calls:
  "keeps I (platform_by_token E token)" "keeps I (granted_app_ids E p)" "keeps I (touch_platform E p)"
  "keeps I revision" "keeps I (load_snapshot E channel platform aud)" "keeps I (query f)" "keeps I (app_texts i)"
  "keeps I (stmt (save_public_stmt channel platform b))" "keeps I (prune_snapshots channel)"
  "keeps I (stmt (save_private_stmt E p channel platform b))"
  unfolding platform_by_token_def load_snapshot_def prune_snapshots_def touch_platform_def
  by (intro keeps_reads st_rules keeps_intros)+

lemma advance_keeps: "I w \<Longrightarrow> I (snd (advance E s q (pc, w)))"
  by (cases "(E, s, q, pc, w)" rule: advance.cases)
    (auto split: prod.split sum.split option.split intro: call_keeps [OF request_calls(1)]
      call_keeps [OF request_calls(2)] call_keeps [OF request_calls(4)] call_keeps [OF request_calls(5)]
      call_keeps [OF request_calls(6)] call_keeps [OF request_calls(7)] keepsD request_calls)

lemma operate_keeps: "I w \<Longrightarrow> I (operate E op w)"
  by (cases op) (simp_all add: keepsD op_create op_enable op_discard_private op_discard op_publisher op_app
      op_grant op_revoke op_verify op_decide keeps_submit_manifest)

end

lemma flow_invariant:
  assumes "statement_closed E I" and "uuid_codec E"
    and "\<And>w os es dt. I w \<Longrightarrow> I (w\<lparr>sched := os, entropy := es, now := now w + dt\<rparr>)"
    and "(flow E m s admits)\<^sup>*\<^sup>* x y" and "I (fst x)"
  shows "I (fst y)"
  using assms(4,5)
proof induction
  case (step y z)
  from step(2) step(3) [OF step(4)] show ?case
  proof (cases rule: flow.cases)
    case (handled w jobs c)
    from perform_keeps [OF statement_closed.closed_operations [OF assms(1)] assms(2)] handled step(3) [OF step(4)] show ?thesis by (simp add: serve_def)
  next
    case (calls i jobs w pc w')
    with statement_closed.advance_keeps [OF assms(1)] step(3) [OF step(4)] show ?thesis by (metis fst_conv snd_conv)
  qed (use statement_closed.operate_keeps [OF assms(1)] assms(3) step(3) [OF step(4)] in simp_all)
qed

lemma overlapping_flow:
  "overlapping E m s admits x \<Longrightarrow> \<exists>w. tables w = empty_db \<and> (flow E m s admits)\<^sup>*\<^sup>* (w, []) x"
  by (induction rule: overlapping.induct) (auto intro: rtranclp.rtrancl_into_rtrancl)

lemma overlapping_wf:
  assumes "uuid_codec E" and "overlapping E m s admits x"
  shows "wf_db (next_uuid (fst x)) (tables (fst x))"
proof -
  from overlapping_flow [OF assms(2)] obtain w where "tables w = empty_db" and "(flow E m s admits)\<^sup>*\<^sup>* (w, []) x" by blast
  with flow_invariant [OF wf_run.statement_closed_axioms assms(1) _ this(2)] show ?thesis
    by (simp add: holds_def wf_empty)
qed

text \<open>A run of whole requests is an overlap in which none is under way.\<close>

lemma reachable_overlapping: "reachable E m admits Q w \<Longrightarrow> overlapping E m s admits (w, [])"
proof (induction rule: reachable.induct)
  case (onward w w')
  from onward(2) have "flow E m s admits (w, []) (w', [])"
    by cases (auto intro: flow.handled flow.elapses)
  with onward(3) show ?case by (rule overlapping.flows)
qed (rule overlapping.started)

end
