(* ===== verification/Races.thy ===== *)
theory Races
  imports Interleaving
begin

text \<open>
  Two races the code does not guard against: a revocation overtaken by the save of a document, and
  a registration overtaken by another of the same id.
\<close>

section \<open>A revocation overtaken\<close>

lemma reaches_listing:
  assumes "quiet w"
  shows "\<exists>w'. quiet w' \<and> tables w' = tables w
    \<and> (\<forall>y. reaches E s q (Listing aud rv g (listed @ map (dress (tables w)) todo) [], w') y \<longrightarrow>
         reaches E s q (Listing aud rv g listed todo, w) y)"
  using assms
proof (induction todo arbitrary: listed w)
  case Nil
  then show ?case by auto
next
  case (Cons a as)
  from Cons.prems have "app_texts (ca_id a) w = (Inr (texts_of (ca_id a) (tables w)), tick w)"
    by (simp add: app_texts_def query_quiet)
  then have step: "advance E s q (Listing aud rv g listed (a # as), w) =
      (Listing aud rv g (listed @ [dress (tables w) a]) as, tick w)"
    by (simp add: dress_def)
  from Cons.IH [of "tick w" "listed @ [dress (tables w) a]"] Cons.prems obtain w' where
    "quiet w'" "tables w' = tables w" and run: "\<And>y.
      reaches E s q (Listing aud rv g (listed @ map (dress (tables w)) (a # as)) [], w') y \<Longrightarrow>
      reaches E s q (Listing aud rv g (listed @ [dress (tables w) a]) as, tick w) y"
    by auto
  with reaches_one [OF step run] show ?case by blast
qed

lemma reaches_built:
  assumes "quiet w" and "t_revision (tables w) = Some rv"
    and "load_for E (as_channel q) (as_platform q) aud (tables w) = Inr None"
    and "build_pure E s (as_channel q) (as_platform q) rv aud (tables w) = Inr b"
  shows "\<exists>w'. quiet w' \<and> tables w' = tables w \<and> reaches E s q (Touched aud, w) (Built aud b, w')"
proof -
  obtain st where v: "semver_valid E (as_platform q)"
    and st: "build_rows E (as_platform q) (catalog_rows (as_channel q) (aud_app_ids aud) (tables w)) build_init = Inr st"
    and fin: "finish E s (as_platform q) rv (bs_generated st) (map (dress (tables w)) (chosen_apps st)) = Inr b"
    using assms(4) by (auto simp: build_pure_def selected_apps_def dress_def [abs_def] split: if_splits sum.splits)
  have 1: "advance E s q (Touched aud, w) = (Numbered aud rv, tick w)"
    using assms(1,2) by (simp add: revision_def query_quiet)
  have 2: "advance E s q (Numbered aud rv, tick w) = (Missing aud rv, tick (tick w))"
    using assms(1,3) by (simp add: load_snapshot_query query_quiet)
  have 3: "advance E s q (Missing aud rv, tick (tick w)) =
      (Listing aud rv (bs_generated st) [] (chosen_apps st), tick (tick (tick w)))"
    using assms(1) v st by (simp add: query_quiet)
  from reaches_listing [of "tick (tick (tick w))"] assms(1) obtain w' where w': "quiet w'" "tables w' = tables w"
    and run: "\<And>y. reaches E s q (Listing aud rv (bs_generated st) (map (dress (tables w)) (chosen_apps st)) [], w') y \<Longrightarrow>
        reaches E s q (Listing aud rv (bs_generated st) [] (chosen_apps st), tick (tick (tick w))) y"
    by (metis append_Nil quiet_tick tick_simps(1))
  have "reaches E s q (Listing aud rv (bs_generated st) (map (dress (tables w)) (chosen_apps st)) [], w') (Built aud b, w')"
    by (rule reaches_step) (simp add: fin reaches_refl)
  from reaches_one [OF 1 reaches_one [OF 2 reaches_one [OF 3 run [OF this]]]] w' show ?thesis by blast
qed

lemma reaches_touched:
  assumes "uuid_codec E" and "quiet w" and "as_token q \<noteq> []"
    and "find (\<lambda>r. pl_digest r = token_digest E (as_token q)) (t_platforms (tables w)) = Some p"
    and "pl_disabled_at p = None" and "grants_of (pl_id p) (tables w) \<noteq> []"
  shows "\<exists>t w'. quiet w' \<and> tables w' = (tables w)\<lparr>t_platforms :=
      update_where (\<lambda>r. pl_id r = pl_id p) (\<lambda>r. r\<lparr>pl_last_seen_at := Some t\<rparr>) (t_platforms (tables w))\<rparr>
    \<and> (\<forall>y. reaches E s q (Touched (platform_audience E (pl_id p) (tables w)), w') y \<longrightarrow> reaches E s q (Arrived, w) y)"
proof -
  let ?aud = "platform_audience E (pl_id p) (tables w)"
  let ?t = "clock (tick (tick (tick w)))"
  let ?w' = "(tick (tick (tick w)))\<lparr>tables := (tables w)\<lparr>t_platforms :=
      update_where (\<lambda>r. pl_id r = pl_id p) (\<lambda>r. r\<lparr>pl_last_seen_at := Some ?t\<rparr>) (t_platforms (tables w))\<rparr>\<rparr>"
  have 1: "advance E s q (Arrived, w) = (Recognised (scan_platform E p), tick w)"
    using assms(2-5) by (simp add: platform_by_token_def query_quiet andthen_apply enabled_def scan_platform_def)
  have 2: "advance E s q (Recognised (scan_platform E p), tick w) = (Entitled ?aud, tick (tick w))"
    using assms(2,6) uuid_codecD(1) [OF assms(1)]
    by (simp add: granted_app_ids_def query_quiet scan_platform_def platform_audience_def)
  have 3: "advance E s q (Entitled ?aud, tick (tick w)) = (Touched ?aud, ?w')"
    using assms(2) uuid_codecD(1) [OF assms(1)] platform_not_anonymous [OF assms(1)]
    by (simp add: touch_platform_def attempt_def stmt_quiet touch_stmt_def platform_audience_def)
  have "quiet ?w'" using assms(2) by simp
  then show ?thesis
    using reaches_one [OF 1 reaches_one [OF 2 reaches_one [OF 3]]] by (intro exI [of _ ?t] exI [of _ ?w']) auto
qed

lemma revoke_quiet:
  assumes "quiet w" and "pg_uuid E (rq_param r ''id'') = Some u" and "rq_param r ''id'' \<noteq> []"
  shows "\<exists>resp w'. handle_revoke E r w = (Inr resp, w') \<and> rs_status resp = 200 \<and> quiet w'
    \<and> tables w' = (tables w)
        \<lparr>t_grants := filter (\<lambda>g. \<not> (gr_app g = rq_param r ''appID'' \<and> gr_platform g = u)) (t_grants (tables w)),
         t_private := filter (\<lambda>x. fst x \<noteq> u) (t_private (tables w))\<rparr>"
  using assms
  by (simp add: handle_revoke_def Let_def revoke_def discard_private_snapshots_def attempt_def stmt_quiet
      revoke_stmt_def discard_private_stmt_def record_audit_def answer_json_def andthen_apply respond_def)

lemma save_private_quiet:
  assumes "uuid_codec E" and "quiet w" and "p \<in> set (t_platforms (tables w))"
    and "char_count (as_channel q) \<le> 16" and "char_count (as_platform q) \<le> 32" and "char_count (ss_etag b) \<le> 80"
  shows "\<exists>t w'. advance E s q (Built (platform_audience E (pl_id p) d) b, w) =
      (Answered (Inr (b, platform_audience E (pl_id p) d)), w') \<and> quiet w'
    \<and> tables w' = store_private (pl_id p, as_channel q, as_platform q) b t (tables w)"
proof -
  have "list_ex (\<lambda>r. pl_id r = pl_id p) (t_platforms (tables w))" using assms(3) by (auto simp: list_ex_iff)
  with assms(2,4-6) uuid_codecD(1) [OF assms(1)] platform_not_anonymous [OF assms(1)] show ?thesis
    by (simp add: stmt_quiet save_private_stmt_def platform_audience_def not_less del: list_ex_iff) auto
qed

text \<open>A platform's request, as far as the document that is built for it and not yet saved.\<close>

lemma platform_builds:
  assumes "uuid_codec E" and "wf_platforms n (t_platforms (tables w))" and "quiet w" and "p \<in> set (t_platforms (tables w))"
    and "pl_disabled_at p = None" and "pl_digest p = token_digest E (as_token q)" and "as_token q \<noteq> []"
    and "grants_of (pl_id p) (tables w) \<noteq> []" and "load_private (pl_id p, as_channel q, as_platform q) (tables w) = None"
    and "t_revision (tables w) = Some rv"
    and "build_pure E s (as_channel q) (as_platform q) rv (platform_audience E (pl_id p) (tables w)) (tables w) = Inr b"
  shows "\<exists>t w1. quiet w1 \<and> tables w1 = (tables w)\<lparr>t_platforms :=
      update_where (\<lambda>r. pl_id r = pl_id p) (\<lambda>r. r\<lparr>pl_last_seen_at := Some t\<rparr>) (t_platforms (tables w))\<rparr>
    \<and> reaches E s q (Arrived, w) (Built (platform_audience E (pl_id p) (tables w)) b, w1)"
proof -
  let ?d = "tables w" and ?u = "pl_id p"
  let ?aud = "platform_audience E ?u ?d"
  have "find (\<lambda>r. pl_digest r = token_digest E (as_token q)) (t_platforms ?d) = Some p"
    using assms(2,4,6) by (intro find_distinct_key [where key = pl_digest]) (auto simp: wf_platforms_def)
  from reaches_touched [OF assms(1,3,7) this assms(5,8)] obtain t w0 where w0: "quiet w0"
      "tables w0 = ?d\<lparr>t_platforms := update_where (\<lambda>r. pl_id r = ?u) (\<lambda>r. r\<lparr>pl_last_seen_at := Some t\<rparr>) (t_platforms ?d)\<rparr>"
    and start: "\<And>y. reaches E s q (Touched ?aud, w0) y \<Longrightarrow> reaches E s q (Arrived, w) y"
    by blast
  have "content (tables w0) = content ?d" by (simp add: w0 content_def)
  from build_pure_content [OF this] have "build_pure E s (as_channel q) (as_platform q) rv ?aud (tables w0) = Inr b"
    using assms(11) by simp
  moreover have "load_for E (as_channel q) (as_platform q) ?aud (tables w0) = Inr None"
    using assms(9) uuid_codecD(1) [OF assms(1)] platform_not_anonymous [OF assms(1)]
    by (simp add: load_for_def platform_audience_def w0 load_private_def)
  ultimately obtain w1 where "quiet w1" "tables w1 = tables w0" and "reaches E s q (Touched ?aud, w0) (Built ?aud b, w1)"
    using reaches_built [OF w0(1), of rv E q ?aud s b] assms(10) w0(2) by auto
  with start w0(2) show ?thesis by auto
qed

lemma platform_document:
  assumes "build_pure E s channel platform rv (platform_audience E u d) d = Inr b"
  shows "\<exists>g apps. selected_apps E channel platform (platform_audience E u d) d = Inr (g, apps)
    \<and> finish E s platform rv g apps = Inr b
    \<and> (\<forall>v. eligible E channel platform (grants_of u d) d v \<longrightarrow> app_id (fst v) \<in> ca_id ` set apps)"
proof -
  from assms obtain g apps where sel: "selected_apps E channel platform (platform_audience E u d) d = Inr (g, apps)"
    and fin: "finish E s platform rv g apps = Inr b"
    by (auto simp: build_pure_def split: if_splits sum.splits)
  have "aud_app_ids (platform_audience E u d) = grants_of u d" by (simp add: platform_audience_def)
  with eligible_listed [OF sel] have "\<forall>v. eligible E channel platform (grants_of u d) d v \<longrightarrow> app_id (fst v) \<in> ca_id ` set apps"
    by (metis image_eqI)
  with sel fin show ?thesis by blast
qed

text \<open>The document just saved for a platform is what its next request is answered with.\<close>

lemma saved_is_served:
  assumes "uuid_codec E" and wf: "wf_platforms n (t_platforms d)" and "quiet w" and "m_catalog m = Some s"
    and p: "p\<lparr>pl_last_seen_at := Some t\<rparr> \<in> set (t_platforms (tables w))" and "pl_disabled_at p = None"
    and "pl_digest p = token_digest E (as_token (asked_of q))" and "as_token (asked_of q) \<noteq> []"
    and "valid_catalog_query E (rq_query q ''channel'') (rq_query q ''platform'') = None"
    and "t_platforms (tables w) = update_where (\<lambda>r. pl_id r = pl_id p) (\<lambda>r. r\<lparr>pl_last_seen_at := Some t\<rparr>) (t_platforms d)"
    and "g \<in> set (t_grants (tables w))" and "gr_platform g = pl_id p"
    and "t_private (tables w) = t_private (store_private (pl_id p, as_channel (asked_of q), as_platform (asked_of q)) b u d')"
    and "t_revision (tables w) = Some (ss_revision b)"
  shows "\<exists>aud w'. handle_catalog E m q w = (Inr (catalog_response q b aud), w')"
proof (rule platform_served_held [where p = "p\<lparr>pl_last_seen_at := Some t\<rparr>" and n = n, OF assms(1) _ assms(3,4)])
  show "wf_platforms n (t_platforms (tables w))"
    using wf by (simp add: wf_platforms_def assms(10) map_key_update_where set_update_where) auto
  have "gr_app g \<in> set (grants_of (pl_id p) (tables w))" using assms(11,12) by (auto simp: grants_of_def)
  then show "grants_of (pl_id (p\<lparr>pl_last_seen_at := Some t\<rparr>)) (tables w) \<noteq> []" by auto
  have "load_private (pl_id p, as_channel (asked_of q), as_platform (asked_of q)) (tables w) = Some b"
    using private_cache.load_store [of "(pl_id p, as_channel (asked_of q), as_platform (asked_of q))" b u d']
    unfolding load_private_def assms(13) .
  then show "load_private (pl_id (p\<lparr>pl_last_seen_at := Some t\<rparr>), or_default (rq_query q ''channel'') ''stable'',
         or_default (rq_query q ''platform'') default_platform) (tables w) = Some b"
    by (simp add: asked_of_def)
qed (use p assms(6-9,14) in \<open>simp_all add: asked_of_def\<close>)

text \<open>
  C31: a revocation can be overtaken. A platform asks for its catalogue; between the build and the
  save of its document an operator revokes one of its apps and is answered 200; then the document
  is saved, under a revision the revocation has not moved. No call has failed, the grant is gone,
  and the platform keeps being served the document built for it before, which lists every app it had
  been granted of which a version was eligible, the revoked one too.
\<close>

theorem revocation_overtaken:
  assumes "uuid_codec E" and "wf_db n (tables w)" and "quiet w" and "m_catalog m = Some s"
    and "p \<in> set (t_platforms (tables w))" and "pl_disabled_at p = None"
    and "pl_digest p = token_digest E (as_token (asked_of q))" and "as_token (asked_of q) \<noteq> []"
    and "pg_uuid E (rq_param r ''id'') = Some (pl_id p)" and "rq_param r ''id'' \<noteq> []"
    and "g \<in> set (t_grants (tables w))" and "gr_platform g = pl_id p" and "gr_app g \<noteq> rq_param r ''appID''"
    and "valid_catalog_query E (rq_query q ''channel'') (rq_query q ''platform'') = None"
    and "load_private (pl_id p, as_channel (asked_of q), as_platform (asked_of q)) (tables w) = None"
    and "t_revision (tables w) = Some rv"
    and "build_pure E s (as_channel (asked_of q)) (as_platform (asked_of q)) rv
           (platform_audience E (pl_id p) (tables w)) (tables w) = Inr b"
    and "char_count (as_channel (asked_of q)) \<le> 16" and "char_count (as_platform (asked_of q)) \<le> 32"
    and "char_count (ss_etag b) \<le> 80"
  shows "\<exists>w1 jobs resp w2 w3 job. (flow E m s admits)\<^sup>*\<^sup>* (w, []) (w1, jobs)
    \<and> handle_revoke E r w1 = (Inr resp, w2) \<and> rs_status resp = 200
    \<and> (flow E m s admits)\<^sup>*\<^sup>* (w2, jobs) (w3, [job])
    \<and> jb_progress job = Answered (Inr (b, platform_audience E (pl_id p) (tables w)))
    \<and> rq_param r ''appID'' \<notin> set (grants_of (pl_id p) (tables w3))
    \<and> (\<exists>g apps. selected_apps E (as_channel (asked_of q)) (as_platform (asked_of q))
           (platform_audience E (pl_id p) (tables w)) (tables w) = Inr (g, apps)
         \<and> finish E s (as_platform (asked_of q)) rv g apps = Inr b
         \<and> (\<forall>v. eligible E (as_channel (asked_of q)) (as_platform (asked_of q)) (grants_of (pl_id p) (tables w)) (tables w) v
              \<longrightarrow> app_id (fst v) \<in> ca_id ` set apps))
    \<and> (\<exists>aud w4. handle_catalog E m q w3 = (Inr (catalog_response q b aud), w4))"
proof -
  let ?q = "asked_of q" and ?u = "pl_id p" and ?a = "rq_param r ''appID''" and ?d = "tables w"
  let ?aud = "platform_audience E ?u ?d" and ?j = "\<lparr>jb_asked = asked_of q, jb_since = rv, jb_progress = Arrived\<rparr>"
  have wf: "wf_platforms n (t_platforms ?d)" using assms(2) by (rule wf_dbD)
  have "gr_app g \<in> set (grants_of ?u ?d)" using assms(11,12) by (auto simp: grants_of_def)
  then have "grants_of ?u ?d \<noteq> []" by auto
  from platform_builds [OF assms(1) wf assms(3,5-8) this assms(15-17)] obtain t w1 where w1: "quiet w1"
      "tables w1 = ?d\<lparr>t_platforms := update_where (\<lambda>r. pl_id r = ?u) (\<lambda>r. r\<lparr>pl_last_seen_at := Some t\<rparr>) (t_platforms ?d)\<rparr>"
    and build: "reaches E s ?q (Arrived, w) (Built ?aud b, w1)" by blast
  have "flow E m s admits (w, []) (w, [?j])" using flow.arrives [OF assms(16), of E m s admits "[]" q] by simp
  moreover have "(flow E m s admits)\<^sup>*\<^sup>* (w, [?j]) (w1, [?j\<lparr>jb_progress := Built ?aud b\<rparr>])"
    using build by (intro flow_reaches) simp
  ultimately have first: "(flow E m s admits)\<^sup>*\<^sup>* (w, []) (w1, [?j\<lparr>jb_progress := Built ?aud b\<rparr>])"
    by (rule converse_rtranclp_into_rtranclp)
  from revoke_quiet [OF w1(1) assms(9,10)] obtain resp w2 where
    revoke: "handle_revoke E r w1 = (Inr resp, w2)" "rs_status resp = 200" and w2: "quiet w2"
      "tables w2 = (tables w1)\<lparr>t_grants := filter (\<lambda>g. \<not> (gr_app g = ?a \<and> gr_platform g = ?u)) (t_grants (tables w1)),
         t_private := filter (\<lambda>x. fst x \<noteq> ?u) (t_private (tables w1))\<rparr>"
    by blast
  let ?p = "p\<lparr>pl_last_seen_at := Some t\<rparr>"
  have p2: "?p \<in> set (t_platforms (tables w2))"
    using assms(5) by (auto simp: w2 w1 set_update_where image_iff intro!: bexI [of _ p])
  from save_private_quiet [OF assms(1) w2(1) p2 assms(18-20), of s ?d] obtain t' w3 where
    save: "advance E s ?q (Built ?aud b, w2) = (Answered (Inr (b, ?aud)), w3)" and w3: "quiet w3"
      "tables w3 = store_private (?u, as_channel ?q, as_platform ?q) b t' (tables w2)"
    by auto
  have "flow E m s admits (w2, [?j\<lparr>jb_progress := Built ?aud b\<rparr>]) (w3, [?j\<lparr>jb_progress := Answered (Inr (b, ?aud))\<rparr>])"
    using flow.calls [of 0 "[?j\<lparr>jb_progress := Built ?aud b\<rparr>]" E s w2 _ w3 m admits] save by simp
  moreover have gone: "?a \<notin> set (grants_of ?u (tables w3))"
    by (auto simp: grants_of_def w3 w2 store_private_def)
  moreover have "\<exists>aud w4. handle_catalog E m q w3 = (Inr (catalog_response q b aud), w4)"
  proof (rule saved_is_served [OF assms(1) wf w3(1) assms(4) _ assms(6-8,14), where g = g])
    show "?p \<in> set (t_platforms (tables w3))" using p2 by (simp add: w3 store_private_def)
    show "t_private (tables w3) = t_private (store_private (?u, as_channel ?q, as_platform ?q) b t' (tables w2))"
      by (simp add: w3)
  qed (use build_pure_revision [OF assms(17)] assms(11-13,16) in \<open>simp_all add: w3 w2 w1 store_private_def\<close>)
  moreover have "jb_progress (?j\<lparr>jb_progress := Answered (Inr (b, ?aud))\<rparr>) = Answered (Inr (b, ?aud))" by simp
  moreover note platform_document [OF assms(17)]
  ultimately show ?thesis using first revoke r_into_rtranclp [of "flow E m s admits"] by blast
qed

text \<open>The example's digest is the text itself, too long for a column: here it is cut.\<close>

definition short_env :: env where
  "short_env = demo_env\<lparr>sha256 := take 4\<rparr>"

lemma short_codec: "uuid_codec short_env"
  using demo_codec by (simp add: short_env_def uuid_codec_def)

definition race_world :: world where
  "race_world = stale_world\<lparr>tables := (tables stale_world)\<lparr>t_private := []\<rparr>, sched := []\<rparr>"

theorem revocation_overtaken_witness:
  "\<exists>w1 jobs resp w2 w3 job. (flow short_env demo_module demo_signer (\<lambda>_. True))\<^sup>*\<^sup>* (race_world, []) (w1, jobs)
    \<and> handle_revoke short_env stale_revoke w1 = (Inr resp, w2) \<and> rs_status resp = 200
    \<and> (flow short_env demo_module demo_signer (\<lambda>_. True))\<^sup>*\<^sup>* (w2, jobs) (w3, [job])
    \<and> ''b'' \<notin> set (grants_of 4 (tables w3))"
proof -
  let ?q = "asked_of stale_query"
  have wf: "wf_db 9 (tables race_world)" and q: "quiet race_world"
    and t: "as_token ?q \<noteq> []" and g: "pl_digest demo_platform = token_digest short_env (as_token ?q)"
    and v: "valid_catalog_query short_env (rq_query stale_query ''channel'') (rq_query stale_query ''platform'') = None"
    and u: "pg_uuid short_env (rq_param stale_revoke ''id'') = Some (pl_id demo_platform)"
    and n: "rq_param stale_revoke ''id'' \<noteq> []"
    and l: "load_private (pl_id demo_platform, as_channel ?q, as_platform ?q) (tables race_world) = None"
    and r: "t_revision (tables race_world) = Some 0"
    and c: "char_count (as_channel ?q) \<le> 16" "char_count (as_platform ?q) \<le> 32"
    and b: "case build_pure short_env demo_signer (as_channel ?q) (as_platform ?q) 0
       (platform_audience short_env (pl_id demo_platform) (tables race_world)) (tables race_world) of
       Inl e \<Rightarrow> False | Inr b \<Rightarrow> char_count (ss_etag b) \<le> 80"
    by code_simp+
  from b obtain b where b: "build_pure short_env demo_signer (as_channel ?q) (as_platform ?q) 0
       (platform_audience short_env (pl_id demo_platform) (tables race_world)) (tables race_world) = Inr b"
    "char_count (ss_etag b) \<le> 80" by (auto split: sum.splits)
  have m: "m_catalog demo_module = Some demo_signer" by (simp add: demo_module_def)
  have p: "demo_platform \<in> set (t_platforms (tables race_world))" and d: "pl_disabled_at demo_platform = None"
    and gr: "\<lparr>gr_app = ''c'', gr_platform = 4, gr_granted_at = 0, gr_granted_by = None\<rparr> \<in> set (t_grants (tables race_world))"
    and i: "pl_id demo_platform = 4" and a: "rq_param stale_revoke ''appID'' = ''b''"
    by (simp_all add: race_world_def stale_world_def demo_db_def empty_db_def demo_platform_def stale_revoke_def)
  from revocation_overtaken [OF short_codec wf q m p d g t u n gr _ _ v l r b(1) c b(2)] i a show ?thesis
    by simp blast
qed

section \<open>A registration overtaken\<close>

text \<open>
  C32: two registrations of one app id can both go through. The owner is looked up first and the row
  written later: when another publisher registers the id in between, the first registration, which
  has found no owner, meets its row, and writes its own name, visibility and the rest over the other
  publisher's app.
\<close>

theorem registration_overtaken:
  assumes "uuid_codec E" and "app_owner E (a_id x) w = (Inr None, w1)"
    and "upsert_app E y texts w1 = (Inr (), w2)" and "a_id y = a_id x"
    and "upsert_app_stmt E x t n (tables w2) = Inr ((), d)"
  shows "\<exists>r\<in>set (t_apps d). app_id r = a_id y \<and> pg_uuid E (a_publisher_id y) = Some (app_publisher r)
    \<and> app_slug r = a_slug x \<and> app_type r = a_type x \<and> app_name r = a_name x
    \<and> app_description r = a_description x \<and> app_visibility r = a_visibility x"
proof -
  from upsert_app_writes [OF assms(1,3)] obtain publisher t1 where
    "pg_uuid E (a_publisher_id y) = Some publisher"
    and "\<forall>r. find (\<lambda>r. app_id r = a_id y) (t_apps (tables w1)) = Some r \<longrightarrow> pg_uuid_text E (app_publisher r) = a_publisher_id y"
    and apps: "t_apps (tables w2) = upsert (\<lambda>r. app_id r = a_id y) (app_insert E y publisher t1) (app_update y t1) (t_apps (tables w1))"
    by (metis database.select_convs(2) database.update_convs(2) database.surjective)
  from saved_app_row [OF assms(1) this(1,2), of t1]
  obtain r where r: "r \<in> set (t_apps (tables w2))" "app_id r = a_id y"
    and p: "pg_uuid E (a_publisher_id y) = Some (app_publisher r)" unfolding apps by blast
  from assms(5) obtain v where d: "t_apps d = upsert (\<lambda>r. app_id r = a_id x) v (app_update x t) (t_apps (tables w2))"
    by (auto simp: upsert_app_stmt_def split: option.splits if_splits)
  have "app_update x t r \<in> set (t_apps d)"
    using r assms(4) by (force simp: d upsert_def list_ex_iff)
  then show ?thesis using p r(2) by (intro bexI [of _ "app_update x t r"]) (auto simp: app_update_def)
qed

theorem registration_overtaken_witness:
  "\<exists>w1 w2 d. app_owner demo_env ''c'' demo_world = (Inr None, w1)
    \<and> upsert_app demo_env (demo_new_app\<lparr>a_publisher_id := ''xxxxxxxx''\<rparr>) [] w1 = (Inr (), w2)
    \<and> upsert_app_stmt demo_env (demo_new_app\<lparr>a_name := ''Mine''\<rparr>) 0 0 (tables w2) = Inr ((), d)
    \<and> (\<exists>r\<in>set (t_apps d). app_id r = ''c'' \<and> app_publisher r = 7 \<and> app_name r = ''Mine'')"
proof -
  let ?y = "demo_new_app\<lparr>a_publisher_id := ''xxxxxxxx''\<rparr>" and ?x = "demo_new_app\<lparr>a_name := ''Mine''\<rparr>"
  have o: "app_owner demo_env (a_id ?x) demo_world = (Inr None, tick demo_world)"
    by (simp add: app_owner_def query_quiet demo_quiet) (simp add: demo_world_def demo_db_def empty_db_def demo_app_def demo_new_app_def)
  have c: "case upsert_app demo_env ?y [] (tick demo_world) of (Inl e, w2) \<Rightarrow> False | (Inr u, w2) \<Rightarrow>
      (case upsert_app_stmt demo_env ?x 0 0 (tables w2) of Inl e \<Rightarrow> False | Inr z \<Rightarrow> True)"
    and u: "pg_uuid demo_env ''xxxxxxxx'' = Some 7"
    by code_simp+
  from c obtain w2 d where y: "upsert_app demo_env ?y [] (tick demo_world) = (Inr (), w2)"
    and x: "upsert_app_stmt demo_env ?x 0 0 (tables w2) = Inr ((), d)"
    by (auto split: prod.splits sum.splits)
  from registration_overtaken [OF demo_codec o y _ x] o y x u show ?thesis
    by (auto simp: demo_new_app_def)
qed

end
