(* ===== verification/ReviewTrail.thy ===== *)
theory ReviewTrail
  imports Races ReviewSpec
begin






section \<open>Operations that add no version and no event\<close>









section \<open>The two that write the story\<close>




section \<open>Every run\<close>









end
