(* ===== verification/Modules.thy ===== *)
theory Modules
  imports System
begin

text \<open>
  What each module tells the core about itself, the order in which \<^verbatim>\<open>main.go\<close> registers them, and
  the routes they mount against the repository's list of public ones. A menu's translated labels
  are left out; they are display text.
\<close>

section \<open>What a module declares\<close>

record permission =
  pe_code :: string
  pe_name :: string
  pe_description :: string

record menu =
  me_id :: string
  me_label :: string
  me_path :: string
  me_icon :: string
  me_order :: nat

record module_info =
  mo_id :: string
  mo_name :: string
  mo_version :: string
  mo_dependencies :: "(string \<times> string) list"
  mo_permissions :: "permission list"

definition registry_info :: module_info where
  "registry_info =
     \<lparr>mo_id = ''io.gerege.nexus.appstore_registry'', mo_name = ''App Store Registry'',
      mo_version = ''1.0.0'', mo_dependencies = [],
      mo_permissions =
        [\<lparr>pe_code = ''registry.read'', pe_name = ''Read the registry'',
          pe_description = ''See the registry's state and its published catalogue''\<rparr>,
         \<lparr>pe_code = ''registry.manage'', pe_name = ''Operate the registry'',
          pe_description = ''Rebuild the catalogue snapshot and manage registry state''\<rparr>]\<rparr>"

definition registry_menu :: menu where
  "registry_menu =
     \<lparr>me_id = ''appstore_registry'', me_label = ''App Registry'', me_path = ''/module/appstore/registry'',
      me_icon = ''boxes'', me_order = 10\<rparr>"

definition publisher_info :: module_info where
  "publisher_info =
     \<lparr>mo_id = ''io.gerege.nexus.publisher_studio'', mo_name = ''Publisher Studio'',
      mo_version = ''1.0.0'', mo_dependencies = [(''io.gerege.nexus.appstore_registry'', ''>=1.0.0'')],
      mo_permissions =
        [\<lparr>pe_code = ''publisher.read'', pe_name = ''See published apps'',
          pe_description = ''View this organisation's publishing profile, apps and submissions''\<rparr>,
         \<lparr>pe_code = ''publisher.manage'', pe_name = ''Publish apps'',
          pe_description = ''Register apps and submit versions for review on this organisation's behalf''\<rparr>]\<rparr>"

definition publisher_menu :: menu where
  "publisher_menu =
     \<lparr>me_id = ''publisher_studio'', me_label = ''Publisher Studio'', me_path = ''/module/publisher'',
      me_icon = ''upload'', me_order = 20\<rparr>"

definition review_info :: module_info where
  "review_info =
     \<lparr>mo_id = ''io.gerege.nexus.store_review'', mo_name = ''Store Review'',
      mo_version = ''1.0.0'', mo_dependencies = [(''io.gerege.nexus.appstore_registry'', ''>=1.0.0'')],
      mo_permissions =
        [\<lparr>pe_code = ''review.read'', pe_name = ''See the review queue'',
          pe_description = ''View submitted versions and their review history''\<rparr>,
         \<lparr>pe_code = ''review.decide'', pe_name = ''Publish and reject'',
          pe_description = ''Publish, reject or withdraw a submitted version, and verify a publisher''\<rparr>]\<rparr>"

definition review_menu :: menu where
  "review_menu =
     \<lparr>me_id = ''store_review'', me_label = ''Review Queue'', me_path = ''/module/store-review'',
      me_icon = ''list-checks'', me_order = 30\<rparr>"

text \<open>The modules in the order in which \<^verbatim>\<open>main\<close> constructs them; each registers itself with the core.\<close>

definition registered :: "module_info list" where
  "registered = [registry_info, publisher_info, review_info]"

text \<open>
  \<^verbatim>\<open>main\<close> hands them to the core's \<^verbatim>\<open>platform.Run\<close>, here \<open>run\<close>, and exits with 1 when that
  returns an error.
\<close>

definition main_status :: "(module_info list \<Rightarrow> err option) \<Rightarrow> nat" where
  "main_status run = (case run registered of None \<Rightarrow> 0 | Some e \<Rightarrow> 1)"

text \<open>A module is registered after the modules it depends on.\<close>

lemma dependencies_registered_first:
  "i < length registered \<Longrightarrow> fst ` set (mo_dependencies (registered ! i)) \<subseteq> mo_id ` set (take i registered)"
  by (auto simp: registered_def registry_info_def publisher_info_def review_info_def less_Suc_eq numeral_3_eq_3)

lemma permission_codes_distinct: "distinct (map pe_code (concat (map mo_permissions registered)))"
  by (simp add: registered_def registry_info_def publisher_info_def review_info_def)

section \<open>The public routes\<close>

text \<open>
  \<^verbatim>\<open>route_policy_test.go\<close>: the patterns a stranger may reach. One that ends in \<^verbatim>\<open>/*\<close> stands for
  its prefix and everything below it.
\<close>

definition public_routes :: "string list" where
  "public_routes = [''/api/v1/registry/*'', ''/.well-known/appstore-keys.json'']"

definition cut_suffix :: "string \<Rightarrow> string \<Rightarrow> string option" where
  "cut_suffix s end_of =
     (let n = length s - length end_of in
      if length end_of \<le> length s \<and> drop n s = end_of then Some (take n s) else None)"

definition is_public :: "string \<Rightarrow> bool" where
  "is_public pattern \<longleftrightarrow> list_ex (\<lambda>allowed. allowed = pattern \<or>
     (case cut_suffix allowed ''/*'' of
        None \<Rightarrow> False
      | Some prefix \<Rightarrow> pattern = prefix
          \<or> take (length (prefix @ ''/'')) pattern = prefix @ ''/'')) public_routes"

definition route :: "call \<Rightarrow> (string \<times> string) option" where
  "route c = (case registry_route c of
       Some x \<Rightarrow> Some x
     | None \<Rightarrow> (case publisher_route c of Some x \<Rightarrow> Some x | None \<Rightarrow> review_route c))"

text \<open>The path the test asks for in place of a pattern.\<close>

definition concrete_segment :: "string \<Rightarrow> string" where
  "concrete_segment segment =
     (if segment = ''*'' then ''x''
      else if take 1 segment = ''{'' then ''probe''
      else segment)"

fun join_with :: "char \<Rightarrow> string list \<Rightarrow> string" where
  "join_with c [] = []"
| "join_with c [p] = p"
| "join_with c (p # q # ps) = p @ c # join_with c (q # ps)"

lemma join_split: "join_with c (split_on c s) = s"
proof (induction s)
  case (Cons x xs)
  have push: "join_with c ((y # p) # ps) = y # join_with c (p # ps)" for y p ps by (cases ps) simp_all
  obtain p ps where "split_on c xs = p # ps" by (cases "split_on c xs") auto
  with Cons push show ?case by auto
qed simp

definition concrete_for :: "string \<Rightarrow> string" where
  "concrete_for pattern = join_with (CHR ''/'') (map concrete_segment (split_on (CHR ''/'') pattern))"

text \<open>
  The test's complaints: the patterns off the public list whose concrete path was answered without
  passing the gate. \<open>passes\<close> is whether a request with this method to this path passes it.
\<close>

definition ungated :: "(string \<Rightarrow> string \<Rightarrow> bool) \<Rightarrow> (string \<times> string) list \<Rightarrow> (string \<times> string) list" where
  "ungated passes patterns = filter (\<lambda>(verb, pattern).
     \<not> is_public (case cut_suffix pattern ''/*'' of None \<Rightarrow> pattern | Some p \<Rightarrow> p)
     \<and> \<not> passes verb (concrete_for pattern)) patterns"

text \<open>A pattern without parameters is asked for as it is.\<close>

lemma concrete_for_plain:
  assumes "\<And>p. p \<in> set (split_on (CHR ''/'') s) \<Longrightarrow> p \<noteq> ''*'' \<and> take 1 p \<noteq> ''{''"
  shows "concrete_for s = s"
proof -
  have "map concrete_segment (split_on (CHR ''/'') s) = split_on (CHR ''/'') s"
    using assms by (intro map_idI) (simp add: concrete_segment_def)
  then show ?thesis by (simp add: concrete_for_def join_split)
qed

text \<open>
  Every request of the service has a route, and it is behind the gate unless its route is on the
  public list; those on the list are in front of it.
\<close>

lemma routes_follow_policy: "\<exists>verb pattern. route c = Some (verb, pattern) \<and> (gated c \<longleftrightarrow> \<not> is_public pattern)"
  by (cases c) (simp_all add: route_def is_public_def public_routes_def cut_suffix_def)

text \<open>
  So the test has nothing to complain of: a request to the path it asks for in place of a route
  passes the gate unless the route is public.
\<close>

lemma route_policy_test_passes:
  assumes "\<And>c verb pattern. route c = Some (verb, pattern) \<Longrightarrow> passes verb (concrete_for pattern) \<longleftrightarrow> gated c"
    and "set patterns \<subseteq> {p. \<exists>c. route c = Some p}"
  shows "ungated passes patterns = []"
proof -
  have plain: "cut_suffix pattern ''/*'' = None" if "route c = Some (verb, pattern)" for c verb pattern
    using that by (cases c) (auto simp: route_def cut_suffix_def)
  have "is_public pattern \<or> passes verb (concrete_for pattern)" if "(verb, pattern) \<in> set patterns" for verb pattern
  proof -
    from that assms(2) obtain c where c: "route c = Some (verb, pattern)" by blast
    with routes_follow_policy [of c] assms(1) [OF c] show ?thesis by auto
  qed
  with plain assms(2) show ?thesis
    unfolding ungated_def by (fastforce simp: filter_empty_conv)
qed

end
