(* ===== verification/Rotation.thy ===== *)
theory Rotation
  imports Interleaving AccessSpec
begin

text \<open>
  A new signing key. The service is started again with another key over the tables of the old one:
  the revision has not moved, so every cached document looks current and is signed with a key nobody
  accepts any more. The operator's rebuild is what the code offers for it. It reaches the public
  documents, from then on and however requests overlap, and not those of the platforms.
\<close>

lemma rebuilt:
  assumes "handle_rebuild_snapshots m w = (Inr a, w')" and "rs_status a = 200"
  shows "\<not> fails w" and "w' = (tick w)\<lparr>tables := (tables w)\<lparr>t_snapshots := []\<rparr>\<rparr>"
  using assms
  by (auto simp: handle_rebuild_snapshots_def require_catalogue_def answer_error_def answer_json_def respond_def
      discard_snapshots_def attempt_apply stmt_def Let_def split: option.splits if_splits)

lemma rebuilt_ok:
  assumes "handle_rebuild_snapshots m w = (Inr a, w')" and "rs_status a = 200" and "t_revision (tables w) = Some rv"
  shows "flow_ok E s (w', [])"
  using assms(3) rebuilt(2) [OF assms(1,2)]
  by (simp add: flow_ok_def public_ok_def public_cache.coherent_def load_public_def)

lemma flows_keep:
  assumes "uuid_codec E" and "m_catalog m = Some s" and "(flow E m s admits)\<^sup>*\<^sup>* x y" and "flow_ok E s x"
  shows "flow_ok E s y"
  using assms(3,4) by induction (auto intro: flow_keeps [OF assms(1,2)])

section \<open>Properties\<close>

text \<open>
  C36: a rebuild completes a change of keys for the public catalogue. Whatever was cached, and with
  whatever key it was signed: after a rebuild answered 200 by a service with the key \<open>s\<close>, however
  requests overlap from then on and whichever calls fail, every request without a recognised
  credential that is answered with a document is answered with the one the tables call for, signed
  with \<open>s\<close>.
\<close>

theorem rebuild_completes_rotation:
  assumes "uuid_codec E" and "m_catalog m = Some s" and "t_revision (tables w) = Some rv"
    and "handle_rebuild_snapshots m w = (Inr a, w1)" and "rs_status a = 200"
    and "(flow E m s admits)\<^sup>*\<^sup>* (w1, []) (w2, jobs)"
    and "audience_view E (bearer_token (rq_header r ''Authorization'')) (tables w2) = no_audience"
    and "handle_catalog E m r w2 = (Inr resp, w3)" and "rs_status resp \<in> {200, 304}"
  shows "\<exists>n snap. t_revision (tables w2) = Some n
    \<and> build_pure E s (or_default (rq_query r ''channel'') ''stable'')
         (or_default (rq_query r ''platform'') default_platform) n no_audience (tables w2) = Inr snap
    \<and> resp = catalog_response r snap no_audience"
proof -
  have "public_ok E s (tables w2)"
    using flows_keep [OF assms(1,2,6) rebuilt_ok [OF assms(4,5,3)]] by (auto simp: flow_ok_def)
  from handle_catalog_served [OF assms(1,2,8) this assms(7)] assms(9) show ?thesis
    by (metis insertE singletonD)
qed

text \<open>The demo service with a new key, over tables that hold a document of the old one.\<close>

definition rotated_module :: module where
  "rotated_module = \<lparr>m_catalog = Some \<lparr>sg_key_id = ''k2'', sg_private = ''t''\<rparr>,
     m_signer = Some \<lparr>sg_key_id = ''k2'', sg_private = ''t''\<rparr>\<rparr>"

definition rotated_world :: world where
  "rotated_world = demo_world\<lparr>tables := demo_db
     \<lparr>t_snapshots := [row_of_snapshot ''stable'' ''1.0.0'' stale_document 0],
      t_private := [(4, row_of_snapshot ''stable'' ''1.0.0'' stale_document 0)]\<rparr>\<rparr>"

lemma rotated_rebuild:
  "\<exists>a w1. handle_rebuild_snapshots rotated_module rotated_world = (Inr a, w1) \<and> rs_status a = 200"
  by (simp add: handle_rebuild_snapshots_def require_catalogue_def rotated_module_def rotated_world_def
      discard_snapshots_def attempt_apply stmt_def Let_def fails_def demo_world_def answer_json_def respond_def)

theorem rebuild_completes_rotation_witness:
  "\<exists>resp w3 snap. handle_catalog demo_env rotated_module no_request
       (snd (handle_rebuild_snapshots rotated_module rotated_world)) = (Inr resp, w3)
     \<and> resp = catalog_response no_request snap no_audience
     \<and> build_pure demo_env \<lparr>sg_key_id = ''k2'', sg_private = ''t''\<rparr> ''stable'' ''1.0.0'' 0 no_audience
         (tables (snd (handle_rebuild_snapshots rotated_module rotated_world))) = Inr snap"
proof -
  from rotated_rebuild obtain a w1 where r: "handle_rebuild_snapshots rotated_module rotated_world = (Inr a, w1)"
    and s: "rs_status a = 200" by blast
  have m: "m_catalog rotated_module = Some \<lparr>sg_key_id = ''k2'', sg_private = ''t''\<rparr>" by (simp add: rotated_module_def)
  have t: "t_revision (tables rotated_world) = Some 0" by (simp add: rotated_world_def demo_db_def empty_db_def)
  have "case handle_catalog demo_env rotated_module no_request (snd (handle_rebuild_snapshots rotated_module rotated_world))
      of (Inl e, w) \<Rightarrow> False | (Inr resp, w) \<Rightarrow> rs_status resp = 200"
    by code_simp
  then obtain resp w3 where h: "handle_catalog demo_env rotated_module no_request w1 = (Inr resp, w3)" and st: "rs_status resp \<in> {200, 304}"
    using r by (auto split: prod.splits sum.splits)
  have f: "(flow demo_env rotated_module \<lparr>sg_key_id = ''k2'', sg_private = ''t''\<rparr> (\<lambda>_. True))\<^sup>*\<^sup>* (w1, []) (w1, [])"
    by simp
  have "audience_view demo_env (bearer_token (rq_header no_request ''Authorization'')) (tables w1) = no_audience"
    by (simp add: audience_view_def no_request_def bearer_token_def)
  from rebuild_completes_rotation [OF demo_codec m t r s f this h st]
  obtain n snap where n: "t_revision (tables w1) = Some n"
    and b: "build_pure demo_env \<lparr>sg_key_id = ''k2'', sg_private = ''t''\<rparr> (or_default (rq_query no_request ''channel'') ''stable'')
         (or_default (rq_query no_request ''platform'') default_platform) n no_audience (tables w1) = Inr snap"
    and "resp = catalog_response no_request snap no_audience" by blast
  moreover have "n = 0" using n rebuilt(2) [OF r s] t by simp
  ultimately show ?thesis using h r by (auto simp: no_request_def or_default_def default_platform_def)
qed

text \<open>
  C37: it does not reach the platforms. After the same rebuild a platform is still answered, while the
  database answers, with the document that was cached for it at the present revision, byte for byte
  and under the signature it was cached with, whatever the service's key is now.
\<close>

theorem rebuild_skips_platforms:
  assumes "uuid_codec E" and "wf_db n (tables w)" and "quiet w" and "m_catalog m = Some s"
    and "handle_rebuild_snapshots m w = (Inr a, w1)" and "rs_status a = 200"
    and "p \<in> set (t_platforms (tables w))" and "pl_disabled_at p = None"
    and "pl_digest p = token_digest E (bearer_token (rq_header q ''Authorization''))"
    and "bearer_token (rq_header q ''Authorization'') \<noteq> []"
    and "grants_of (pl_id p) (tables w) \<noteq> []"
    and "valid_catalog_query E (rq_query q ''channel'') (rq_query q ''platform'') = None"
    and "load_private (pl_id p, or_default (rq_query q ''channel'') ''stable'',
        or_default (rq_query q ''platform'') default_platform) (tables w) = Some held"
    and "t_revision (tables w) = Some (ss_revision held)"
  shows "\<exists>aud w2. handle_catalog E m q w1 = (Inr (catalog_response q held aud), w2)"
proof -
  have w1: "w1 = (tick w)\<lparr>tables := (tables w)\<lparr>t_snapshots := []\<rparr>\<rparr>" by (rule rebuilt(2) [OF assms(5,6)])
  then have "quiet w1" using assms(3) by simp
  with assms(7-14) w1 wf_dbD(4) [OF assms(2)] show ?thesis
    by (intro platform_served_held [where p = p and n = n, OF assms(1) _ _ assms(4)])
      (simp_all add: load_private_def grants_of_def)
qed

theorem rebuild_skips_platforms_witness:
  "\<exists>w1 aud w2. w1 = snd (handle_rebuild_snapshots rotated_module rotated_world)
     \<and> handle_catalog demo_env rotated_module stale_query w1 = (Inr (catalog_response stale_query stale_document aud), w2)"
proof -
  from rotated_rebuild obtain a w1 where r: "handle_rebuild_snapshots rotated_module rotated_world = (Inr a, w1)"
    and s: "rs_status a = 200" by blast
  have wf: "wf_db 9 (tables rotated_world)" by code_simp
  have q: "quiet rotated_world" by (simp add: rotated_world_def quiet_def demo_world_def)
  have m: "m_catalog rotated_module = Some \<lparr>sg_key_id = ''k2'', sg_private = ''t''\<rparr>" by (simp add: rotated_module_def)
  have p: "demo_platform \<in> set (t_platforms (tables rotated_world))" and d: "pl_disabled_at demo_platform = None"
    by (simp_all add: rotated_world_def demo_db_def demo_platform_def)
  have "pl_digest demo_platform = token_digest demo_env (bearer_token (rq_header stale_query ''Authorization''))
      \<and> bearer_token (rq_header stale_query ''Authorization'') \<noteq> []
      \<and> grants_of (pl_id demo_platform) (tables rotated_world) \<noteq> []
      \<and> valid_catalog_query demo_env (rq_query stale_query ''channel'') (rq_query stale_query ''platform'') = None
      \<and> load_private (pl_id demo_platform, or_default (rq_query stale_query ''channel'') ''stable'',
           or_default (rq_query stale_query ''platform'') default_platform) (tables rotated_world) = Some stale_document
      \<and> t_revision (tables rotated_world) = Some (ss_revision stale_document)"
    by code_simp
  with rebuild_skips_platforms [OF demo_codec wf q m r s p d] r show ?thesis by (metis snd_conv)
qed

end
