(* ===== verification/Import.thy ===== *)
theory Import
  imports World
begin

text \<open>
  \<^verbatim>\<open>cmd/appstore-import/main.go\<close>: the tool that carries a standalone registry's data into the
  platform's database. Every publisher becomes a tenant with an owner; the other tables are copied.
  The tool has a world of its own: the target database, one transaction on it, and the schedule of
  driver calls. The source database is only read, so it is an argument.
\<close>

section \<open>The two databases\<close>

text \<open>The standalone registry's tables, with the columns the tool selects.\<close>

record source_publisher =
  sp_id :: uuid
  sp_slug :: string
  sp_name :: string
  sp_email :: string
  sp_verified :: bool
  sp_owner_email :: "string option"
  sp_owner_tenant_slug :: "string option"
  sp_created_at :: time

record source_app =
  sa_id :: string
  sa_publisher :: uuid
  sa_slug :: string
  sa_type :: string
  sa_name :: string
  sa_description :: string
  sa_icon_url :: string
  sa_category :: string
  sa_visibility :: string
  sa_created_at :: time
  sa_updated_at :: time

record source_version =
  sv_id :: uuid
  sv_app :: string
  sv_version :: string
  sv_channel :: string
  sv_min_platform :: string
  sv_manifest :: json
  sv_status :: string
  sv_submitted_by :: string
  sv_note :: string
  sv_published_at :: "time option"
  sv_created_at :: time

record source_event =
  se_id :: uuid
  se_version :: uuid
  se_actor :: string
  se_action :: string
  se_note :: string
  se_created_at :: time

record source =
  so_publishers :: "source_publisher list"
  so_apps :: "source_app list"
  so_versions :: "source_version list"
  so_texts :: "text_row list"
  so_externals :: "external_row list"
  so_events :: "source_event list"

text \<open>
  The target: the store's tables, which are those the modules serve, the primary keys of its review
  events, and the core's tables of people. What the core's schema does by itself is a parameter:
  PostgreSQL's \<^verbatim>\<open>lower\<close>, and the roles a new tenant comes with.
\<close>

record tenant_row =
  tn_id :: uuid
  tn_slug :: string
  tn_name :: string

record user_row =
  us_id :: uuid
  us_email :: string
  us_password_hash :: string
  us_name :: string

record membership_row =
  mb_id :: uuid
  mb_tenant :: uuid
  mb_user :: uuid

record role_row =
  ro_id :: uuid
  ro_tenant :: uuid
  ro_code :: string

record target =
  tg_store :: database
  tg_event_ids :: "uuid list"
  tg_tenants :: "tenant_row list"
  tg_users :: "user_row list"
  tg_memberships :: "membership_row list"
  tg_roles :: "role_row list"
  tg_membership_roles :: "(uuid \<times> uuid) list"

record core_schema =
  cs_lower :: "string \<Rightarrow> string"
  cs_tenant_roles :: "uuid \<Rightarrow> role_row list"

section \<open>The transaction and its calls\<close>

text \<open>
  \<open>im_broken\<close>: PostgreSQL refuses every statement of a transaction after the first that has failed.
\<close>

record importing =
  im_target :: target
  im_now :: time
  im_sched :: "outcome list"
  im_next :: uuid
  im_broken :: bool

type_synonym 'a imp = "(importing, 'a) io"

definition call_fails :: "importing \<Rightarrow> bool" where
  "call_fails w \<longleftrightarrow> (case im_sched w of Fails # _ \<Rightarrow> True | _ \<Rightarrow> False)"

definition called :: "importing \<Rightarrow> importing" where
  "called w = w\<lparr>im_sched := tl (im_sched w), im_next := Suc (im_next w)\<rparr>"

definition tx_call :: "(time \<Rightarrow> uuid \<Rightarrow> target \<Rightarrow> err + 'a \<times> target) \<Rightarrow> 'a imp" where
  "tx_call q w =
     (if im_broken w \<or> call_fails w then (Inl ErrDriver, (called w)\<lparr>im_broken := True\<rparr>)
      else case q (im_now w) (im_next w) (im_target w) of
          Inl e \<Rightarrow> (Inl e, (called w)\<lparr>im_broken := True\<rparr>)
        | Inr (x, d) \<Rightarrow> (Inr x, (called w)\<lparr>im_target := d\<rparr>))"

text \<open>A read of the source is a call on another connection.\<close>

definition source_call :: "'a \<Rightarrow> 'a imp" where
  "source_call x w = (if call_fails w then (Inl ErrDriver, called w) else (Inr x, called w))"

text \<open>An error that wraps another keeps the text in front of it.\<close>

definition wrapped :: "string \<Rightarrow> 'a imp \<Rightarrow> 'a imp" where
  "wrapped what m = attempt m (\<lambda>r. case r of Inl e \<Rightarrow> fail (ErrMsg what) | Inr x \<Rightarrow> ok x)"

section \<open>People\<close>

definition tenant_by_slug :: "string \<Rightarrow> uuid option imp" where
  "tenant_by_slug slug =
     tx_call (\<lambda>t n d. Inr (map_option tn_id (find (\<lambda>r. tn_slug r = slug) (tg_tenants d)), d))"

definition insert_tenant_stmt ::
  "core_schema \<Rightarrow> string \<Rightarrow> string \<Rightarrow> time \<Rightarrow> uuid \<Rightarrow> target \<Rightarrow> err + uuid \<times> target" where
  "insert_tenant_stmt C name slug t n d =
     Inr (n, d\<lparr>tg_tenants := tg_tenants d @ [\<lparr>tn_id = n, tn_slug = slug, tn_name = name\<rparr>],
               tg_roles := tg_roles d @ cs_tenant_roles C n\<rparr>)"

text \<open>Any error of the look-up, not only that there is no row, goes on to the insertion.\<close>

definition ensure_tenant ::
  "env \<Rightarrow> core_schema \<Rightarrow> string \<Rightarrow> string \<Rightarrow> string \<Rightarrow> (string \<times> bool) imp" where
  "ensure_tenant E C slug owner_slug name =
     (let slug = (if slug = [] then owner_slug else slug) in
      attempt (tenant_by_slug slug)
        (\<lambda>res. case res of
            Inr (Some u) \<Rightarrow> ok (pg_uuid_text E u, False)
          | _ \<Rightarrow>
              andthen
                (wrapped (''create tenant '' @ quoted slug) (tx_call (insert_tenant_stmt C name slug)))
                (\<lambda>u. ok (pg_uuid_text E u, True))))"

definition user_by_email :: "core_schema \<Rightarrow> string \<Rightarrow> uuid option imp" where
  "user_by_email C email =
     tx_call (\<lambda>t n d. Inr (map_option us_id (find (\<lambda>r. cs_lower C (us_email r) = email) (tg_users d)), d))"

definition insert_user_stmt :: "string \<Rightarrow> string \<Rightarrow> time \<Rightarrow> uuid \<Rightarrow> target \<Rightarrow> err + uuid \<times> target" where
  "insert_user_stmt email name t n d =
     Inr (n, d\<lparr>tg_users := tg_users d @
       [\<lparr>us_id = n, us_email = email, us_password_hash = ''!'', us_name = name\<rparr>]\<rparr>)"

definition ensure_user :: "env \<Rightarrow> core_schema \<Rightarrow> string \<Rightarrow> string \<Rightarrow> (string \<times> bool) imp" where
  "ensure_user E C email name =
     (let email = to_lower E (trim_space email) in
      attempt (user_by_email C email)
        (\<lambda>res. case res of
            Inr (Some u) \<Rightarrow> ok (pg_uuid_text E u, False)
          | _ \<Rightarrow>
              andthen
                (wrapped (''create user '' @ quoted email) (tx_call (insert_user_stmt email name)))
                (\<lambda>u. ok (pg_uuid_text E u, True))))"

text \<open>\<^verbatim>\<open>ON CONFLICT ... DO UPDATE SET tenant_id = EXCLUDED.tenant_id\<close> changes nothing and returns the row.\<close>

definition membership_stmt ::
  "env \<Rightarrow> string \<Rightarrow> string \<Rightarrow> time \<Rightarrow> uuid \<Rightarrow> target \<Rightarrow> err + string \<times> target" where
  "membership_stmt E tenant_id user_id t n d =
     (case (pg_uuid E tenant_id, pg_uuid E user_id) of
        (Some tenant, Some user) \<Rightarrow>
          Inr (case find (\<lambda>r. mb_tenant r = tenant \<and> mb_user r = user) (tg_memberships d) of
              Some r \<Rightarrow> (pg_uuid_text E (mb_id r), d)
            | None \<Rightarrow> (pg_uuid_text E n, d\<lparr>tg_memberships := tg_memberships d @
                [\<lparr>mb_id = n, mb_tenant = tenant, mb_user = user\<rparr>]\<rparr>))
      | _ \<Rightarrow> Inl ErrDriver)"

definition admin_roles :: "uuid \<Rightarrow> target \<Rightarrow> uuid list" where
  "admin_roles tenant d = map ro_id (filter (\<lambda>r. ro_tenant r = tenant \<and> ro_code r = ''admin'') (tg_roles d))"

definition grant_admin_stmt ::
  "env \<Rightarrow> string \<Rightarrow> string \<Rightarrow> time \<Rightarrow> uuid \<Rightarrow> target \<Rightarrow> err + nat \<times> target" where
  "grant_admin_stmt E membership_id tenant_id t n d =
     (case (pg_uuid E membership_id, pg_uuid E tenant_id) of
        (Some m, Some tenant) \<Rightarrow>
          let new = filter (\<lambda>x. x \<notin> set (tg_membership_roles d)) (map (Pair m) (admin_roles tenant d)) in
          Inr (length new, d\<lparr>tg_membership_roles := tg_membership_roles d @ new\<rparr>)
      | _ \<Rightarrow> Inl ErrDriver)"

definition ensure_admin_membership :: "env \<Rightarrow> string \<Rightarrow> string \<Rightarrow> bool imp" where
  "ensure_admin_membership E tenant_id user_id =
     andthen (wrapped ''membership'' (tx_call (membership_stmt E tenant_id user_id)))
       (\<lambda>m. andthen (wrapped ''grant admin'' (tx_call (grant_admin_stmt E m tenant_id)))
         (\<lambda>rows. ok (0 < rows)))"

section \<open>Publishers\<close>

record import_publisher =
  ip_id :: string
  ip_slug :: string
  ip_name :: string
  ip_email :: string
  ip_verified :: bool
  ip_owner_email :: string
  ip_owner_slug :: string

definition scan_source_publisher :: "env \<Rightarrow> source_publisher \<Rightarrow> import_publisher" where
  "scan_source_publisher E r =
     \<lparr>ip_id = pg_uuid_text E (sp_id r), ip_slug = sp_slug r, ip_name = sp_name r,
      ip_email = sp_email r, ip_verified = sp_verified r,
      ip_owner_email = (case sp_owner_email r of None \<Rightarrow> [] | Some e \<Rightarrow> e),
      ip_owner_slug = (case sp_owner_tenant_slug r of None \<Rightarrow> [] | Some s \<Rightarrow> s)\<rparr>"

definition source_publishers :: "env \<Rightarrow> source \<Rightarrow> import_publisher list" where
  "source_publishers E src = map (scan_source_publisher E) (sort_key sp_created_at (so_publishers src))"

text \<open>The store's publishers are unique in their tenant and in their slug.\<close>

definition imported_publisher :: "import_publisher \<Rightarrow> uuid \<Rightarrow> time \<Rightarrow> publisher_row \<Rightarrow> publisher_row" where
  "imported_publisher p tenant t r =
     r\<lparr>pub_tenant := tenant, pub_slug := ip_slug p, pub_name := ip_name p, pub_email := ip_email p,
       pub_verified := ip_verified p, pub_updated_at := t\<rparr>"

definition write_publisher_stmt ::
  "env \<Rightarrow> import_publisher \<Rightarrow> string \<Rightarrow> time \<Rightarrow> uuid \<Rightarrow> target \<Rightarrow> err + unit \<times> target" where
  "write_publisher_stmt E p tenant_id t n d =
     (case (pg_uuid E (ip_id p), pg_uuid E tenant_id) of
        (Some u, Some tenant) \<Rightarrow>
          let rows = t_publishers (tg_store d) in
          if list_ex (\<lambda>r. pub_id r \<noteq> u \<and> (pub_tenant r = tenant \<or> pub_slug r = ip_slug p)) rows
          then Inl ErrUnique
          else Inr ((), d\<lparr>tg_store := (tg_store d)\<lparr>t_publishers :=
            upsert (\<lambda>r. pub_id r = u)
              (imported_publisher p tenant t ((pg_publisher_defaults E)\<lparr>pub_id := u, pub_created_at := t\<rparr>))
              (imported_publisher p tenant t) rows\<rparr>\<rparr>)
      | _ \<Rightarrow> Inl ErrDriver)"

record report =
  rp_publishers :: nat
  rp_tenants :: nat
  rp_users :: nat
  rp_memberships :: nat
  rp_apps :: nat
  rp_versions :: nat
  rp_texts :: nat
  rp_externals :: nat
  rp_events :: nat
  rp_skipped :: "string list"

definition empty_report :: report where
  "empty_report =
     \<lparr>rp_publishers = 0, rp_tenants = 0, rp_users = 0, rp_memberships = 0, rp_apps = 0,
      rp_versions = 0, rp_texts = 0, rp_externals = 0, rp_events = 0, rp_skipped = []\<rparr>"

definition tally :: "bool \<Rightarrow> nat" where
  "tally made = (if made then 1 else 0)"

definition import_publisher :: "env \<Rightarrow> core_schema \<Rightarrow> import_publisher \<Rightarrow> report \<Rightarrow> report imp" where
  "import_publisher E C p r =
     andthen
       (wrapped (''publisher '' @ ip_slug p) (ensure_tenant E C (ip_slug p) (ip_owner_slug p) (ip_name p)))
       (\<lambda>(tenant_id, made). let r = r\<lparr>rp_tenants := rp_tenants r + tally made\<rparr> in
         andthen
           (if ip_owner_email p \<noteq> []
            then andthen
                (wrapped (''publisher '' @ ip_slug p @ '' owner'')
                   (ensure_user E C (ip_owner_email p) (ip_name p)))
                (\<lambda>(user_id, made_user). let r = r\<lparr>rp_users := rp_users r + tally made_user\<rparr> in
                  andthen
                    (wrapped (''publisher '' @ ip_slug p @ '' membership'')
                       (ensure_admin_membership E tenant_id user_id))
                    (\<lambda>made. ok (r\<lparr>rp_memberships := rp_memberships r + tally made\<rparr>)))
            else ok (r\<lparr>rp_skipped := rp_skipped r @
                   [''publisher '' @ quoted (ip_slug p) @ '' has no owner e-mail; it arrives with no member'']\<rparr>))
           (\<lambda>r. andthen
              (wrapped (''write publisher '' @ ip_slug p) (tx_call (write_publisher_stmt E p tenant_id)))
              (\<lambda>_. ok (r\<lparr>rp_publishers := rp_publishers r + 1\<rparr>))))"

fun import_publishers ::
  "env \<Rightarrow> core_schema \<Rightarrow> import_publisher list \<Rightarrow> report \<Rightarrow> report imp" where
  "import_publishers E C [] r = ok r"
| "import_publishers E C (p # ps) r = andthen (import_publisher E C p r) (import_publishers E C ps)"

section \<open>The straight copies\<close>

text \<open>
  \<^verbatim>\<open>copyRows\<close> with the query's rows, the number of its columns, the statement that writes a row and
  the number of its arguments. A row that is already there is counted like one that is written.
\<close>

definition copy_rows ::
  "'r list \<Rightarrow> nat \<Rightarrow> ('r \<Rightarrow> time \<Rightarrow> uuid \<Rightarrow> target \<Rightarrow> err + unit \<times> target) \<Rightarrow> nat \<Rightarrow> nat imp" where
  "copy_rows rows columns write wanted =
     andthen (source_call rows)
       (\<lambda>rows. andthen
          (for_each (\<lambda>r. if columns \<noteq> wanted
              then fail (ErrMsg (''expected '' @ decimal (int wanted) @ '' columns, got '' @ decimal (int columns)))
              else tx_call (write r)) rows)
          (\<lambda>written. andthen (source_call ()) (\<lambda>_. ok (length written))))"

definition copy_app_stmt :: "env \<Rightarrow> source_app \<Rightarrow> time \<Rightarrow> uuid \<Rightarrow> target \<Rightarrow> err + unit \<times> target" where
  "copy_app_stmt E r t n d =
     (case pg_uuid E (pg_uuid_text E (sa_publisher r)) of
        None \<Rightarrow> Inl ErrDriver
      | Some publisher \<Rightarrow>
          let rows = t_apps (tg_store d) in
          if list_ex (\<lambda>a. app_id a = sa_id r) rows then Inr ((), d)
          else if list_ex (\<lambda>a. app_slug a = sa_slug r) rows then Inl ErrUnique
          else Inr ((), d\<lparr>tg_store := (tg_store d)\<lparr>t_apps := rows @
            [(pg_app_defaults E)\<lparr>app_id := sa_id r, app_publisher := publisher, app_slug := sa_slug r,
               app_type := sa_type r, app_name := sa_name r, app_description := sa_description r,
               app_icon_url := sa_icon_url r, app_category := sa_category r,
               app_visibility := sa_visibility r, app_created_at := sa_created_at r,
               app_updated_at := sa_updated_at r\<rparr>]\<rparr>\<rparr>))"

definition copied_version :: "env \<Rightarrow> source_version \<Rightarrow> uuid \<Rightarrow> version_row" where
  "copied_version E r u =
     (pg_version_defaults E)\<lparr>ver_id := u, ver_app := sv_app r, ver_version := sv_version r,
       ver_channel := sv_channel r, ver_min_platform := sv_min_platform r, ver_manifest := sv_manifest r,
       ver_status := sv_status r, ver_submitted_by := sv_submitted_by r, ver_note := sv_note r,
       ver_published_at := sv_published_at r, ver_created_at := sv_created_at r\<rparr>"

definition copy_version_stmt :: "env \<Rightarrow> source_version \<Rightarrow> time \<Rightarrow> uuid \<Rightarrow> target \<Rightarrow> err + unit \<times> target" where
  "copy_version_stmt E r t n d =
     (case pg_uuid E (pg_uuid_text E (sv_id r)) of
        None \<Rightarrow> Inl ErrDriver
      | Some u \<Rightarrow>
          let rows = t_versions (tg_store d) in
          if list_ex (\<lambda>v. ver_id v = u) rows then Inr ((), d)
          else if list_ex (\<lambda>v. pg_version_clash E (ver_app v, ver_version v, ver_channel v)
                 (sv_app r, sv_version r, sv_channel r)) rows
          then Inl ErrUnique
          else Inr ((), d\<lparr>tg_store := (tg_store d)\<lparr>t_versions := rows @ [copied_version E r u]\<rparr>\<rparr>))"

definition copy_text_stmt :: "text_row \<Rightarrow> time \<Rightarrow> uuid \<Rightarrow> target \<Rightarrow> err + unit \<times> target" where
  "copy_text_stmt r t n d =
     (let rows = t_texts (tg_store d) in
      Inr ((), if list_ex (\<lambda>x. tx_app x = tx_app r \<and> tx_locale x = tx_locale r) rows then d
               else d\<lparr>tg_store := (tg_store d)\<lparr>t_texts := rows @ [r]\<rparr>\<rparr>))"

definition copy_external_stmt :: "external_row \<Rightarrow> time \<Rightarrow> uuid \<Rightarrow> target \<Rightarrow> err + unit \<times> target" where
  "copy_external_stmt r t n d =
     (let rows = t_externals (tg_store d) in
      Inr ((), if list_ex (\<lambda>x. ex_app x = ex_app r) rows then d
               else d\<lparr>tg_store := (tg_store d)\<lparr>t_externals := rows @ [r]\<rparr>\<rparr>))"

definition copy_event_stmt :: "env \<Rightarrow> source_event \<Rightarrow> time \<Rightarrow> uuid \<Rightarrow> target \<Rightarrow> err + unit \<times> target" where
  "copy_event_stmt E r t n d =
     (case (pg_uuid E (pg_uuid_text E (se_id r)), pg_uuid E (pg_uuid_text E (se_version r))) of
        (Some u, Some v) \<Rightarrow>
          Inr ((), if u \<in> set (tg_event_ids d) then d
            else d\<lparr>tg_event_ids := tg_event_ids d @ [u],
                   tg_store := (tg_store d)\<lparr>t_events := t_events (tg_store d) @
                     [\<lparr>ev_version = v, ev_actor_id = None, ev_actor = se_actor r, ev_action = se_action r,
                       ev_note = se_note r, ev_created_at = se_created_at r\<rparr>]\<rparr>\<rparr>)
      | _ \<Rightarrow> Inl ErrDriver)"

definition copy_tables :: "env \<Rightarrow> source \<Rightarrow> report \<Rightarrow> report imp" where
  "copy_tables E src r =
     andthen (wrapped ''copy apps''
         (copy_rows (sort_key sa_created_at (so_apps src)) 11 (copy_app_stmt E) 11))
       (\<lambda>apps. andthen (wrapped ''copy versions''
           (copy_rows (sort_key sv_created_at (so_versions src)) 11 (copy_version_stmt E) 11))
         (\<lambda>versions. andthen (wrapped ''copy translations''
             (copy_rows (so_texts src) 5 copy_text_stmt 5))
           (\<lambda>texts. andthen (wrapped ''copy external registrations''
               (copy_rows (so_externals src) 7 copy_external_stmt 7))
             (\<lambda>externals. andthen (wrapped ''copy review trail''
                 (copy_rows (sort_key se_created_at (so_events src)) 6 (copy_event_stmt E) 6))
               (\<lambda>events. ok (r\<lparr>rp_apps := apps, rp_versions := versions, rp_texts := texts,
                               rp_externals := externals, rp_events := events\<rparr>))))))"

section \<open>The whole import\<close>

definition bump_target_stmt :: "time \<Rightarrow> uuid \<Rightarrow> target \<Rightarrow> err + unit \<times> target" where
  "bump_target_stmt t n d =
     Inr ((), d\<lparr>tg_store := (tg_store d)\<lparr>t_revision := map_option (\<lambda>r. r + 1) (t_revision (tg_store d))\<rparr>\<rparr>)"

definition import_body :: "env \<Rightarrow> core_schema \<Rightarrow> source \<Rightarrow> report imp" where
  "import_body E C src =
     andthen (wrapped ''read publishers'' (source_call (source_publishers E src)))
       (\<lambda>ps. andthen (wrapped ''read publishers'' (source_call ()))
         (\<lambda>_. andthen (import_publishers E C ps empty_report)
           (\<lambda>r. andthen (copy_tables E src r)
             (\<lambda>r. andthen (wrapped ''bump the revision'' (tx_call bump_target_stmt)) (\<lambda>_. ok r)))))"

text \<open>
  The deferred rollback undoes everything unless the commit went through; a transaction in which a
  statement has failed cannot be committed.
\<close>

definition import_run :: "env \<Rightarrow> core_schema \<Rightarrow> source \<Rightarrow> bool \<Rightarrow> report imp" where
  "import_run E C src dry_run w =
     (if call_fails w then (Inl (ErrMsg ''begin''), called w)
      else case import_body E C src ((called w)\<lparr>im_broken := False\<rparr>) of
          (Inl e, w') \<Rightarrow> (Inl e, w'\<lparr>im_target := im_target w\<rparr>)
        | (Inr r, w') \<Rightarrow>
            if dry_run then (Inr r, w'\<lparr>im_target := im_target w\<rparr>)
            else if im_broken w' \<or> call_fails w'
            then (Inl (ErrMsg ''commit''), (called w')\<lparr>im_target := im_target w\<rparr>)
            else (Inr r, called w'))"

section \<open>What is printed\<close>

definition newline :: string where
  "newline = [CHR 0x0A]"

definition pad4 :: "nat \<Rightarrow> string" where
  "pad4 n = (let s = decimal (int n) in replicate (4 - length s) (CHR '' '') @ s)"

definition print_report :: "report \<Rightarrow> bool \<Rightarrow> string" where
  "print_report r dry_run =
     newline @ (if dry_run then ''would import'' else ''imported'') @ '':'' @ newline
     @ ''  publishers   '' @ pad4 (rp_publishers r) @ ''  (tenants '' @ decimal (int (rp_tenants r))
       @ '', users '' @ decimal (int (rp_users r))
       @ '', memberships '' @ decimal (int (rp_memberships r)) @ '')'' @ newline
     @ ''  apps         '' @ pad4 (rp_apps r) @ newline
     @ ''  versions     '' @ pad4 (rp_versions r) @ newline
     @ ''  translations '' @ pad4 (rp_texts r) @ newline
     @ ''  external     '' @ pad4 (rp_externals r) @ newline
     @ ''  review trail '' @ pad4 (rp_events r) @ newline
     @ concat (map (\<lambda>s. ''  '' @ [CHR 0xC2, CHR 0xB7] @ '' '' @ s @ newline) (rp_skipped r))
     @ (if dry_run then newline @ ''Nothing was written.'' @ newline else [])"

text \<open>
  \<^verbatim>\<open>main\<close>: the flags, the two pools (whose creation may fail), the run and its report, as the exit
  status, the standard output and the world.
\<close>

definition import_main ::
  "env \<Rightarrow> core_schema \<Rightarrow> source \<Rightarrow> string \<Rightarrow> string \<Rightarrow> bool \<Rightarrow> importing \<Rightarrow> (nat \<times> string) \<times> importing" where
  "import_main E C src from_url to_url dry_run w =
     (if trim_space from_url = [] \<or> trim_space to_url = [] then ((1, []), w)
      else case andthen (wrapped ''connect to the source'' (source_call ()))
          (\<lambda>_. wrapped ''connect to the target'' (source_call ())) w of
        (Inl e, w') \<Rightarrow> ((1, []), w')
      | (Inr _, w') \<Rightarrow>
          let out = (if dry_run
                then ''DRY RUN '' @ [CHR 0xE2, CHR 0x80, CHR 0x94]
                  @ '' nothing will be written. Pass -dry-run=false to apply.'' @ newline
                else [])
          in case import_run E C src dry_run w' of
              (Inl e, w'') \<Rightarrow> ((1, out), w'')
            | (Inr r, w'') \<Rightarrow> ((0, out @ print_report r dry_run), w''))"

end
