(* ===== verification/ImportPublishers.thy ===== *)
theory ImportPublishers
  imports Import
begin

text \<open>
  The first part of the import: what a run can add to the people and publishers of the platform
  (\<open>grows_by\<close>, kept by every call through the locale \<open>import_relation\<close>), and where a publisher
  arrives (\<open>placed\<close>): its row, its tenant, and the person who acts for it.
\<close>

section \<open>Calls that go through\<close>

lemma tx_callD:
  "tx_call q w = (Inr x, w') \<Longrightarrow>
    (\<exists>d. q (im_now w) (im_next w) (im_target w) = Inr (x, d) \<and> im_target w' = d)
    \<and> \<not> im_broken w \<and> \<not> im_broken w' \<and> im_now w' = im_now w \<and> im_next w' = Suc (im_next w)"
  by (auto simp: tx_call_def called_def split: if_splits sum.splits)

lemma tx_call_error: "tx_call q w = (Inl e, w') \<Longrightarrow> im_broken w' \<and> im_target w' = im_target w"
  by (auto simp: tx_call_def called_def split: if_splits sum.splits)

lemma tx_call_broken: "im_broken w \<Longrightarrow> \<exists>e w'. tx_call q w = (Inl e, w')"
  by (simp add: tx_call_def)

lemma source_callD:
  "source_call x w = (Inr y, w') \<Longrightarrow> y = x \<and> im_target w' = im_target w"
  by (auto simp: source_call_def called_def split: if_splits)

lemma wrappedD: "wrapped what m w = (Inr x, w') \<Longrightarrow> m w = (Inr x, w')"
  by (auto simp: wrapped_def attempt_def split: prod.splits sum.splits)

section \<open>Relations along a run\<close>

text \<open>What every call keeps or moves forward, every composition of calls does.\<close>

definition leads :: "(importing \<Rightarrow> importing \<Rightarrow> bool) \<Rightarrow> 'a imp \<Rightarrow> bool" where
  "leads R m \<longleftrightarrow> (\<forall>w. R w (snd (m w)))"

lemma leadsD: "leads R m \<Longrightarrow> m w = (r, w') \<Longrightarrow> R w w'"
  unfolding leads_def by (metis snd_conv)

locale import_relation =
  fixes R :: "importing \<Rightarrow> importing \<Rightarrow> bool"
  assumes R_refl: "R w w" and R_trans: "R w1 w2 \<Longrightarrow> R w2 w3 \<Longrightarrow> R w1 w3"
    and R_called: "R w (called w)" and R_broken: "R w (w\<lparr>im_broken := b\<rparr>)"
begin

lemma leads_return: "leads R (ok x)" "leads R (fail e)"
  by (simp_all add: leads_def R_refl)

lemma leads_andthen: "leads R m \<Longrightarrow> (\<And>x. leads R (k x)) \<Longrightarrow> leads R (andthen m k)"
  unfolding leads_def andthen_def
  by (auto split: prod.splits sum.splits intro: R_refl) (metis R_trans snd_conv)+

lemma leads_attempt: "leads R m \<Longrightarrow> (\<And>r. leads R (k r)) \<Longrightarrow> leads R (attempt m k)"
  unfolding leads_def attempt_def by (auto split: prod.splits) (metis R_trans snd_conv)

lemma leads_if: "leads R m \<Longrightarrow> leads R m' \<Longrightarrow> leads R (if b then m else m')"
  by simp

lemma leads_sum: "(\<And>e. leads R (f e)) \<Longrightarrow> (\<And>y. leads R (g y)) \<Longrightarrow>
   leads R (case x of Inl e \<Rightarrow> f e | Inr y \<Rightarrow> g y)"
  by (cases x) simp_all

lemma leads_option: "leads R m \<Longrightarrow> (\<And>y. leads R (f y)) \<Longrightarrow>
   leads R (case x of None \<Rightarrow> m | Some y \<Rightarrow> f y)"
  by (cases x) simp_all

lemma leads_prod: "(\<And>a b. leads R (f a b)) \<Longrightarrow> leads R (case x of (a, b) \<Rightarrow> f a b)"
  by (cases x) simp

lemma leads_wrapped: "leads R m \<Longrightarrow> leads R (wrapped what m)"
  unfolding wrapped_def by (intro leads_attempt leads_sum leads_return)

lemma leads_for_each: "(\<And>x. x \<in> set xs \<Longrightarrow> leads R (f x)) \<Longrightarrow> leads R (for_each f xs)"
  by (induction xs) (auto intro!: leads_andthen leads_return)

lemma leads_source: "leads R (source_call x)"
  by (simp add: leads_def source_call_def R_called)

lemma leads_tx:
  assumes "\<And>w x d. \<not> im_broken w \<Longrightarrow> q (im_now w) (im_next w) (im_target w) = Inr (x, d) \<Longrightarrow>
      R w ((called w)\<lparr>im_target := d\<rparr>)"
  shows "leads R (tx_call q)"
  unfolding leads_def tx_call_def
  using assms by (auto split: sum.split intro: R_trans [OF R_called R_broken])

lemmas leads_rules = leads_return leads_andthen leads_attempt leads_if leads_sum leads_option leads_prod
  leads_wrapped leads_for_each leads_source

text \<open>The whole body leads where its statements lead.\<close>

lemma leads_publisher:
  assumes "\<And>slug. leads R (tenant_by_slug slug)" and "\<And>n s. leads R (tx_call (insert_tenant_stmt C n s))"
    and "\<And>e. leads R (user_by_email C e)" and "\<And>e n. leads R (tx_call (insert_user_stmt e n))"
    and "\<And>t u. leads R (tx_call (membership_stmt E t u))" and "\<And>m t. leads R (tx_call (grant_admin_stmt E m t))"
    and "\<And>t. leads R (tx_call (write_publisher_stmt E p t))"
  shows "leads R (import_publisher E C p r)"
  unfolding import_publisher_def ensure_tenant_def ensure_user_def ensure_admin_membership_def Let_def
  by (intro leads_rules assms)

lemma leads_publishers:
  "(\<And>p r. p \<in> set ps \<Longrightarrow> leads R (import_publisher E C p r)) \<Longrightarrow> leads R (import_publishers E C ps r)"
  by (induction ps arbitrary: r) (auto intro!: leads_andthen leads_return)

lemma leads_copy_rows:
  assumes "\<And>r. r \<in> set rows \<Longrightarrow> leads R (tx_call (write r))"
  shows "leads R (copy_rows rows c write f)"
proof -
  have "leads R (andthen (for_each (\<lambda>r. if b then fail e else tx_call (write r)) rows)
      (\<lambda>us. andthen (source_call ()) (\<lambda>_. ok (length us))))" for b e
    by (intro leads_rules assms)
  then show ?thesis
    unfolding copy_rows_def leads_def
    by (auto simp: andthen_apply source_call_def intro: R_called R_trans [OF R_called])
qed

lemma leads_tables:
  assumes "\<And>r. leads R (tx_call (copy_app_stmt E r))"
    and "\<And>r. r \<in> set (so_versions src) \<Longrightarrow> leads R (tx_call (copy_version_stmt E r))"
    and "\<And>r. leads R (tx_call (copy_text_stmt r))" and "\<And>r. leads R (tx_call (copy_external_stmt r))"
    and "\<And>r. leads R (tx_call (copy_event_stmt E r))"
  shows "leads R (copy_tables E src r)"
  unfolding copy_tables_def by (intro leads_rules leads_copy_rows assms) simp

end

section \<open>What an import adds to\<close>

text \<open>
  The roles a tenant comes with are its own; and what the tool writes an address as, in lower case,
  PostgreSQL's \<^verbatim>\<open>lower\<close> leaves alone.
\<close>

definition core_laws :: "env \<Rightarrow> core_schema \<Rightarrow> bool" where
  "core_laws E C \<longleftrightarrow> (\<forall>u. \<forall>r\<in>set (cs_tenant_roles C u). ro_tenant r = u)
     \<and> (\<forall>s. cs_lower C (to_lower E s) = to_lower E s)"

definition sane :: "importing \<Rightarrow> bool" where
  "sane w \<longleftrightarrow> (\<forall>r\<in>set (tg_tenants (im_target w)). tn_id r < im_next w)
     \<and> distinct (map pub_id (t_publishers (tg_store (im_target w))))"

definition publisher_with :: "uuid \<Rightarrow> target \<Rightarrow> publisher_row option" where
  "publisher_with u d = find (\<lambda>r. pub_id r = u) (t_publishers (tg_store d))"

text \<open>People are only added, and of the publishers only those with an id in \<open>X\<close> change.\<close>

definition grown :: "uuid set \<Rightarrow> target \<Rightarrow> target \<Rightarrow> bool" where
  "grown X d d' \<longleftrightarrow> (\<exists>a. tg_tenants d' = tg_tenants d @ a) \<and> (\<exists>a. tg_users d' = tg_users d @ a)
     \<and> (\<exists>a. tg_memberships d' = tg_memberships d @ a)
     \<and> set (tg_membership_roles d) \<subseteq> set (tg_membership_roles d')
     \<and> (\<forall>r\<in>set (tg_tenants d). admin_roles (tn_id r) d' = admin_roles (tn_id r) d)
     \<and> (\<forall>u. u \<notin> X \<longrightarrow> publisher_with u d' = publisher_with u d)"

lemma grown_refl: "grown X d d"
  by (simp add: grown_def)

lemma grown_trans: "grown X d1 d2 \<Longrightarrow> grown X d2 d3 \<Longrightarrow> grown X d1 d3"
  by (fastforce simp: grown_def)

definition grows_by :: "uuid set \<Rightarrow> importing \<Rightarrow> importing \<Rightarrow> bool" where
  "grows_by X w w' \<longleftrightarrow> (sane w \<longrightarrow> sane w' \<and> grown X (im_target w) (im_target w'))"

interpretation growth: import_relation "grows_by X" for X
proof unfold_locales
  show "grows_by X w w" for w by (simp add: grows_by_def grown_refl)
  show "grows_by X w1 w3" if "grows_by X w1 w2" and "grows_by X w2 w3" for w1 w2 w3
    using that grown_trans by (auto simp: grows_by_def)
qed (auto simp: grows_by_def grown_refl called_def sane_def)

lemma grows_people:
  assumes "core_laws E C"
  shows "leads (grows_by X) (tenant_by_slug slug)"
    and "leads (grows_by X) (tx_call (insert_tenant_stmt C name slug))"
    and "leads (grows_by X) (user_by_email C email)"
    and "leads (grows_by X) (tx_call (insert_user_stmt email name))"
    and "leads (grows_by X) (tx_call (membership_stmt E t u))"
    and "leads (grows_by X) (tx_call (grant_admin_stmt E m t))"
proof -
  show "leads (grows_by X) (tx_call (insert_tenant_stmt C name slug))"
  proof (rule growth.leads_tx)
    fix w :: importing and x d
    assume "insert_tenant_stmt C name slug (im_now w) (im_next w) (im_target w) = Inr (x, d)"
    then show "grows_by X w ((called w)\<lparr>im_target := d\<rparr>)"
      using assms
      by (fastforce simp: insert_tenant_stmt_def grows_by_def sane_def grown_def called_def core_laws_def
          admin_roles_def publisher_with_def filter_empty_conv)
  qed
qed ((unfold tenant_by_slug_def user_by_email_def)?, rule growth.leads_tx,
    auto simp: grows_by_def sane_def grown_def called_def admin_roles_def publisher_with_def insert_user_stmt_def
      membership_stmt_def grant_admin_stmt_def Let_def less_Suc_eq split: option.splits)+

lemma grows_write_publisher:
  assumes "pg_uuid E (ip_id p) = Some u" and "u \<in> X"
  shows "leads (grows_by X) (tx_call (write_publisher_stmt E p t))"
proof (rule growth.leads_tx)
  fix w :: importing and x d
  assume q: "write_publisher_stmt E p t (im_now w) (im_next w) (im_target w) = Inr (x, d)"
  let ?rows = "t_publishers (tg_store (im_target w))"
  from q assms(1) obtain tenant where d: "d = (im_target w)\<lparr>tg_store := (tg_store (im_target w))\<lparr>t_publishers :=
      upsert (\<lambda>r. pub_id r = u) (imported_publisher p tenant (im_now w)
          ((pg_publisher_defaults E)\<lparr>pub_id := u, pub_created_at := im_now w\<rparr>))
        (imported_publisher p tenant (im_now w)) ?rows\<rparr>\<rparr>"
    by (auto simp: write_publisher_stmt_def Let_def split: option.splits if_splits)
  have "publisher_with v d = publisher_with v (im_target w)" if "v \<notin> X" for v
    unfolding publisher_with_def d using that assms(2)
    by (simp, intro find_upsert_other) (auto simp: imported_publisher_def)
  moreover have "distinct (map pub_id ?rows) \<Longrightarrow> distinct (map pub_id (t_publishers (tg_store d)))"
    unfolding d by simp (erule distinct_key_upsert, auto simp: imported_publisher_def)
  ultimately show "grows_by X w ((called w)\<lparr>im_target := d\<rparr>)"
    by (auto simp: d grows_by_def sane_def grown_def called_def admin_roles_def)
qed

lemma grows_publisher:
  "core_laws E C \<Longrightarrow> pg_uuid E (ip_id p) = Some u \<Longrightarrow> u \<in> X \<Longrightarrow> leads (grows_by X) (import_publisher E C p r)"
  by (intro growth.leads_publisher grows_people grows_write_publisher)

lemma grows_publishers:
  "core_laws E C \<Longrightarrow> (\<And>p. p \<in> set ps \<Longrightarrow> \<exists>u\<in>X. pg_uuid E (ip_id p) = Some u) \<Longrightarrow>
   leads (grows_by X) (import_publishers E C ps r)"
  by (intro growth.leads_publishers) (metis grows_publisher)

section \<open>Where a publisher arrives\<close>

definition slug_of :: "import_publisher \<Rightarrow> string" where
  "slug_of p = (if ip_slug p = [] then ip_owner_slug p else ip_slug p)"

definition tenant_with :: "string \<Rightarrow> target \<Rightarrow> tenant_row option" where
  "tenant_with slug d = find (\<lambda>r. tn_slug r = slug) (tg_tenants d)"

text \<open>The person with an address is a member of a tenant, with every admin role the tenant has.\<close>

definition acts_for :: "env \<Rightarrow> core_schema \<Rightarrow> string \<Rightarrow> uuid \<Rightarrow> target \<Rightarrow> bool" where
  "acts_for E C email tenant d \<longleftrightarrow>
     (\<exists>us mb. find (\<lambda>r. cs_lower C (us_email r) = to_lower E (trim_space email)) (tg_users d) = Some us
       \<and> find (\<lambda>r. mb_tenant r = tenant \<and> mb_user r = us_id us) (tg_memberships d) = Some mb
       \<and> (\<forall>ro\<in>set (admin_roles tenant d). (mb_id mb, ro) \<in> set (tg_membership_roles d)))"

definition placed :: "env \<Rightarrow> core_schema \<Rightarrow> import_publisher \<Rightarrow> target \<Rightarrow> bool" where
  "placed E C p d \<longleftrightarrow>
     (\<exists>tn row u. tenant_with (slug_of p) d = Some tn \<and> pg_uuid E (ip_id p) = Some u
       \<and> publisher_with u d = Some row \<and> pub_tenant row = tn_id tn \<and> pub_slug row = ip_slug p
       \<and> pub_name row = ip_name p \<and> pub_email row = ip_email p \<and> pub_verified row = ip_verified p
       \<and> (ip_owner_email p \<noteq> [] \<longrightarrow> acts_for E C (ip_owner_email p) (tn_id tn) d))"

lemma find_grown: "\<exists>a. t' = t @ a \<Longrightarrow> find P t = Some x \<Longrightarrow> find P t' = Some x"
  by (auto simp: find_append)

lemma acts_for_grown:
  assumes "grown X d d'" and "tn \<in> set (tg_tenants d)" and "acts_for E C email (tn_id tn) d"
  shows "acts_for E C email (tn_id tn) d'"
proof -
  from assms(3) obtain us mb where
    us: "find (\<lambda>r. cs_lower C (us_email r) = to_lower E (trim_space email)) (tg_users d) = Some us"
    and mb: "find (\<lambda>r. mb_tenant r = tn_id tn \<and> mb_user r = us_id us) (tg_memberships d) = Some mb"
    and ro: "\<forall>ro\<in>set (admin_roles (tn_id tn) d). (mb_id mb, ro) \<in> set (tg_membership_roles d)"
    unfolding acts_for_def by blast
  from assms(1) have "\<exists>a. tg_users d' = tg_users d @ a" and "\<exists>a. tg_memberships d' = tg_memberships d @ a"
    and r: "set (tg_membership_roles d) \<subseteq> set (tg_membership_roles d')"
      "admin_roles (tn_id tn) d' = admin_roles (tn_id tn) d"
    using assms(2) by (simp_all add: grown_def)
  from find_grown [OF this(1) us] find_grown [OF this(2) mb] ro r show ?thesis
    unfolding acts_for_def by auto
qed

lemma tenant_with_grown: "grown X d d' \<Longrightarrow> tenant_with slug d = Some tn \<Longrightarrow> tenant_with slug d' = Some tn"
  unfolding tenant_with_def grown_def by (metis find_grown)

lemma tenant_withD: "tenant_with slug d = Some tn \<Longrightarrow> tn \<in> set (tg_tenants d) \<and> tn_slug tn = slug"
  unfolding tenant_with_def by (drule find_SomeD)

lemma placed_grown:
  assumes "grown X d d'" and "placed E C p d" and "\<And>u. pg_uuid E (ip_id p) = Some u \<Longrightarrow> u \<notin> X"
  shows "placed E C p d'"
proof -
  from assms(2) obtain tn row u where p: "tenant_with (slug_of p) d = Some tn" "pg_uuid E (ip_id p) = Some u"
      "publisher_with u d = Some row"
    and r: "pub_tenant row = tn_id tn" "pub_slug row = ip_slug p" "pub_name row = ip_name p"
      "pub_email row = ip_email p" "pub_verified row = ip_verified p"
    and a: "ip_owner_email p \<noteq> [] \<longrightarrow> acts_for E C (ip_owner_email p) (tn_id tn) d"
    unfolding placed_def by blast
  have "publisher_with u d' = Some row" using assms(1) p(3) assms(3) [OF p(2)] by (simp add: grown_def)
  moreover note tenant_with_grown [OF assms(1) p(1)]
  moreover have "ip_owner_email p \<noteq> [] \<longrightarrow> acts_for E C (ip_owner_email p) (tn_id tn) d'"
    using a acts_for_grown [OF assms(1)] tenant_withD [OF p(1)] by blast
  ultimately show ?thesis unfolding placed_def using p(2) r by blast
qed

text \<open>A look-up that found nothing, or failed, is followed by an insertion; after a failure that fails too.\<close>

lemma look_then_insert:
  assumes "attempt (tx_call (\<lambda>t n d. Inr (f d, d)))
      (\<lambda>res. case res of Inr (Some u) \<Rightarrow> ok (g u, False)
         | _ \<Rightarrow> andthen (wrapped what (tx_call q)) (\<lambda>u. ok (g u, True))) w = (Inr (tid, made), w')"
  obtains (found) u where "f (im_target w) = Some u" "tid = g u" "\<not> made" "im_target w' = im_target w"
  | (inserted) u w1 where "f (im_target w) = None" "tid = g u" "made" "im_target w1 = im_target w"
      "tx_call q w1 = (Inr u, w')" "im_next w \<le> im_next w1"
proof -
  obtain res w1 where l: "tx_call (\<lambda>t n d. Inr (f d, d)) w = (res, w1)" by fastforce
  show thesis
  proof (cases res)
    case (Inl e)
    with tx_call_error l have "im_broken w1" by blast
    with tx_call_broken [of w1 q] assms l Inl show ?thesis
      by (auto simp: attempt_def wrapped_def andthen_apply)
  next
    case (Inr held)
    with tx_callD [of "\<lambda>t n d. Inr (f d, d)" w held w1] l
    have o: "held = f (im_target w)" "im_target w1 = im_target w" "im_next w \<le> im_next w1" by auto
    show ?thesis
    proof (cases held)
      case None
      with assms l Inr have "andthen (wrapped what (tx_call q)) (\<lambda>u. ok (g u, True)) w1 = (Inr (tid, made), w')"
        by (simp add: attempt_def)
      then obtain u w2 where "wrapped what (tx_call q) w1 = (Inr u, w2)" "tid = g u" "made" "w' = w2"
        by (auto elim!: andthen_Inr_E)
      with o None show ?thesis by (intro inserted) (auto dest: wrappedD)
    next
      case (Some u)
      with assms l Inr have "ok (g u, False) w1 = (Inr (tid, made), w')" by (simp add: attempt_def)
      with o Some show ?thesis by (intro found [of u]) auto
    qed
  qed
qed

lemma ensure_tenant_ok:
  assumes "ensure_tenant E C slug owner_slug name w = (Inr (tid, made), w')"
  shows "\<exists>tn. tenant_with (if slug = [] then owner_slug else slug) (im_target w') = Some tn
    \<and> tid = pg_uuid_text E (tn_id tn)
    \<and> made = (tenant_with (if slug = [] then owner_slug else slug) (im_target w) = None)
    \<and> (\<not> made \<longrightarrow> im_target w' = im_target w)"
  using assms [unfolded ensure_tenant_def Let_def tenant_by_slug_def]
proof (cases rule: look_then_insert)
  case (found u)
  then show ?thesis by (auto simp: tenant_with_def)
next
  case (inserted u w1)
  from tx_callD [OF inserted(5)] inserted show ?thesis
    by (auto simp: tenant_with_def insert_tenant_stmt_def find_append)
qed

lemma ensure_user_ok:
  assumes "core_laws E C" and "ensure_user E C email name w = (Inr (uid, made), w')"
  shows "\<exists>us. find (\<lambda>r. cs_lower C (us_email r) = to_lower E (trim_space email)) (tg_users (im_target w')) = Some us
    \<and> uid = pg_uuid_text E (us_id us) \<and> tg_tenants (im_target w') = tg_tenants (im_target w)
    \<and> (find (\<lambda>r. cs_lower C (us_email r) = to_lower E (trim_space email)) (tg_users (im_target w)) \<noteq> None \<longrightarrow>
         \<not> made \<and> im_target w' = im_target w)"
  using assms(2) [unfolded ensure_user_def Let_def user_by_email_def]
proof (cases rule: look_then_insert)
  case (found u)
  then show ?thesis by auto
next
  case (inserted u w1)
  from tx_callD [OF inserted(5)] inserted assms(1) show ?thesis
    by (auto simp: insert_user_stmt_def find_append core_laws_def)
qed

lemma ensure_admin_ok:
  assumes "uuid_codec E"
    and "ensure_admin_membership E (pg_uuid_text E t) (pg_uuid_text E u) w = (Inr made, w')"
  shows "\<exists>mb. find (\<lambda>r. mb_tenant r = t \<and> mb_user r = u) (tg_memberships (im_target w')) = Some mb
    \<and> (\<forall>ro\<in>set (admin_roles t (im_target w')). (mb_id mb, ro) \<in> set (tg_membership_roles (im_target w')))
    \<and> tg_tenants (im_target w') = tg_tenants (im_target w) \<and> tg_users (im_target w') = tg_users (im_target w)
    \<and> (\<forall>mb0. find (\<lambda>r. mb_tenant r = t \<and> mb_user r = u) (tg_memberships (im_target w)) = Some mb0 \<longrightarrow>
       (\<forall>ro\<in>set (admin_roles t (im_target w)). (mb_id mb0, ro) \<in> set (tg_membership_roles (im_target w))) \<longrightarrow>
         \<not> made \<and> im_target w' = im_target w)"
proof -
  from assms(2) obtain m w1 rows where
    1: "tx_call (membership_stmt E (pg_uuid_text E t) (pg_uuid_text E u)) w = (Inr m, w1)"
    and 2: "tx_call (grant_admin_stmt E m (pg_uuid_text E t)) w1 = (Inr rows, w')" and made: "made = (0 < rows)"
    unfolding ensure_admin_membership_def by (auto elim!: andthen_Inr_E dest!: wrappedD)
  have eq: "(m, im_target w1) = (case find (\<lambda>r. mb_tenant r = t \<and> mb_user r = u) (tg_memberships (im_target w)) of
      Some r \<Rightarrow> (pg_uuid_text E (mb_id r), im_target w)
    | None \<Rightarrow> (pg_uuid_text E (im_next w), (im_target w)\<lparr>tg_memberships := tg_memberships (im_target w) @
        [\<lparr>mb_id = im_next w, mb_tenant = t, mb_user = u\<rparr>]\<rparr>))"
    using tx_callD [OF 1] uuid_codecD(1) [OF assms(1)] by (auto simp: membership_stmt_def)
  obtain mb where
    mb: "find (\<lambda>r. mb_tenant r = t \<and> mb_user r = u) (tg_memberships (im_target w1)) = Some mb" "m = pg_uuid_text E (mb_id mb)"
    and w1: "tg_tenants (im_target w1) = tg_tenants (im_target w)" "tg_users (im_target w1) = tg_users (im_target w)"
      "tg_membership_roles (im_target w1) = tg_membership_roles (im_target w)"
      "admin_roles t (im_target w1) = admin_roles t (im_target w)"
    and same: "\<And>mb0. find (\<lambda>r. mb_tenant r = t \<and> mb_user r = u) (tg_memberships (im_target w)) = Some mb0 \<Longrightarrow>
      mb0 = mb \<and> im_target w1 = im_target w"
  proof (cases "find (\<lambda>r. mb_tenant r = t \<and> mb_user r = u) (tg_memberships (im_target w))")
    case None
    with eq show ?thesis
      by (intro that [of "\<lparr>mb_id = im_next w, mb_tenant = t, mb_user = u\<rparr>"]) (simp_all add: find_append admin_roles_def)
  next
    case (Some r)
    with eq show ?thesis by (intro that [of r]) simp_all
  qed
  let ?new = "filter (\<lambda>x. x \<notin> set (tg_membership_roles (im_target w1))) (map (Pair (mb_id mb)) (admin_roles t (im_target w1)))"
  from tx_callD [OF 2] uuid_codecD(1) [OF assms(1)] mb(2) have rows: "rows = length ?new"
    and w': "im_target w' = (im_target w1)\<lparr>tg_membership_roles := tg_membership_roles (im_target w1) @ ?new\<rparr>"
    by (auto simp: grant_admin_stmt_def Let_def)
  have "?new = []" if "\<forall>ro\<in>set (admin_roles t (im_target w)). (mb_id mb, ro) \<in> set (tg_membership_roles (im_target w))"
    using that w1 by (auto simp: filter_empty_conv)
  with rows have "\<not> made \<and> im_target w' = im_target w"
    if "find (\<lambda>r. mb_tenant r = t \<and> mb_user r = u) (tg_memberships (im_target w)) = Some mb0"
      and "\<forall>ro\<in>set (admin_roles t (im_target w)). (mb_id mb0, ro) \<in> set (tg_membership_roles (im_target w))" for mb0
    using that same [OF that(1)] by (simp add: made w')
  with mb w1 show ?thesis by (auto simp: w' admin_roles_def)
qed

section \<open>One publisher\<close>

text \<open>What a publisher's import is made of when it goes through.\<close>

lemma import_publisher_parts:
  assumes "import_publisher E C p r w = (Inr r', w')"
  obtains (parts) tid made w1 w2 where
    "ensure_tenant E C (ip_slug p) (ip_owner_slug p) (ip_name p) w = (Inr (tid, made), w1)"
    and "ip_owner_email p = [] \<Longrightarrow> w2 = w1 \<and> rp_users r' = rp_users r \<and> rp_memberships r' = rp_memberships r"
    and "ip_owner_email p \<noteq> [] \<Longrightarrow> \<exists>uid made_user wu made_member.
        ensure_user E C (ip_owner_email p) (ip_name p) w1 = (Inr (uid, made_user), wu)
      \<and> ensure_admin_membership E tid uid wu = (Inr made_member, w2)
      \<and> rp_users r' = rp_users r + tally made_user \<and> rp_memberships r' = rp_memberships r + tally made_member"
    and "tx_call (write_publisher_stmt E p tid) w2 = (Inr (), w')"
    and "rp_tenants r' = rp_tenants r + tally made"
proof (cases "ip_owner_email p = []")
  case True
  with assms obtain tid made w1 where
    "ensure_tenant E C (ip_slug p) (ip_owner_slug p) (ip_name p) w = (Inr (tid, made), w1)"
    and "tx_call (write_publisher_stmt E p tid) w1 = (Inr (), w')"
    and "rp_users r' = rp_users r \<and> rp_memberships r' = rp_memberships r \<and> rp_tenants r' = rp_tenants r + tally made"
    by (auto simp: import_publisher_def Let_def elim!: andthen_Inr_E dest!: wrappedD)
  with True show thesis by (intro parts [of tid made w1 w1]) auto
next
  case False
  with assms obtain tid made w1 uid made_user wu made_member w2 where
    "ensure_tenant E C (ip_slug p) (ip_owner_slug p) (ip_name p) w = (Inr (tid, made), w1)"
    and "ensure_user E C (ip_owner_email p) (ip_name p) w1 = (Inr (uid, made_user), wu)"
    and "ensure_admin_membership E tid uid wu = (Inr made_member, w2)"
    and "tx_call (write_publisher_stmt E p tid) w2 = (Inr (), w')"
    and "rp_users r' = rp_users r + tally made_user \<and> rp_memberships r' = rp_memberships r + tally made_member
      \<and> rp_tenants r' = rp_tenants r + tally made"
    by (auto simp: import_publisher_def Let_def elim!: andthen_Inr_E dest!: wrappedD)
  with False show thesis by (intro parts [of tid made w1 w2]) auto
qed

lemma write_publisher_ok:
  assumes "uuid_codec E" and "tx_call (write_publisher_stmt E p (pg_uuid_text E t)) w = (Inr x, w')"
  obtains u where "pg_uuid E (ip_id p) = Some u"
    and "im_target w' = (im_target w)\<lparr>tg_store := (tg_store (im_target w))\<lparr>t_publishers :=
      upsert (\<lambda>r. pub_id r = u) (imported_publisher p t (im_now w)
          ((pg_publisher_defaults E)\<lparr>pub_id := u, pub_created_at := im_now w\<rparr>))
        (imported_publisher p t (im_now w)) (t_publishers (tg_store (im_target w)))\<rparr>\<rparr>"
  using tx_callD [OF assms(2)] uuid_codecD(1) [OF assms(1)]
  by (auto simp: write_publisher_stmt_def Let_def split: option.splits if_splits)

lemma written_publisher:
  "publisher_with u (d\<lparr>tg_store := s\<lparr>t_publishers := upsert (\<lambda>r. pub_id r = u) (imported_publisher p t n (q\<lparr>pub_id := u, pub_created_at := n\<rparr>))
     (imported_publisher p t n) rows\<rparr>\<rparr>) =
   Some (imported_publisher p t n (case find (\<lambda>r. pub_id r = u) rows of None \<Rightarrow> q\<lparr>pub_id := u, pub_created_at := n\<rparr> | Some r \<Rightarrow> r))"
  unfolding publisher_with_def
  by (simp, subst find_upsert) (auto simp: imported_publisher_def split: option.split)

lemma import_publisher_ok:
  assumes "uuid_codec E" and "core_laws E C" and "import_publisher E C p r w = (Inr r', w')"
  shows "placed E C p (im_target w')"
  using assms(3)
proof (cases rule: import_publisher_parts)
  case (parts tid made w1 w2)
  from ensure_tenant_ok [OF parts(1)] obtain tn where tn: "tenant_with (slug_of p) (im_target w1) = Some tn"
    and tid: "tid = pg_uuid_text E (tn_id tn)"
    by (auto simp: slug_of_def)
  have w2: "tenant_with (slug_of p) (im_target w2) = Some tn \<and>
      (ip_owner_email p \<noteq> [] \<longrightarrow> acts_for E C (ip_owner_email p) (tn_id tn) (im_target w2))"
  proof (cases "ip_owner_email p = []")
    case True
    with parts(2) tn show ?thesis by simp
  next
    case False
    from parts(3) [OF this] obtain uid mu wu mm where
      u: "ensure_user E C (ip_owner_email p) (ip_name p) w1 = (Inr (uid, mu), wu)"
      and m: "ensure_admin_membership E tid uid wu = (Inr mm, w2)" by blast
    from ensure_user_ok [OF assms(2) u] obtain us where
      us: "find (\<lambda>r. cs_lower C (us_email r) = to_lower E (trim_space (ip_owner_email p))) (tg_users (im_target wu)) = Some us"
      and uid: "uid = pg_uuid_text E (us_id us)" "tg_tenants (im_target wu) = tg_tenants (im_target w1)" by blast
    from ensure_admin_ok [OF assms(1) m [unfolded tid uid(1)]] obtain mb where
      "find (\<lambda>r. mb_tenant r = tn_id tn \<and> mb_user r = us_id us) (tg_memberships (im_target w2)) = Some mb"
      "\<forall>ro\<in>set (admin_roles (tn_id tn) (im_target w2)). (mb_id mb, ro) \<in> set (tg_membership_roles (im_target w2))"
      "tg_tenants (im_target w2) = tg_tenants (im_target wu)" "tg_users (im_target w2) = tg_users (im_target wu)"
      by blast
    with us uid(2) tn show ?thesis by (auto simp: acts_for_def tenant_with_def)
  qed
  from write_publisher_ok [OF assms(1) parts(4) [unfolded tid]] obtain u where u: "pg_uuid E (ip_id p) = Some u"
    and w': "im_target w' = (im_target w2)\<lparr>tg_store := (tg_store (im_target w2))\<lparr>t_publishers :=
      upsert (\<lambda>r. pub_id r = u) (imported_publisher p (tn_id tn) (im_now w2)
          ((pg_publisher_defaults E)\<lparr>pub_id := u, pub_created_at := im_now w2\<rparr>))
        (imported_publisher p (tn_id tn) (im_now w2)) (t_publishers (tg_store (im_target w2)))\<rparr>\<rparr>"
    by blast
  then obtain q where "publisher_with u (im_target w') = Some (imported_publisher p (tn_id tn) (im_now w2) q)"
    by (simp only: written_publisher)
  moreover have "tenant_with slug (im_target w') = tenant_with slug (im_target w2)"
    and "acts_for E C email t (im_target w') = acts_for E C email t (im_target w2)" for slug email t
    by (simp_all add: w' tenant_with_def acts_for_def admin_roles_def)
  ultimately show ?thesis
    unfolding placed_def using w2 u
    by (intro exI [of _ tn] exI [of _ "imported_publisher p (tn_id tn) (im_now w2) q"] exI [of _ u])
      (simp add: imported_publisher_def)
qed

text \<open>All of them: a publisher placed stays so while the others are, their ids being different.\<close>

lemma import_publishers_ok:
  assumes "uuid_codec E" and "core_laws E C"
    and "sane w" and "import_publishers E C ps r w = (Inr r', w')"
    and "distinct (map (\<lambda>p. pg_uuid E (ip_id p)) ps)" and "\<And>p. p \<in> set ps \<Longrightarrow> pg_uuid E (ip_id p) \<noteq> None"
    and "p \<in> set ps"
  shows "placed E C p (im_target w')"
  using assms(3-7)
proof (induction ps arbitrary: r w)
  case (Cons q ps)
  from Cons.prems(2) obtain r1 w1 where q: "import_publisher E C q r w = (Inr r1, w1)"
    and rest: "import_publishers E C ps r1 w1 = (Inr r', w')"
    by (auto elim!: andthen_Inr_E)
  from Cons.prems(4) [of q] obtain u where "pg_uuid E (ip_id q) = Some u" by auto
  from grows_publisher [OF assms(2) this UNIV_I] have "leads (grows_by UNIV) (import_publisher E C q r)" .
  from leadsD [OF this q] Cons.prems(1) have sane: "sane w1" by (simp add: grows_by_def)
  show ?case
  proof (cases "p = q")
    case False
    with Cons.IH [OF sane rest] Cons.prems show ?thesis by auto
  next
    case True
    let ?X = "{u. \<exists>p\<in>set ps. pg_uuid E (ip_id p) = Some u}"
    have "leads (grows_by ?X) (import_publishers E C ps r1)"
      by (rule grows_publishers [OF assms(2)]) (use Cons.prems(4) in fastforce)
    from leadsD [OF this rest] sane have "grown ?X (im_target w1) (im_target w')" by (simp add: grows_by_def)
    then show ?thesis
      unfolding True
      by (rule placed_grown [OF _ import_publisher_ok [OF assms(1,2) q]])
        (use Cons.prems(3) in \<open>force simp: image_iff\<close>)
  qed
qed simp

end
