(* ===== verification/ImportCopies.thy ===== *)
theory ImportCopies
  imports ImportPublishers
begin

text \<open>
  The second part of the import: the copies of the store's tables. The locale \<open>copying\<close> states
  what the five statements promise (a row whose key is taken changes nothing, another is added
  under its key) and derives what a loop over the rows of a table does; \<open>copied_store\<close> is then the
  whole of the copies as a function of the target.
\<close>

section \<open>One table\<close>

text \<open>The rows a loop adds: those whose key is not held when their turn comes.\<close>

fun unheld :: "('r \<Rightarrow> 'k) \<Rightarrow> 'k set \<Rightarrow> 'r list \<Rightarrow> 'r list" where
  "unheld key K [] = []"
| "unheld key K (r # rs) =
     (if key r \<in> K then unheld key K rs else r # unheld key (insert (key r) K) rs)"

lemma unheld_distinct: "distinct (map key rs) \<Longrightarrow> unheld key K rs = filter (\<lambda>r. key r \<notin> K) rs"
proof (induction rs arbitrary: K)
  case (Cons r rs)
  then have "key x \<noteq> key r" if "x \<in> set rs" for x
    using that by (metis distinct.simps(2) image_eqI image_set list.simps(9))
  then have "filter (\<lambda>x. key x \<notin> insert (key r) K) rs = filter (\<lambda>x. key x \<notin> K) rs"
    by (intro filter_cong) simp_all
  with Cons show ?case by simp
qed simp

lemma distinct_sort_key: "distinct (map f (sort_key g xs)) \<longleftrightarrow> distinct (map f xs)"
  by (simp add: distinct_map)

lemma unheld_Nil: "key ` set rs \<subseteq> K \<Longrightarrow> unheld key K rs = []"
  by (induction rs) auto

lemma key_unheld: "K \<union> key ` set (unheld key K rs) = K \<union> key ` set rs"
proof (induction rs arbitrary: K)
  case (Cons r rs)
  from Cons.IH [of K] Cons.IH [of "insert (key r) K"] show ?case by (simp add: insert_absorb)
qed simp

lemma unheld_subset: "set (unheld key K rs) \<subseteq> set rs"
  by (induction rs arbitrary: K) (simp_all, blast+)

text \<open>
  What the five copies have in common: a row whose key is held is skipped, and any other is added
  with its key. \<open>extend\<close> is the target with more rows.
\<close>

locale copying =
  fixes E :: env and put :: "'r \<Rightarrow> time \<Rightarrow> uuid \<Rightarrow> target \<Rightarrow> err + unit \<times> target"
    and key :: "'r \<Rightarrow> 'k" and held :: "target \<Rightarrow> 'k list" and extend :: "'r list \<Rightarrow> target \<Rightarrow> target"
  assumes adds: "uuid_codec E \<Longrightarrow> put r t n d = Inr (x, d') \<Longrightarrow>
      d' = (if key r \<in> set (held d) then d else extend [r] d)"
    and extend_Nil: "extend [] d = d"
    and extend_Cons: "extend (r # rs) d = extend rs (extend [r] d)"
    and held_extend: "held (extend rs d) = held d @ map key rs"
begin

lemma written:
  assumes "uuid_codec E" and "for_each (\<lambda>r. tx_call (put r)) rs w = (Inr us, w')"
  shows "length us = length rs
    \<and> im_target w' = extend (unheld key (set (held (im_target w))) rs) (im_target w)"
  using assms(2)
proof (induction rs arbitrary: us w)
  case Nil
  then show ?case by (simp add: extend_Nil)
next
  case (Cons r rs)
  from Cons.prems obtain u w1 us' where c: "tx_call (put r) w = (Inr u, w1)"
    and rest: "for_each (\<lambda>r. tx_call (put r)) rs w1 = (Inr us', w')" and us: "us = u # us'"
    by (auto elim!: andthen_Inr_E)
  from tx_callD [OF c] adds [OF assms(1)]
  have w1: "im_target w1 = (if key r \<in> set (held (im_target w)) then im_target w else extend [r] (im_target w))"
    by blast
  show ?case
  proof (cases "key r \<in> set (held (im_target w))")
    case True
    with w1 Cons.IH [OF rest] us show ?thesis by simp
  next
    case False
    with w1 have "im_target w1 = extend [r] (im_target w)" by simp
    with Cons.IH [OF rest] us False extend_Cons [of r _ "im_target w", symmetric] show ?thesis
      by (simp add: held_extend)
  qed
qed

lemma copied:
  assumes "uuid_codec E" and "copy_rows rs c put c w = (Inr n, w')"
  shows "n = length rs" and "im_target w' = extend (unheld key (set (held (im_target w))) rs) (im_target w)"
proof -
  from assms(2) obtain rows w1 us w2 u where s: "source_call rs w = (Inr rows, w1)"
    and f: "for_each (\<lambda>r. tx_call (put r)) rows w1 = (Inr us, w2)"
    and e: "source_call () w2 = (Inr u, w')" and n: "n = length us"
    unfolding copy_rows_def by (auto elim!: andthen_Inr_E)
  with written [OF assms(1) f] source_callD [OF s] source_callD [OF e]
  show "n = length rs" and "im_target w' = extend (unheld key (set (held (im_target w))) rs) (im_target w)"
    by simp_all
qed

lemma held_copied: "set (held (extend (unheld key (set (held d)) rs) d)) = set (held d) \<union> key ` set rs"
  by (simp add: held_extend key_unheld)

lemma copied_again:
  "key ` set rs \<subseteq> set (held d) \<Longrightarrow> extend (unheld key (set (held d)) rs) d = d"
  by (simp add: unheld_Nil extend_Nil)

end

section \<open>The five tables\<close>

definition copied_app :: "env \<Rightarrow> source_app \<Rightarrow> app_row" where
  "copied_app E r =
     (pg_app_defaults E)\<lparr>app_id := sa_id r, app_publisher := sa_publisher r, app_slug := sa_slug r,
       app_type := sa_type r, app_name := sa_name r, app_description := sa_description r,
       app_icon_url := sa_icon_url r, app_category := sa_category r,
       app_visibility := sa_visibility r, app_created_at := sa_created_at r,
       app_updated_at := sa_updated_at r\<rparr>"

definition copied_event :: "source_event \<Rightarrow> event_row" where
  "copied_event r =
     \<lparr>ev_version = se_version r, ev_actor_id = None, ev_actor = se_actor r, ev_action = se_action r,
      ev_note = se_note r, ev_created_at = se_created_at r\<rparr>"

definition text_key :: "text_row \<Rightarrow> string \<times> string" where
  "text_key r = (tx_app r, tx_locale r)"

definition more_apps :: "env \<Rightarrow> source_app list \<Rightarrow> target \<Rightarrow> target" where
  "more_apps E rs d = d\<lparr>tg_store := (tg_store d)\<lparr>t_apps := t_apps (tg_store d) @ map (copied_app E) rs\<rparr>\<rparr>"

definition more_versions :: "env \<Rightarrow> source_version list \<Rightarrow> target \<Rightarrow> target" where
  "more_versions E rs d = d\<lparr>tg_store := (tg_store d)\<lparr>t_versions :=
     t_versions (tg_store d) @ map (\<lambda>r. copied_version E r (sv_id r)) rs\<rparr>\<rparr>"

definition more_texts :: "text_row list \<Rightarrow> target \<Rightarrow> target" where
  "more_texts rs d = d\<lparr>tg_store := (tg_store d)\<lparr>t_texts := t_texts (tg_store d) @ rs\<rparr>\<rparr>"

definition more_externals :: "external_row list \<Rightarrow> target \<Rightarrow> target" where
  "more_externals rs d = d\<lparr>tg_store := (tg_store d)\<lparr>t_externals := t_externals (tg_store d) @ rs\<rparr>\<rparr>"

definition more_events :: "source_event list \<Rightarrow> target \<Rightarrow> target" where
  "more_events rs d = d\<lparr>tg_event_ids := tg_event_ids d @ map se_id rs,
     tg_store := (tg_store d)\<lparr>t_events := t_events (tg_store d) @ map copied_event rs\<rparr>\<rparr>"

lemmas more_defs = more_apps_def more_versions_def more_texts_def more_externals_def more_events_def

lemma list_ex_key: "list_ex (\<lambda>x. f x = k) xs \<longleftrightarrow> k \<in> f ` set xs"
  by (auto simp: list_ex_iff)

lemma list_ex_text: "list_ex (\<lambda>x. tx_app x = tx_app r \<and> tx_locale x = tx_locale r) xs \<longleftrightarrow> text_key r \<in> text_key ` set xs"
  by (auto simp: list_ex_iff text_key_def image_iff) metis

interpretation apps: copying E "copy_app_stmt E" sa_id "\<lambda>d. map app_id (t_apps (tg_store d))" "more_apps E" for E
  by unfold_locales
    (auto simp: copy_app_stmt_def more_apps_def copied_app_def Let_def uuid_codecD(1) list_ex_key split: if_splits)

interpretation versions: copying E "copy_version_stmt E" sv_id "\<lambda>d. map ver_id (t_versions (tg_store d))"
    "more_versions E" for E
  by unfold_locales
    (auto simp: copy_version_stmt_def more_versions_def copied_version_def Let_def uuid_codecD(1) list_ex_key
      split: if_splits)

interpretation texts: copying E copy_text_stmt text_key "\<lambda>d. map text_key (t_texts (tg_store d))" more_texts for E
  by unfold_locales (auto simp: copy_text_stmt_def more_texts_def Let_def list_ex_text split: if_splits)

interpretation externals: copying E copy_external_stmt ex_app "\<lambda>d. map ex_app (t_externals (tg_store d))"
    more_externals for E
  by unfold_locales (auto simp: copy_external_stmt_def more_externals_def Let_def list_ex_key split: if_splits)

interpretation events: copying E "copy_event_stmt E" se_id tg_event_ids more_events for E
  by unfold_locales (auto simp: copy_event_stmt_def copied_event_def more_events_def uuid_codecD(1) split: if_splits)

section \<open>All of them\<close>

text \<open>The copies as a function of the target: each table gets the rows of the source whose key it lacks.\<close>

definition copied_store :: "env \<Rightarrow> source \<Rightarrow> target \<Rightarrow> target" where
  "copied_store E src d =
     more_events (unheld se_id (set (tg_event_ids d)) (sort_key se_created_at (so_events src)))
       (more_externals (unheld ex_app (ex_app ` set (t_externals (tg_store d))) (so_externals src))
         (more_texts (unheld text_key (text_key ` set (t_texts (tg_store d))) (so_texts src))
           (more_versions E (unheld sv_id (ver_id ` set (t_versions (tg_store d))) (sort_key sv_created_at (so_versions src)))
             (more_apps E (unheld sa_id (app_id ` set (t_apps (tg_store d))) (sort_key sa_created_at (so_apps src))) d))))"

text \<open>Every row of the source is in the target, by its key.\<close>

definition all_there :: "source \<Rightarrow> target \<Rightarrow> bool" where
  "all_there src d \<longleftrightarrow> sa_id ` set (so_apps src) \<subseteq> app_id ` set (t_apps (tg_store d))
     \<and> sv_id ` set (so_versions src) \<subseteq> ver_id ` set (t_versions (tg_store d))
     \<and> text_key ` set (so_texts src) \<subseteq> text_key ` set (t_texts (tg_store d))
     \<and> ex_app ` set (so_externals src) \<subseteq> ex_app ` set (t_externals (tg_store d))
     \<and> se_id ` set (so_events src) \<subseteq> set (tg_event_ids d)"

text \<open>The copies append to the store's tables and touch nothing else.\<close>

definition kept_rows :: "target \<Rightarrow> target \<Rightarrow> bool" where
  "kept_rows d d' \<longleftrightarrow> tg_tenants d' = tg_tenants d \<and> tg_users d' = tg_users d
     \<and> tg_memberships d' = tg_memberships d \<and> tg_roles d' = tg_roles d
     \<and> tg_membership_roles d' = tg_membership_roles d
     \<and> t_publishers (tg_store d') = t_publishers (tg_store d)
     \<and> t_revision (tg_store d') = t_revision (tg_store d) \<and> t_snapshots (tg_store d') = t_snapshots (tg_store d)
     \<and> t_platforms (tg_store d') = t_platforms (tg_store d) \<and> t_grants (tg_store d') = t_grants (tg_store d)
     \<and> t_private (tg_store d') = t_private (tg_store d)
     \<and> (\<exists>i. tg_event_ids d' = tg_event_ids d @ i)
     \<and> (\<exists>a. t_apps (tg_store d') = t_apps (tg_store d) @ a)
     \<and> (\<exists>v. t_versions (tg_store d') = t_versions (tg_store d) @ v)
     \<and> (\<exists>x. t_texts (tg_store d') = t_texts (tg_store d) @ x)
     \<and> (\<exists>y. t_externals (tg_store d') = t_externals (tg_store d) @ y)
     \<and> (\<exists>e. t_events (tg_store d') = t_events (tg_store d) @ e)"

lemma copied_store_kept: "kept_rows d (copied_store E src d)"
  by (simp add: kept_rows_def copied_store_def more_defs)

lemma copied_store_all: "all_there src (copied_store E src d)"
proof -
  have "app_id (copied_app E r) = sa_id r" and "ver_id (copied_version E v (sv_id v)) = sv_id v" for r v
    by (simp_all add: copied_app_def copied_version_def)
  then show ?thesis
    by (simp add: all_there_def copied_store_def more_defs image_Un image_image key_unheld)
qed

lemma copied_store_again: "all_there src d \<Longrightarrow> copied_store E src d = d"
  by (simp add: all_there_def copied_store_def more_defs unheld_Nil)

lemma copy_tables_ok:
  assumes "uuid_codec E" and "copy_tables E src r w = (Inr r', w')"
  shows "im_target w' = copied_store E src (im_target w)"
    and "r' = r\<lparr>rp_apps := length (so_apps src), rp_versions := length (so_versions src),
      rp_texts := length (so_texts src), rp_externals := length (so_externals src), rp_events := length (so_events src)\<rparr>"
proof -
  from assms(2) obtain n1 w1 n2 w2 n3 w3 n4 w4 n5 where
    c: "copy_rows (sort_key sa_created_at (so_apps src)) 11 (copy_app_stmt E) 11 w = (Inr n1, w1)"
      "copy_rows (sort_key sv_created_at (so_versions src)) 11 (copy_version_stmt E) 11 w1 = (Inr n2, w2)"
      "copy_rows (so_texts src) 5 copy_text_stmt 5 w2 = (Inr n3, w3)"
      "copy_rows (so_externals src) 7 copy_external_stmt 7 w3 = (Inr n4, w4)"
      "copy_rows (sort_key se_created_at (so_events src)) 6 (copy_event_stmt E) 6 w4 = (Inr n5, w')"
    and r': "r' = r\<lparr>rp_apps := n1, rp_versions := n2, rp_texts := n3, rp_externals := n4, rp_events := n5\<rparr>"
    unfolding copy_tables_def by (auto elim!: andthen_Inr_E dest!: wrappedD)
  note a = apps.copied [OF assms(1) c(1)] and v = versions.copied [OF assms(1) c(2)]
    and x = texts.copied [OF assms(1) c(3)] and y = externals.copied [OF assms(1) c(4)]
    and e = events.copied [OF assms(1) c(5)]
  show "im_target w' = copied_store E src (im_target w)"
    unfolding copied_store_def e(2) y(2) x(2) v(2) a(2) by (simp add: more_defs)
  show "r' = r\<lparr>rp_apps := length (so_apps src), rp_versions := length (so_versions src),
      rp_texts := length (so_texts src), rp_externals := length (so_externals src), rp_events := length (so_events src)\<rparr>"
    unfolding r' by (simp add: a(1) v(1) x(1) y(1) e(1))
qed

end
