(* ===== verification/ImportTables.thy ===== *)
theory ImportTables
  imports ImportCopies Wellformed
begin

text \<open>
  The import and the invariant of the tables (\<open>wf_db\<close>): every call of the import keeps it, as every
  statement of the modules does, provided the source's own rows are in order. The lemmas are an
  interpretation of \<open>import_relation\<close>, so they hold wherever a run stops.
\<close>

section \<open>The invariant along a run\<close>

text \<open>
  What is asked of the source: its identifiers are not ones the platform will hand out later, and
  what it calls published has a date.
\<close>

definition source_in_order :: "uuid \<Rightarrow> source \<Rightarrow> bool" where
  "source_in_order n src \<longleftrightarrow> (\<forall>p\<in>set (so_publishers src). sp_id p < n)
     \<and> (\<forall>v\<in>set (so_versions src). sv_id v < n \<and> (sv_status v = ''published'' \<longrightarrow> sv_published_at v \<noteq> None))"

definition tables_ok :: "uuid \<Rightarrow> importing \<Rightarrow> bool" where
  "tables_ok n w \<longleftrightarrow> n \<le> im_next w \<and> wf_db (im_next w) (tg_store (im_target w))"

definition keeps_tables :: "uuid \<Rightarrow> importing \<Rightarrow> importing \<Rightarrow> bool" where
  "keeps_tables n w w' \<longleftrightarrow> (tables_ok n w \<longrightarrow> tables_ok n w')"

interpretation ordered: import_relation "keeps_tables n" for n
  by unfold_locales (auto simp: keeps_tables_def tables_ok_def called_def intro: wf_Suc)

lemma keeps_tables_tx:
  assumes "\<And>t k d x d'. n \<le> k \<Longrightarrow> wf_db k (tg_store d) \<Longrightarrow> q t k d = Inr (x, d') \<Longrightarrow> wf_db (Suc k) (tg_store d')"
  shows "leads (keeps_tables n) (tx_call q)"
  by (rule ordered.leads_tx) (auto simp: keeps_tables_def tables_ok_def called_def intro: assms)

lemma keeps_tables_people:
  "leads (keeps_tables n) (tenant_by_slug slug)" "leads (keeps_tables n) (tx_call (insert_tenant_stmt C name slug))"
  "leads (keeps_tables n) (user_by_email C email)" "leads (keeps_tables n) (tx_call (insert_user_stmt email name))"
  "leads (keeps_tables n) (tx_call (membership_stmt E t u))" "leads (keeps_tables n) (tx_call (grant_admin_stmt E m t))"
  unfolding tenant_by_slug_def user_by_email_def
  by (rule keeps_tables_tx; auto simp: insert_tenant_stmt_def insert_user_stmt_def membership_stmt_def
      grant_admin_stmt_def Let_def intro: wf_Suc split: option.splits)+

section \<open>The statements that write the store\<close>

lemma wf_write_publisher:
  assumes "pg_uuid E (ip_id p) = Some u" and "u < k" and "wf_db k (tg_store d)"
    and "write_publisher_stmt E p tid t k d = Inr (x, d')"
  shows "wf_db (Suc k) (tg_store d')"
proof -
  let ?rows = "t_publishers (tg_store d)"
  from assms(1,4) obtain tenant where
    clash: "\<forall>r\<in>set ?rows. pub_id r = u \<or> pub_tenant r \<noteq> tenant \<and> pub_slug r \<noteq> ip_slug p"
    and d': "tg_store d' = (tg_store d)\<lparr>t_publishers := upsert (\<lambda>r. pub_id r = u)
        (imported_publisher p tenant t ((pg_publisher_defaults E)\<lparr>pub_id := u, pub_created_at := t\<rparr>))
        (imported_publisher p tenant t) ?rows\<rparr>"
    by (auto simp: write_publisher_stmt_def Let_def list_ex_iff split: option.splits if_splits)
  note wf = wf_dbD(1) [OF assms(3), unfolded wf_publishers_def]
  let ?new = "imported_publisher p tenant t ((pg_publisher_defaults E)\<lparr>pub_id := u, pub_created_at := t\<rparr>)"
  let ?t = "upsert (\<lambda>r. pub_id r = u) ?new (imported_publisher p tenant t) ?rows"
  have "distinct (map pub_id ?t)"
    by (rule distinct_key_upsert) (use wf in \<open>auto simp: imported_publisher_def\<close>)
  moreover have "distinct (map pub_slug ?t)"
    by (rule distinct_second_key [where key = pub_id and c = "ip_slug p"])
      (use wf clash in \<open>auto simp: imported_publisher_def\<close>)
  moreover have "distinct (map pub_tenant ?t)"
    by (rule distinct_second_key [where key = pub_id and c = tenant])
      (use wf clash in \<open>auto simp: imported_publisher_def\<close>)
  moreover have "\<forall>r\<in>set ?t. pub_id r < Suc k"
    using wf assms(2) set_upsert_subset [of "\<lambda>r. pub_id r = u" ?new "imported_publisher p tenant t" ?rows]
    by (fastforce simp: imported_publisher_def)
  ultimately show ?thesis
    unfolding d' by (intro wf_frame_publishers [OF assms(3)]) (simp add: wf_publishers_def)
qed

lemma wf_copy_app:
  assumes "wf_db k (tg_store d)" and "copy_app_stmt E r t k d = Inr (x, d')"
  shows "wf_db (Suc k) (tg_store d')"
proof (cases "d' = d")
  case False
  with assms(2) obtain row where d': "tg_store d' = (tg_store d)\<lparr>t_apps := t_apps (tg_store d) @ [row]\<rparr>"
    and new: "app_id row \<notin> app_id ` set (t_apps (tg_store d))" "app_slug row \<notin> app_slug ` set (t_apps (tg_store d))"
    by (auto simp: copy_app_stmt_def Let_def list_ex_key split: option.splits if_splits)
  show ?thesis
    unfolding d' by (rule wf_frame_apps [OF assms(1)]) (use new wf_dbD(2) [OF assms(1)] in \<open>auto simp: wf_apps_def\<close>)
qed (use assms(1) in \<open>simp add: wf_Suc\<close>)

lemma wf_copy_version:
  assumes "uuid_codec E" and "sv_id r < k" and "sv_status r = ''published'' \<longrightarrow> sv_published_at r \<noteq> None"
    and "wf_db k (tg_store d)" and "copy_version_stmt E r t k d = Inr (x, d')"
  shows "wf_db (Suc k) (tg_store d')"
proof (cases "d' = d")
  case False
  with assms(1,5) have d': "tg_store d' = (tg_store d)\<lparr>t_versions := t_versions (tg_store d) @ [copied_version E r (sv_id r)]\<rparr>"
    and new: "sv_id r \<notin> ver_id ` set (t_versions (tg_store d))"
    by (auto simp: copy_version_stmt_def uuid_codecD(1) Let_def list_ex_key split: if_splits)
  show ?thesis
    unfolding d' by (rule wf_frame_versions [OF assms(4)])
      (use new assms(2,3) wf_dbD(3) [OF assms(4)] in \<open>auto simp: wf_versions_def copied_version_def is_published_def\<close>)
qed (use assms(4) in \<open>simp add: wf_Suc\<close>)

lemma wf_copy_other:
  "wf_db k (tg_store d) \<Longrightarrow> copy_text_stmt a t k d = Inr (x, d') \<Longrightarrow> wf_db (Suc k) (tg_store d')"
  "wf_db k (tg_store d) \<Longrightarrow> copy_external_stmt b t k d = Inr (x, d') \<Longrightarrow> wf_db (Suc k) (tg_store d')"
  "wf_db k (tg_store d) \<Longrightarrow> copy_event_stmt E e t k d = Inr (x, d') \<Longrightarrow> wf_db (Suc k) (tg_store d')"
  "wf_db k (tg_store d) \<Longrightarrow> bump_target_stmt t k d = Inr (x, d') \<Longrightarrow> wf_db (Suc k) (tg_store d')"
  by (auto simp: copy_text_stmt_def copy_external_stmt_def copy_event_stmt_def bump_target_stmt_def Let_def
      intro: wf_frame_other wf_Suc split: option.splits if_splits)

lemma keeps_tables_store:
  "leads (keeps_tables n) (tx_call (copy_app_stmt E r))" "leads (keeps_tables n) (tx_call (copy_text_stmt a))"
  "leads (keeps_tables n) (tx_call (copy_external_stmt b))" "leads (keeps_tables n) (tx_call (copy_event_stmt E e))"
  "leads (keeps_tables n) (tx_call bump_target_stmt)"
  by (rule keeps_tables_tx, erule (1) wf_copy_app wf_copy_other)+

section \<open>The whole run\<close>

lemma keeps_tables_body:
  assumes "uuid_codec E" and "source_in_order n src"
  shows "leads (keeps_tables n) (import_body E C src)"
proof -
  have "leads (keeps_tables n) (tx_call (write_publisher_stmt E p t))"
    if "p \<in> set (source_publishers E src)" for p t
  proof -
    from that obtain sp where "sp \<in> set (so_publishers src)" and "pg_uuid E (ip_id p) = Some (sp_id sp)"
      by (auto simp: source_publishers_def scan_source_publisher_def uuid_codecD(1) [OF assms(1)])
    moreover from this assms(2) have "sp_id sp < k" if "n \<le> k" for k
      using that by (fastforce simp: source_in_order_def)
    ultimately show ?thesis by (intro keeps_tables_tx) (rule wf_write_publisher)
  qed
  then have p: "leads (keeps_tables n) (import_publishers E C (source_publishers E src) r)" for r
    by (intro ordered.leads_publishers ordered.leads_publisher keeps_tables_people)
  have "leads (keeps_tables n) (tx_call (copy_version_stmt E r))" if "r \<in> set (so_versions src)" for r
  proof -
    from that assms(2) have "sv_id r < k" if "n \<le> k" for k
      using that by (fastforce simp: source_in_order_def)
    moreover from that assms(2) have "sv_status r = ''published'' \<longrightarrow> sv_published_at r \<noteq> None"
      by (simp add: source_in_order_def)
    ultimately show ?thesis by (intro keeps_tables_tx) (rule wf_copy_version [OF assms(1)])
  qed
  then have c: "leads (keeps_tables n) (copy_tables E src r)" for r
    by (intro ordered.leads_tables keeps_tables_store)
  from p c keeps_tables_store(5) have "leads (keeps_tables n) (andthen (import_publishers E C (source_publishers E src) empty_report)
      (\<lambda>r. andthen (copy_tables E src r) (\<lambda>r. andthen (wrapped what (tx_call bump_target_stmt)) (\<lambda>_. ok r))))" for what
    by (intro ordered.leads_rules)
  then show ?thesis
    unfolding import_body_def leads_def
    by (auto simp: andthen_apply wrapped_def attempt_apply source_call_def intro: ordered.R_called ordered.R_trans
        [OF ordered.R_called] ordered.R_trans [OF ordered.R_called ordered.R_trans [OF ordered.R_called]])
qed

text \<open>However a run ends, and wherever a call fails, the tables are in order after it.\<close>

lemma import_keeps_tables:
  assumes "uuid_codec E" and "source_in_order (im_next w) src" and "wf_db (im_next w) (tg_store (im_target w))"
    and "import_run E C src dry w = (res, w')"
  shows "wf_db (im_next w') (tg_store (im_target w'))" and "im_next w \<le> im_next w'"
proof -
  let ?n = "im_next w" and ?w = "(called w)\<lparr>im_broken := False\<rparr>"
  obtain r v where b: "import_body E C src ?w = (r, v)" by fastforce
  have "tables_ok ?n w" using assms(3) by (simp add: tables_ok_def)
  moreover have "keeps_tables ?n w ?w" by (rule ordered.R_trans [OF ordered.R_called ordered.R_broken])
  ultimately have v: "tables_ok ?n v"
    using leadsD [OF keeps_tables_body [OF assms(1,2)] b] by (simp add: keeps_tables_def)
  have "(im_next w', tg_store (im_target w')) \<in>
      {(Suc ?n, tg_store (im_target w)), (im_next v, tg_store (im_target w)), (Suc (im_next v), tg_store (im_target w)),
       (Suc (im_next v), tg_store (im_target v))}"
    using assms(4) b by (auto simp: import_run_def called_def split: if_splits sum.splits)
  with v wf.up [OF assms(3)] wf_Suc show "wf_db (im_next w') (tg_store (im_target w'))" and "?n \<le> im_next w'"
    unfolding tables_ok_def by auto
qed

end
