(* ===== verification/ImportSpec.thy ===== *)
theory ImportSpec
  imports ImportCopies Demo
begin

text \<open>
  The properties of the import: a dry run is a rehearsal, every owner can act for what was imported,
  what is copied is exactly what was missing, a decision made since is not brought, and running it
  again changes next to nothing.
\<close>

section \<open>Importing what has been imported\<close>

text \<open>All that changes is when a publisher was last written.\<close>

definition unstamped :: "publisher_row \<Rightarrow> publisher_row" where
  "unstamped r = r\<lparr>pub_updated_at := 0\<rparr>"

definition restamped :: "target \<Rightarrow> target \<Rightarrow> bool" where
  "restamped d d' \<longleftrightarrow> (\<exists>v. d' = d\<lparr>tg_store := (tg_store d)\<lparr>t_publishers := v\<rparr>\<rparr>
     \<and> map unstamped v = map unstamped (t_publishers (tg_store d)))"

lemma restamped_refl: "restamped d d"
  unfolding restamped_def by (rule exI [of _ "t_publishers (tg_store d)"]) simp

lemma restamped_trans: "restamped d1 d2 \<Longrightarrow> restamped d2 d3 \<Longrightarrow> restamped d1 d3"
  by (auto simp: restamped_def)

lemma map_unstamped_ids: "map unstamped v = map unstamped t \<Longrightarrow> map pub_id v = map pub_id t"
proof -
  have "map pub_id (map unstamped x) = map pub_id x" for x by (simp add: unstamped_def)
  then show "map unstamped v = map unstamped t \<Longrightarrow> ?thesis" by metis
qed

lemma find_unstamped:
  "find (\<lambda>r. pub_id r = u) (map unstamped t) = map_option unstamped (find (\<lambda>r. pub_id r = u) t)"
  by (induction t) (simp_all add: unstamped_def)

lemma restamped_publisher:
  assumes "restamped d d'"
  shows "map_option unstamped (publisher_with u d') = map_option unstamped (publisher_with u d)"
proof -
  from assms obtain v where "map unstamped v = map unstamped (t_publishers (tg_store d))"
    and "t_publishers (tg_store d') = v" by (auto simp: restamped_def)
  then show ?thesis unfolding publisher_with_def by (metis find_unstamped)
qed

lemma placed_restamped:
  assumes "restamped d d'" and "placed E C p d"
  shows "placed E C p d'"
proof -
  from assms(2) obtain tn row u where p: "tenant_with (slug_of p) d = Some tn" "pg_uuid E (ip_id p) = Some u"
      "publisher_with u d = Some row"
    and r: "pub_tenant row = tn_id tn" "pub_slug row = ip_slug p" "pub_name row = ip_name p"
      "pub_email row = ip_email p" "pub_verified row = ip_verified p"
    and a: "ip_owner_email p \<noteq> [] \<longrightarrow> acts_for E C (ip_owner_email p) (tn_id tn) d"
    unfolding placed_def by blast
  from restamped_publisher [OF assms(1), of u] p(3) obtain row' where
    row': "publisher_with u d' = Some row'" "unstamped row' = unstamped row" by auto
  from arg_cong [OF row'(2), of pub_tenant] arg_cong [OF row'(2), of pub_slug] arg_cong [OF row'(2), of pub_name]
    arg_cong [OF row'(2), of pub_email] arg_cong [OF row'(2), of pub_verified] r
  have r': "pub_tenant row' = tn_id tn" "pub_slug row' = ip_slug p" "pub_name row' = ip_name p"
      "pub_email row' = ip_email p" "pub_verified row' = ip_verified p"
    by (simp_all add: unstamped_def)
  have "tenant_with (slug_of p) d' = Some tn" "ip_owner_email p \<noteq> [] \<longrightarrow> acts_for E C (ip_owner_email p) (tn_id tn) d'"
    using assms(1) p(1) a by (auto simp: restamped_def tenant_with_def acts_for_def admin_roles_def)
  then show ?thesis using p(2) row'(1) r' unfolding placed_def by blast
qed

lemma rewritten_publisher:
  assumes "distinct (map pub_id rows)" and "find (\<lambda>r. pub_id r = u) rows = Some row"
    and "pub_tenant row = t" "pub_slug row = ip_slug p" "pub_name row = ip_name p"
      "pub_email row = ip_email p" "pub_verified row = ip_verified p"
  shows "map unstamped (upsert (\<lambda>r. pub_id r = u) new (imported_publisher p t n) rows) = map unstamped rows"
proof -
  from assms(2) have row: "row \<in> set rows" "pub_id row = u" by (auto dest: find_SomeD)
  then have "list_ex (\<lambda>r. pub_id r = u) rows" by (auto simp: list_ex_iff)
  moreover have "unstamped (if pub_id r = u then imported_publisher p t n r else r) = unstamped r" if "r \<in> set rows" for r
  proof (cases "pub_id r = u")
    case True
    with row that assms(1) have "r = row" by (auto dest: inj_onD simp: distinct_map)
    with True assms(3-7) show ?thesis by (simp add: unstamped_def imported_publisher_def)
  qed simp
  ultimately show ?thesis by (simp add: upsert_def)
qed

lemma rerun_publisher:
  assumes "uuid_codec E" and "core_laws E C" and "placed E C p (im_target w)"
    and "distinct (map pub_id (t_publishers (tg_store (im_target w))))"
    and "import_publisher E C p r w = (Inr r', w')"
  shows "restamped (im_target w) (im_target w') \<and> rp_tenants r' = rp_tenants r \<and> rp_users r' = rp_users r
    \<and> rp_memberships r' = rp_memberships r"
  using assms(5)
proof (cases rule: import_publisher_parts)
  case (parts tid made w1 w2)
  from assms(3) obtain tn row u where tn: "tenant_with (slug_of p) (im_target w) = Some tn"
    and u: "pg_uuid E (ip_id p) = Some u" and row: "publisher_with u (im_target w) = Some row"
      "pub_tenant row = tn_id tn" "pub_slug row = ip_slug p" "pub_name row = ip_name p"
      "pub_email row = ip_email p" "pub_verified row = ip_verified p"
    and a: "ip_owner_email p \<noteq> [] \<longrightarrow> acts_for E C (ip_owner_email p) (tn_id tn) (im_target w)"
    unfolding placed_def by blast
  from ensure_tenant_ok [OF parts(1)] tn have t: "tid = pg_uuid_text E (tn_id tn)" "\<not> made" "im_target w1 = im_target w"
    by (auto simp: slug_of_def split: if_splits)
  have o: "im_target w2 = im_target w \<and> rp_users r' = rp_users r \<and> rp_memberships r' = rp_memberships r"
  proof (cases "ip_owner_email p = []")
    case True
    with parts(2) t show ?thesis by simp
  next
    case False
    from parts(3) [OF this] obtain uid mu wu mm where
      us: "ensure_user E C (ip_owner_email p) (ip_name p) w1 = (Inr (uid, mu), wu)"
      and m: "ensure_admin_membership E tid uid wu = (Inr mm, w2)"
      and n: "rp_users r' = rp_users r + tally mu" "rp_memberships r' = rp_memberships r + tally mm" by blast
    from a False obtain us0 mb where
      f: "find (\<lambda>r. cs_lower C (us_email r) = to_lower E (trim_space (ip_owner_email p))) (tg_users (im_target w)) = Some us0"
        "find (\<lambda>r. mb_tenant r = tn_id tn \<and> mb_user r = us_id us0) (tg_memberships (im_target w)) = Some mb"
        "\<forall>ro\<in>set (admin_roles (tn_id tn) (im_target w)). (mb_id mb, ro) \<in> set (tg_membership_roles (im_target w))"
      unfolding acts_for_def by blast
    from ensure_user_ok [OF assms(2) us] f(1) t(3) have uid: "uid = pg_uuid_text E (us_id us0)" "\<not> mu" "im_target wu = im_target w"
      by auto
    from ensure_admin_ok [OF assms(1) m [unfolded t(1) uid(1)]] f(2,3) uid(3) have "\<not> mm \<and> im_target w2 = im_target w"
      by auto
    with n uid show ?thesis by (simp add: tally_def)
  qed
  from write_publisher_ok [OF assms(1) parts(4) [unfolded t(1)]] u o
  have w': "im_target w' = (im_target w)\<lparr>tg_store := (tg_store (im_target w))\<lparr>t_publishers :=
      upsert (\<lambda>r. pub_id r = u) (imported_publisher p (tn_id tn) (im_now w2)
          ((pg_publisher_defaults E)\<lparr>pub_id := u, pub_created_at := im_now w2\<rparr>))
        (imported_publisher p (tn_id tn) (im_now w2)) (t_publishers (tg_store (im_target w)))\<rparr>\<rparr>"
    by auto
  have "restamped (im_target w) (im_target w')"
    unfolding restamped_def w' using rewritten_publisher [OF assms(4) row(1) [unfolded publisher_with_def] row(2-6)] by blast
  with o parts(5) t(2) show ?thesis by (simp add: tally_def)
qed

lemma rerun_publishers:
  assumes "uuid_codec E" and "core_laws E C" and "\<And>p. p \<in> set ps \<Longrightarrow> placed E C p (im_target w)"
    and "distinct (map pub_id (t_publishers (tg_store (im_target w))))"
    and "import_publishers E C ps r w = (Inr r', w')"
  shows "restamped (im_target w) (im_target w') \<and> rp_tenants r' = rp_tenants r \<and> rp_users r' = rp_users r
    \<and> rp_memberships r' = rp_memberships r"
  using assms(3-5)
proof (induction ps arbitrary: r w)
  case (Cons p ps)
  from Cons.prems(3) obtain r1 w1 where p: "import_publisher E C p r w = (Inr r1, w1)"
    and rest: "import_publishers E C ps r1 w1 = (Inr r', w')"
    by (auto elim!: andthen_Inr_E)
  from rerun_publisher [OF assms(1,2) _ Cons.prems(2) p] Cons.prems(1)
  have 1: "restamped (im_target w) (im_target w1)" and r1: "rp_tenants r1 = rp_tenants r" "rp_users r1 = rp_users r"
    "rp_memberships r1 = rp_memberships r" by auto
  have "distinct (map pub_id (t_publishers (tg_store (im_target w1))))"
    using 1 Cons.prems(2) by (auto simp: restamped_def dest!: map_unstamped_ids)
  from Cons.IH [OF placed_restamped [OF 1] this rest] Cons.prems(1) r1 restamped_trans [OF 1] show ?case by auto
qed (simp add: restamped_refl)

section \<open>Properties\<close>

lemma run_parts:
  assumes "import_run E C src False w = (Inr r, w')"
  obtains w0 r1 w1 w2 where "im_target w0 = im_target w" and "sane w \<Longrightarrow> sane w0"
    and "import_publishers E C (source_publishers E src) empty_report w0 = (Inr r1, w1)"
    and "copy_tables E src r1 w1 = (Inr r, w2)"
    and "im_target w' = (im_target w2)\<lparr>tg_store := (tg_store (im_target w2))
      \<lparr>t_revision := map_option (\<lambda>n. n + 1) (t_revision (tg_store (im_target w2)))\<rparr>\<rparr>"
proof -
  let ?w = "(called w)\<lparr>im_broken := False\<rparr>"
  from assms obtain w3 where b: "import_body E C src ?w = (Inr r, w3)" and w': "im_target w' = im_target w3"
    by (auto simp: import_run_def called_def split: if_splits prod.splits sum.splits)
  from b obtain ps wa u w0 r1 w1 w2 z where s: "source_call (source_publishers E src) ?w = (Inr ps, wa)"
    "source_call () wa = (Inr u, w0)"
    and p: "import_publishers E C ps empty_report w0 = (Inr r1, w1)" and c: "copy_tables E src r1 w1 = (Inr r, w2)"
    and z: "tx_call bump_target_stmt w2 = (Inr z, w3)"
    unfolding import_body_def by (auto elim!: andthen_Inr_E dest!: wrappedD)
  have "grows_by UNIV w ?w" by (rule growth.R_trans [OF growth.R_called growth.R_broken])
  from growth.R_trans [OF growth.R_trans [OF this leadsD [OF growth.leads_source s(1)]] leadsD [OF growth.leads_source s(2)]]
  have "sane w \<Longrightarrow> sane w0" by (simp add: grows_by_def)
  moreover have "im_target w0 = im_target w" "ps = source_publishers E src"
    using source_callD [OF s(1)] source_callD [OF s(2)] by (simp_all add: called_def)
  moreover from tx_callD [OF z] have "im_target w3 = (im_target w2)\<lparr>tg_store := (tg_store (im_target w2))
      \<lparr>t_revision := map_option (\<lambda>n. n + 1) (t_revision (tg_store (im_target w2)))\<rparr>\<rparr>"
    by (auto simp: bump_target_stmt_def)
  ultimately show thesis using that p c w' by simp
qed

lemma source_publishers_ids:
  assumes "uuid_codec E"
  shows "p \<in> set (source_publishers E src) \<Longrightarrow> pg_uuid E (ip_id p) \<noteq> None"
    and "distinct (map sp_id (so_publishers src)) \<Longrightarrow>
      distinct (map (\<lambda>p. pg_uuid E (ip_id p)) (source_publishers E src))"
proof -
  have "map (\<lambda>p. pg_uuid E (ip_id p)) (source_publishers E src) = map (Some \<circ> sp_id) (sort_key sp_created_at (so_publishers src))"
    by (simp add: source_publishers_def scan_source_publisher_def uuid_codecD(1) [OF assms])
  moreover have "distinct (map (Some \<circ> sp_id) (sort_key sp_created_at (so_publishers src)))"
    if "distinct (map sp_id (so_publishers src))"
    using that by (simp add: distinct_map comp_inj_on)
  ultimately show "distinct (map sp_id (so_publishers src)) \<Longrightarrow>
      distinct (map (\<lambda>p. pg_uuid E (ip_id p)) (source_publishers E src))" by simp
  show "p \<in> set (source_publishers E src) \<Longrightarrow> pg_uuid E (ip_id p) \<noteq> None"
    by (auto simp: source_publishers_def scan_source_publisher_def uuid_codecD(1) [OF assms])
qed

lemma placed_kept:
  "kept_rows d d' \<Longrightarrow> placed E C p d \<Longrightarrow> placed E C p (d'\<lparr>tg_store := (tg_store d')\<lparr>t_revision := n\<rparr>\<rparr>)"
  by (simp add: placed_def kept_rows_def tenant_with_def publisher_with_def acts_for_def admin_roles_def)

lemma run_places:
  assumes "uuid_codec E" and "core_laws E C" and "sane w" and "distinct (map sp_id (so_publishers src))"
    and "import_run E C src False w = (Inr r, w')" and "p \<in> set (source_publishers E src)"
  shows "placed E C p (im_target w')"
  using assms(5)
proof (cases rule: run_parts)
  case (1 w0 r1 w1 w2)
  from import_publishers_ok [OF assms(1,2) 1(2) [OF assms(3)] 1(3) source_publishers_ids(2) [OF assms(1,4)]
      source_publishers_ids(1) [OF assms(1)] assms(6)]
  have "placed E C p (im_target w1)" .
  from placed_kept [OF copied_store_kept this] show ?thesis by (simp add: 1(5) copy_tables_ok(1) [OF assms(1) 1(4)])
qed

text \<open>A registry with one publisher, its app and a version; the platform has a tenant of its slug already.\<close>

definition demo_core :: core_schema where
  "demo_core = \<lparr>cs_lower = (\<lambda>s. s), cs_tenant_roles = (\<lambda>u. [\<lparr>ro_id = u, ro_tenant = u, ro_code = ''admin''\<rparr>])\<rparr>"

definition demo_source_publisher :: source_publisher where
  "demo_source_publisher =
     \<lparr>sp_id = 20, sp_slug = ''maker'', sp_name = ''Maker'', sp_email = ''m@x'', sp_verified = True,
      sp_owner_email = Some ''Boss@X'', sp_owner_tenant_slug = None, sp_created_at = 0\<rparr>"

definition demo_source :: source where
  "demo_source =
     \<lparr>so_publishers = [demo_source_publisher],
      so_apps = [\<lparr>sa_id = ''z'', sa_publisher = 20, sa_slug = ''z'', sa_type = ''module'', sa_name = ''Z'',
        sa_description = [], sa_icon_url = [], sa_category = [], sa_visibility = ''public'',
        sa_created_at = 0, sa_updated_at = 0\<rparr>],
      so_versions = [\<lparr>sv_id = 30, sv_app = ''z'', sv_version = ''1'', sv_channel = ''stable'',
        sv_min_platform = ''>=0.1.0'', sv_manifest = JArr [JStr ''z'', JStr ''1''], sv_status = ''published'',
        sv_submitted_by = [], sv_note = [], sv_published_at = Some 0, sv_created_at = 0\<rparr>],
      so_texts = [], so_externals = [], so_events = []\<rparr>"

definition demo_importing :: importing where
  "demo_importing =
     \<lparr>im_target =
        \<lparr>tg_store = demo_db, tg_event_ids = [],
         tg_tenants = [\<lparr>tn_id = 7, tn_slug = ''maker'', tn_name = ''Somebody else''\<rparr>], tg_users = [],
         tg_memberships = [], tg_roles = [\<lparr>ro_id = 8, ro_tenant = 7, ro_code = ''admin''\<rparr>],
         tg_membership_roles = []\<rparr>,
      im_now = 0, im_sched = [], im_next = 50, im_broken = False\<rparr>"

lemma demo_core_laws: "core_laws demo_env demo_core"
  by (simp add: core_laws_def demo_core_def)

lemma demo_sane: "sane demo_importing"
  by (simp add: sane_def demo_importing_def demo_db_def empty_db_def)

lemma demo_source_ids: "distinct (map sp_id (so_publishers demo_source))"
  by (simp add: demo_source_def)

lemma demo_imported:
  "\<exists>r w1 r' w2. import_run demo_env demo_core demo_source False demo_importing = (Inr r, w1)
    \<and> import_run demo_env demo_core demo_source False w1 = (Inr r', w2)"
proof -
  have "case import_run demo_env demo_core demo_source False demo_importing of (Inl e, w1) \<Rightarrow> False
      | (Inr r, w1) \<Rightarrow> (case fst (import_run demo_env demo_core demo_source False w1) of Inl e \<Rightarrow> False | Inr r' \<Rightarrow> True)"
    by code_simp
  then show ?thesis by (auto split: prod.splits sum.splits) (metis prod.collapse)
qed

text \<open>
  C33: a dry run is a rehearsal. It writes nothing, and neither does a run that fails, wherever it
  fails; what a run reports, a dry run from the same state reports, and what a dry run reports, a
  run reports unless its commit fails.
\<close>

theorem dry_run_is_rehearsal:
  "im_target (snd (import_main E C src from_url to_url True w)) = im_target w
   \<and> (\<forall>e. fst (import_run E C src False w) = Inl e \<longrightarrow> im_target (snd (import_run E C src False w)) = im_target w)
   \<and> (\<forall>r. fst (import_run E C src False w) = Inr r \<longrightarrow> fst (import_run E C src True w) = Inr r)
   \<and> (\<forall>r. fst (import_run E C src True w) = Inr r \<longrightarrow>
        fst (import_run E C src False w) \<in> {Inr r, Inl (ErrMsg ''commit'')})"
proof -
  have dry: "im_target (snd (import_run E C src True v)) = im_target v" for v
    by (auto simp: import_run_def called_def split: prod.split sum.split)
  have "im_target (snd (andthen (wrapped what (source_call ())) (\<lambda>_. wrapped what' (source_call ())) w)) = im_target w"
    for what what'
    by (auto simp: andthen_def wrapped_def attempt_def source_call_def called_def split: prod.splits sum.splits if_splits)
  then have "im_target (snd (import_main E C src from_url to_url True w)) = im_target w"
    using dry by (auto simp: import_main_def Let_def split: prod.splits sum.splits) (metis snd_conv)+
  then show ?thesis
    by (auto simp: import_run_def called_def split: prod.splits sum.splits if_splits)
qed

theorem dry_run_is_rehearsal_witness:
  "\<exists>r. fst (import_run demo_env demo_core demo_source True demo_importing) = Inr r"
proof -
  from demo_imported obtain r w1 where i: "import_run demo_env demo_core demo_source False demo_importing = (Inr r, w1)" by blast
  from dry_run_is_rehearsal [of demo_env demo_core demo_source "[]" "[]" demo_importing, THEN conjunct2, THEN conjunct2,
      THEN conjunct1] have "fst (import_run demo_env demo_core demo_source True demo_importing) = Inr r"
    by (simp add: i)
  then show ?thesis by (rule exI)
qed

text \<open>
  C34: somebody can act for every publisher. After an import a publisher is in the store as it was
  in the source, under the tenant with its slug, and the person with its owner's address is a member
  of that tenant with all its admin roles. If the platform had a tenant of that slug before, whoever
  it belongs to, it is that tenant.
\<close>

theorem owners_can_act:
  assumes "uuid_codec E" and "core_laws E C" and "sane w" and "distinct (map sp_id (so_publishers src))"
    and "import_run E C src False w = (Inr r, w')" and "sp \<in> set (so_publishers src)" and "sp_slug sp \<noteq> []"
  shows "\<exists>tn row. tenant_with (sp_slug sp) (im_target w') = Some tn
    \<and> (\<forall>old. tenant_with (sp_slug sp) (im_target w) = Some old \<longrightarrow> tn = old)
    \<and> publisher_with (sp_id sp) (im_target w') = Some row \<and> pub_tenant row = tn_id tn
    \<and> pub_slug row = sp_slug sp \<and> pub_name row = sp_name sp \<and> pub_email row = sp_email sp
    \<and> pub_verified row = sp_verified sp
    \<and> (\<forall>email. sp_owner_email sp = Some email \<longrightarrow> email \<noteq> [] \<longrightarrow> acts_for E C email (tn_id tn) (im_target w'))"
proof -
  let ?p = "scan_source_publisher E sp"
  have p: "?p \<in> set (source_publishers E src)" using assms(6) by (simp add: source_publishers_def)
  have u: "pg_uuid E (ip_id ?p) = Some (sp_id sp)" and s: "slug_of ?p = sp_slug sp"
    using assms(7) by (simp_all add: scan_source_publisher_def uuid_codecD(1) [OF assms(1)] slug_of_def)
  from run_places [OF assms(1-5) p] obtain tn row where tn: "tenant_with (sp_slug sp) (im_target w') = Some tn"
    and row: "publisher_with (sp_id sp) (im_target w') = Some row" "pub_tenant row = tn_id tn" "pub_slug row = ip_slug ?p"
      "pub_name row = ip_name ?p" "pub_email row = ip_email ?p" "pub_verified row = ip_verified ?p"
    and a: "ip_owner_email ?p \<noteq> [] \<longrightarrow> acts_for E C (ip_owner_email ?p) (tn_id tn) (im_target w')"
    unfolding placed_def u s by auto
  have "tn = old" if old: "tenant_with (sp_slug sp) (im_target w) = Some old" for old
    using assms(5)
  proof (cases rule: run_parts)
    case (1 w0 r1 w1 w2)
    have "leads (grows_by UNIV) (import_publishers E C (source_publishers E src) empty_report)"
      using source_publishers_ids(1) [OF assms(1)] by (intro grows_publishers [OF assms(2)]) auto
    from leadsD [OF this 1(3)] 1(2) [OF assms(3)] have "grown UNIV (im_target w0) (im_target w1)"
      by (simp add: grows_by_def)
    from tenant_with_grown [OF this] old 1(1) have "tenant_with (sp_slug sp) (im_target w1) = Some old" by simp
    with copied_store_kept [of "im_target w1" E src] copy_tables_ok(1) [OF assms(1) 1(4)] 1(5) tn show ?thesis
      by (simp add: tenant_with_def kept_rows_def)
  qed
  with tn row a show ?thesis by (auto simp: scan_source_publisher_def)
qed

theorem owners_can_act_witness:
  "\<exists>r w1. import_run demo_env demo_core demo_source False demo_importing = (Inr r, w1)
     \<and> tenant_with ''maker'' (im_target w1) = Some \<lparr>tn_id = 7, tn_slug = ''maker'', tn_name = ''Somebody else''\<rparr>
     \<and> acts_for demo_env demo_core ''Boss@X'' 7 (im_target w1)"
proof -
  from demo_imported obtain r w1 where i: "import_run demo_env demo_core demo_source False demo_importing = (Inr r, w1)" by blast
  have "demo_source_publisher \<in> set (so_publishers demo_source)" and "sp_slug demo_source_publisher \<noteq> []"
    by (simp_all add: demo_source_def demo_source_publisher_def)
  from owners_can_act [OF demo_codec demo_core_laws demo_sane demo_source_ids i this] i show ?thesis
    by (auto simp: demo_source_publisher_def tenant_with_def demo_importing_def)
qed

text \<open>The tables of the store that the publishers' import leaves alone.\<close>

definition store_rest where
  "store_rest d = ((tg_store d)\<lparr>t_publishers := []\<rparr>, tg_event_ids d)"

text \<open>A table none of the statements writes.\<close>

definition same :: "(target \<Rightarrow> 'a) \<Rightarrow> importing \<Rightarrow> importing \<Rightarrow> bool" where
  "same f w w' \<longleftrightarrow> f (im_target w') = f (im_target w)"

interpretation frame: import_relation "same f" for f :: "target \<Rightarrow> 'a"
  by unfold_locales (simp_all add: same_def called_def)

lemma publishers_leave: "leads (same store_rest) (import_publishers E C ps r)"
  unfolding tenant_by_slug_def user_by_email_def
  by (intro frame.leads_publishers frame.leads_publisher; (unfold tenant_by_slug_def user_by_email_def)?;
      rule frame.leads_tx;
      auto simp: same_def store_rest_def called_def insert_tenant_stmt_def insert_user_stmt_def membership_stmt_def
        grant_admin_stmt_def write_publisher_stmt_def Let_def split: option.splits if_splits)

text \<open>A run that goes through, as a function of the tables it starts from and the publishers it has written.\<close>

lemma run_effect:
  assumes "uuid_codec E" and "import_run E C src False w = (Inr r, w')"
  shows "\<exists>v. tg_store (im_target w') = (tg_store (copied_store E src (im_target w)))
      \<lparr>t_publishers := v, t_revision := map_option (\<lambda>n. n + 1) (t_revision (tg_store (im_target w)))\<rparr>"
    and "rp_apps r = length (so_apps src) \<and> rp_versions r = length (so_versions src)
      \<and> rp_texts r = length (so_texts src) \<and> rp_externals r = length (so_externals src)
      \<and> rp_events r = length (so_events src)"
proof -
  from run_parts [OF assms(2)] obtain w0 r1 w1 w2 where w0: "im_target w0 = im_target w"
    and p: "import_publishers E C (source_publishers E src) empty_report w0 = (Inr r1, w1)"
    and c: "copy_tables E src r1 w1 = (Inr r, w2)"
    and w': "im_target w' = (im_target w2)\<lparr>tg_store := (tg_store (im_target w2))
      \<lparr>t_revision := map_option (\<lambda>n. n + 1) (t_revision (tg_store (im_target w2)))\<rparr>\<rparr>"
    by metis
  from publishers_leave [THEN leadsD, OF p] have "store_rest (im_target w1) = store_rest (im_target w)"
    by (simp add: same_def w0)
  then obtain v where "tg_store (im_target w1) = (tg_store (im_target w))\<lparr>t_publishers := v\<rparr>"
    and "tg_event_ids (im_target w1) = tg_event_ids (im_target w)"
    by (cases "tg_store (im_target w1)", cases "tg_store (im_target w)", simp add: store_rest_def)
  then show "\<exists>v. tg_store (im_target w') = (tg_store (copied_store E src (im_target w)))
      \<lparr>t_publishers := v, t_revision := map_option (\<lambda>n. n + 1) (t_revision (tg_store (im_target w)))\<rparr>"
    by (intro exI [of _ v], cases "tg_store (im_target w)")
      (simp add: w' copy_tables_ok(1) [OF assms(1) c] copied_store_def more_defs)
  show "rp_apps r = length (so_apps src) \<and> rp_versions r = length (so_versions src)
      \<and> rp_texts r = length (so_texts src) \<and> rp_externals r = length (so_externals src)
      \<and> rp_events r = length (so_events src)"
    by (simp add: copy_tables_ok(2) [OF assms(1) c])
qed

text \<open>The primary keys of the source's tables.\<close>

definition source_keyed :: "source \<Rightarrow> bool" where
  "source_keyed src \<longleftrightarrow> distinct (map sp_id (so_publishers src)) \<and> distinct (map sa_id (so_apps src))
     \<and> distinct (map sv_id (so_versions src)) \<and> distinct (map text_key (so_texts src))
     \<and> distinct (map ex_app (so_externals src)) \<and> distinct (map se_id (so_events src))"

text \<open>
  C35: an import brings exactly what is missing. To each of the store's tables that are copied it
  appends the rows of the source whose key the table does not have, as they are and, where the tool
  reads them in order, in the order in which they were made; a row that is there stays as it is. No
  platform, grant or cached document changes, and the revision moves by one. The report counts the
  rows of the source, also those that were there before.
\<close>

theorem import_copies_rows:
  assumes "uuid_codec E" and "source_keyed src" and "import_run E C src False w = (Inr r, w')"
  defines "d \<equiv> tg_store (im_target w)" and "d' \<equiv> tg_store (im_target w')"
  shows "t_apps d' = t_apps d @ map (copied_app E)
        (filter (\<lambda>r. sa_id r \<notin> app_id ` set (t_apps d)) (sort_key sa_created_at (so_apps src)))
    \<and> t_versions d' = t_versions d @ map (\<lambda>r. copied_version E r (sv_id r))
        (filter (\<lambda>r. sv_id r \<notin> ver_id ` set (t_versions d)) (sort_key sv_created_at (so_versions src)))
    \<and> t_texts d' = t_texts d @ filter (\<lambda>r. text_key r \<notin> text_key ` set (t_texts d)) (so_texts src)
    \<and> t_externals d' = t_externals d @ filter (\<lambda>r. ex_app r \<notin> ex_app ` set (t_externals d)) (so_externals src)
    \<and> t_events d' = t_events d @ map copied_event
        (filter (\<lambda>r. se_id r \<notin> set (tg_event_ids (im_target w))) (sort_key se_created_at (so_events src)))
    \<and> t_platforms d' = t_platforms d \<and> t_grants d' = t_grants d \<and> t_private d' = t_private d
    \<and> t_snapshots d' = t_snapshots d \<and> t_revision d' = map_option (\<lambda>n. n + 1) (t_revision d)
    \<and> rp_apps r = length (so_apps src) \<and> rp_versions r = length (so_versions src)
    \<and> rp_texts r = length (so_texts src) \<and> rp_externals r = length (so_externals src)
    \<and> rp_events r = length (so_events src)"
proof -
  from run_effect(1) [OF assms(1,3)] obtain v where "d' = (tg_store (copied_store E src (im_target w)))
      \<lparr>t_publishers := v, t_revision := map_option (\<lambda>n. n + 1) (t_revision d)\<rparr>"
    unfolding d_def d'_def by blast
  with assms(2) run_effect(2) [OF assms(1,3)] show ?thesis
    by (simp add: d_def copied_store_def more_defs unheld_distinct distinct_sort_key source_keyed_def)
qed

theorem import_copies_rows_witness:
  "\<exists>r w1. import_run demo_env demo_core demo_source False demo_importing = (Inr r, w1)
     \<and> last (t_apps (tg_store (im_target w1))) = copied_app demo_env (hd (so_apps demo_source)) \<and> rp_versions r = 1"
proof -
  from demo_imported obtain r w1 where i: "import_run demo_env demo_core demo_source False demo_importing = (Inr r, w1)" by blast
  have "source_keyed demo_source" by (simp add: source_keyed_def demo_source_def)
  from import_copies_rows [OF demo_codec this i] i show ?thesis
    by (simp add: demo_source_def demo_importing_def demo_db_def empty_db_def demo_app_def demo_version_def)
qed

text \<open>
  C39: an import does not bring a decision. A version the platform has already, imported before or
  made here, stays as it is, whatever has been decided about it in the source since; but the events
  of that decision are new and are copied, so the trail then tells of a decision the version does
  not show.
\<close>

theorem import_brings_no_decision:
  assumes "uuid_codec E" and "source_keyed src" and "wf_db n (tg_store (im_target w))"
    and "import_run E C src False w = (Inr r, w')"
    and "v \<in> set (t_versions (tg_store (im_target w)))" and "e \<in> set (so_events src)"
    and "se_version e = ver_id v" and "se_id e \<notin> set (tg_event_ids (im_target w))"
  shows "(\<forall>v'\<in>set (t_versions (tg_store (im_target w'))). ver_id v' = ver_id v \<longleftrightarrow> v' = v)
    \<and> v \<in> set (t_versions (tg_store (im_target w')))
    \<and> (\<exists>old new. t_events (tg_store (im_target w')) = t_events (tg_store (im_target w)) @ old @ copied_event e # new
         \<and> ev_version (copied_event e) = ver_id v)"
proof -
  from run_effect(1) [OF assms(1,4)]
  have v: "t_versions (tg_store (im_target w')) = t_versions (tg_store (im_target w)) @ map (\<lambda>r. copied_version E r (sv_id r))
        (filter (\<lambda>r. sv_id r \<notin> ver_id ` set (t_versions (tg_store (im_target w)))) (sort_key sv_created_at (so_versions src)))"
    and e: "t_events (tg_store (im_target w')) = t_events (tg_store (im_target w)) @ map copied_event
        (filter (\<lambda>r. se_id r \<notin> set (tg_event_ids (im_target w))) (sort_key se_created_at (so_events src)))"
    using assms(2) by (auto simp: copied_store_def more_defs unheld_distinct distinct_sort_key source_keyed_def)
  have "v' = v" if "v' \<in> set (t_versions (tg_store (im_target w')))" and "ver_id v' = ver_id v" for v'
    using that assms(5) wf_dbD(3) [OF assms(3)]
    by (auto simp: v wf_versions_def copied_version_def distinct_map inj_on_def image_iff)
  moreover have "e \<in> set (filter (\<lambda>r. se_id r \<notin> set (tg_event_ids (im_target w))) (sort_key se_created_at (so_events src)))"
    using assms(6,8) by simp
  from split_list [OF this] have "\<exists>old new. t_events (tg_store (im_target w')) =
      t_events (tg_store (im_target w)) @ old @ copied_event e # new"
    unfolding e by fastforce
  ultimately show ?thesis using assms(5,7) by (auto simp: v copied_event_def)
qed

text \<open>The registry has published, since the import, a version that waits for review on the platform.\<close>

definition decided_source :: source where
  "decided_source = demo_source
     \<lparr>so_versions := [\<lparr>sv_id = 5, sv_app = ''a'', sv_version = ''3'', sv_channel = ''stable'',
        sv_min_platform = ''>=0.1.0'', sv_manifest = JArr [JStr ''a'', JStr ''3''], sv_status = ''published'',
        sv_submitted_by = [], sv_note = [], sv_published_at = Some 0, sv_created_at = 0\<rparr>],
      so_events := [\<lparr>se_id = 40, se_version = 5, se_actor = ''r@x'', se_action = ''publish'', se_note = [],
        se_created_at = 0\<rparr>]\<rparr>"

theorem import_brings_no_decision_witness:
  "\<exists>w1 f. (\<exists>r. import_run demo_env demo_core decided_source False demo_importing = (Inr r, w1))
     \<and> demo_version 5 ''a'' ''3'' ''in_review'' None \<in> set (t_versions (tg_store (im_target w1)))
     \<and> f \<in> set (t_events (tg_store (im_target w1))) \<and> ev_version f = 5 \<and> ev_action f = ''publish''"
proof -
  have "case fst (import_run demo_env demo_core decided_source False demo_importing) of Inl e \<Rightarrow> False | Inr r \<Rightarrow> True"
    by code_simp
  then obtain r w1 where i: "import_run demo_env demo_core decided_source False demo_importing = (Inr r, w1)"
    by (cases "import_run demo_env demo_core decided_source False demo_importing") (auto split: sum.splits)
  have k: "source_keyed decided_source" by (simp add: source_keyed_def decided_source_def demo_source_def)
  have w: "wf_db 9 (tg_store (im_target demo_importing))" using demo_wf by (simp add: demo_importing_def)
  have v: "demo_version 5 ''a'' ''3'' ''in_review'' None \<in> set (t_versions (tg_store (im_target demo_importing)))"
    by (simp add: demo_importing_def demo_db_def)
  have e: "hd (so_events decided_source) \<in> set (so_events decided_source)" by (simp add: decided_source_def)
  from import_brings_no_decision [OF demo_codec k w i v e] i show ?thesis
    by (fastforce simp: decided_source_def demo_version_def demo_importing_def copied_event_def)
qed

text \<open>
  C40: an import can be run again. A second import of the same source, after one that went through,
  changes no person and no row of the store: publishers are written again as they are, with the time
  of the second run, and the revision moves. It makes no tenant, user or membership, and says so.
\<close>

theorem import_twice:
  assumes "uuid_codec E" and "core_laws E C" and "sane w" and "distinct (map sp_id (so_publishers src))"
    and "import_run E C src False w = (Inr r, w1)" and "im_target w2 = im_target w1"
    and "import_run E C src False w2 = (Inr r', w3)"
  shows "tg_tenants (im_target w3) = tg_tenants (im_target w1) \<and> tg_users (im_target w3) = tg_users (im_target w1)
    \<and> tg_memberships (im_target w3) = tg_memberships (im_target w1)
    \<and> tg_membership_roles (im_target w3) = tg_membership_roles (im_target w1)
    \<and> tg_event_ids (im_target w3) = tg_event_ids (im_target w1)
    \<and> (\<exists>v n. tg_store (im_target w3) = (tg_store (im_target w1))\<lparr>t_publishers := v, t_revision := n\<rparr>
         \<and> map unstamped v = map unstamped (t_publishers (tg_store (im_target w1))))
    \<and> rp_tenants r' = 0 \<and> rp_users r' = 0 \<and> rp_memberships r' = 0"
  using assms(7)
proof (cases rule: run_parts)
  case (1 v0 r1 v1 v2)
  have v0: "im_target v0 = im_target w1" using 1(1) assms(6) by simp
  have "placed E C p (im_target v0)" if "p \<in> set (source_publishers E src)" for p
    unfolding v0 using run_places [OF assms(1-5) that] .
  moreover have "distinct (map pub_id (t_publishers (tg_store (im_target v0)))) \<and> all_there src (im_target v0)"
    using assms(5)
  proof (cases rule: run_parts)
    case (1 u0 q1 u1 u2)
    have "leads (grows_by UNIV) (import_publishers E C (source_publishers E src) empty_report)"
      using source_publishers_ids(1) [OF assms(1)] by (intro grows_publishers [OF assms(2)]) auto
    from leadsD [OF this 1(3)] 1(2) [OF assms(3)] have "sane u1" by (simp add: grows_by_def)
    with copied_store_kept [of "im_target u1" E src] copied_store_all [of src E "im_target u1"]
      copy_tables_ok(1) [OF assms(1) 1(4)] show ?thesis
      by (simp add: v0 1(5) sane_def kept_rows_def all_there_def)
  qed
  ultimately have p: "restamped (im_target v0) (im_target v1)" "rp_tenants r1 = 0" "rp_users r1 = 0" "rp_memberships r1 = 0"
    and there: "all_there src (im_target v0)"
    using rerun_publishers [OF assms(1,2) _ _ 1(3)] by (auto simp: empty_report_def)
  from p(1) obtain v where v: "im_target v1 = (im_target v0)\<lparr>tg_store := (tg_store (im_target v0))\<lparr>t_publishers := v\<rparr>\<rparr>"
    "map unstamped v = map unstamped (t_publishers (tg_store (im_target v0)))"
    by (auto simp: restamped_def)
  with there have "all_there src (im_target v1)" by (simp add: all_there_def)
  with copy_tables_ok [OF assms(1) 1(4)] copied_store_again have "im_target v2 = im_target v1"
    and "rp_tenants r' = rp_tenants r1" "rp_users r' = rp_users r1" "rp_memberships r' = rp_memberships r1"
    by simp_all
  with p v v0 1(5) show ?thesis by auto
qed

theorem import_twice_witness:
  "\<exists>r w1 r' w2. import_run demo_env demo_core demo_source False demo_importing = (Inr r, w1)
     \<and> import_run demo_env demo_core demo_source False w1 = (Inr r', w2)
     \<and> tg_tenants (im_target w2) = tg_tenants (im_target w1) \<and> rp_users r' = 0"
proof -
  from demo_imported obtain r w1 r' w2 where i: "import_run demo_env demo_core demo_source False demo_importing = (Inr r, w1)"
    "import_run demo_env demo_core demo_source False w1 = (Inr r', w2)" by blast
  from import_twice [OF demo_codec demo_core_laws demo_sane demo_source_ids i(1) refl i(2)]
  have "tg_tenants (im_target w2) = tg_tenants (im_target w1)" and "rp_users r' = 0" by simp_all
  with i show ?thesis by blast
qed

text \<open>
  No document cached before an import is served for what is in the store after it. However an
  import ends, every document the public cache holds for the present revision is the one the tables
  call for; one that goes through has moved the revision by one.
\<close>

lemma import_keeps_cache:
  assumes "uuid_codec E" and "public_ok E s (tg_store (im_target w))"
  shows "public_ok E s (tg_store (im_target (snd (import_run E C src dry w))))
    \<and> (\<forall>r. fst (import_run E C src False w) = Inr r \<longrightarrow>
         t_revision (tg_store (im_target (snd (import_run E C src False w)))) =
           map_option (\<lambda>n. n + 1) (t_revision (tg_store (im_target w))))"
proof (cases "fst (import_run E C src False w)")
  case (Inl e)
  have "im_target (snd (import_run E C src dry w)) = im_target w"
    using Inl by (cases dry) (auto simp: import_run_def called_def split: if_splits prod.splits sum.splits)
  with assms Inl show ?thesis by simp
next
  case (Inr r)
  then obtain w' where run: "import_run E C src False w = (Inr r, w')" by (metis prod.collapse)
  from run_effect(1) [OF assms(1) run]
  have "t_revision (tg_store (im_target w')) = map_option (\<lambda>n. n + 1) (t_revision (tg_store (im_target w)))
      \<and> t_snapshots (tg_store (im_target w')) = t_snapshots (tg_store (im_target w))"
    by (auto simp: copied_store_def more_defs)
  moreover from this have "public_ok E s (tg_store (im_target w'))"
    using public_ok_step [OF bumped_step assms(2)] by simp
  moreover have "im_target (snd (import_run E C src True w)) = im_target w"
    by (auto simp: import_run_def called_def split: prod.split sum.split)
  ultimately show ?thesis using assms run by (cases dry) simp_all
qed

end
