(* ===== verification/Lifetime.thy ===== *)
theory Lifetime
  imports ImportTables ImportSpec Interleaving
begin

text \<open>
  The life of a registry: the service handles overlapping requests, and now and then an import
  brings another registry's data into the same database while it runs. An import is one
  transaction, so to the service it is one step. What the overlaps keep, the imports keep as well.
\<close>

section \<open>Service and imports\<close>

text \<open>
  In a step of \<open>life\<close> the service makes a step, or an import runs, to whatever end: from the tables
  and the identifiers as they are, with any people and any schedule of its own.
\<close>

inductive life ::
  "env \<Rightarrow> core_schema \<Rightarrow> module \<Rightarrow> signer \<Rightarrow> (call \<Rightarrow> bool) \<Rightarrow> world \<times> job list \<Rightarrow> world \<times> job list \<Rightarrow> bool"
  for E C m s admits where
  served: "flow E m s admits x y \<Longrightarrow> life E C m s admits x y"
| imported: "tg_store (im_target v) = tables w \<Longrightarrow> im_next v = next_uuid w \<Longrightarrow>
     source_in_order (next_uuid w) src \<Longrightarrow> import_run E C src dry v = (res, v') \<Longrightarrow>
     life E C m s admits (w, jobs) (w\<lparr>tables := tg_store (im_target v'), next_uuid := im_next v'\<rparr>, jobs)"

inductive lifetime ::
  "env \<Rightarrow> core_schema \<Rightarrow> module \<Rightarrow> signer \<Rightarrow> (call \<Rightarrow> bool) \<Rightarrow> world \<times> job list \<Rightarrow> bool"
  for E C m s admits where
  opens: "tables w = empty_db \<Longrightarrow> tx_start w = None \<Longrightarrow> lifetime E C m s admits (w, [])"
| lives: "lifetime E C m s admits x \<Longrightarrow> life E C m s admits x y \<Longrightarrow> lifetime E C m s admits y"

lemma overlapping_lifetime: "overlapping E m s admits x \<Longrightarrow> lifetime E C m s admits x"
  by (induction rule: overlapping.induct) (auto intro: lifetime.intros life.served)

section \<open>What an import does to the tables the modules read\<close>

lemma import_outcome:
  "import_run E C src dry w = (res, w') \<Longrightarrow>
     im_target w' = im_target w \<or> (\<exists>r. import_run E C src False w = (Inr r, w'))"
  by (cases dry) (auto simp: import_run_def called_def split: if_splits prod.splits sum.splits)

lemma import_tables:
  assumes "uuid_codec E" and "import_run E C src dry w = (res, w')"
  defines "d \<equiv> tg_store (im_target w)" and "d' \<equiv> tg_store (im_target w')"
  shows "public_step d d'" and "trail_kept d d'" and "owners_kept d d'"
proof -
  have "public_step d d' \<and> trail_kept d d' \<and> owners_kept d d'"
  proof (cases "im_target w' = im_target w")
    case True
    then show ?thesis
      by (simp add: d_def d'_def public.R_refl trail_kept_def owners_kept_def)
  next
    case False
    with import_outcome [OF assms(2)] obtain r where "import_run E C src False w = (Inr r, w')" by blast
    from run_effect(1) [OF assms(1) this] show ?thesis
      by (auto simp: d_def d'_def copied_store_def more_defs trail_kept_def owners_kept_def intro!: bumped_step)
  qed
  then show "public_step d d'" and "trail_kept d d'" and "owners_kept d d'" by simp_all
qed

section \<open>What a life keeps\<close>

lemma life_wf:
  assumes "uuid_codec E" and "life E C m s admits x y" and "wf_db (next_uuid (fst x)) (tables (fst x))"
  shows "wf_db (next_uuid (fst y)) (tables (fst y))"
  using assms(2)
proof (cases rule: life.cases)
  case served
  with flow_invariant [OF wf_run.statement_closed_axioms assms(1) _ r_into_rtranclp] assms(3) show ?thesis
    by (simp add: holds_def)
next
  case (imported v w src dry res v' jobs)
  with import_keeps_tables(1) [OF assms(1) _ _ imported(6)] assms(3) show ?thesis by simp
qed

lemma life_ok:
  assumes "uuid_codec E" and "m_catalog m = Some s" and "life E C m s admits x y" and "flow_ok E s x"
  shows "flow_ok E s y"
  using assms(3)
proof (cases rule: life.cases)
  case served
  with flow_keeps [OF assms(1,2)] assms(4) show ?thesis by blast
next
  case (imported v w src dry res v' jobs)
  from import_tables(1) [OF assms(1) imported(6)] imported(3)
  have step: "public_step (tables w) (tg_store (im_target v'))" by simp
  have "public_ok E s (tables w)" using assms(4) imported(1) by (auto simp: flow_ok_def)
  from public_ok_step [OF step this] public_rev [OF step] flow_ok_move [of E s w jobs "w\<lparr>tables := tg_store (im_target v'), next_uuid := im_next v'\<rparr>"]
    assms(4) imported(1,2) show ?thesis by simp
qed

text \<open>No event is lost and no app changes hands.\<close>

definition record_kept :: "database \<Rightarrow> database \<Rightarrow> bool" where
  "record_kept d d' \<longleftrightarrow> trail_kept d d' \<and> owners_kept d d'"

lemma record_kept_refl: "record_kept d d"
  by (simp add: record_kept_def trail_kept_def owners_kept_def)

lemma record_kept_trans: "record_kept d1 d2 \<Longrightarrow> record_kept d2 d3 \<Longrightarrow> record_kept d1 d3"
  by (auto simp: record_kept_def trail_kept_def owners_kept_def intro: subset_trans [THEN subsetD])

lemma life_kept:
  assumes "uuid_codec E" and "life E C m s admits x y"
  shows "record_kept (tables (fst x)) (tables (fst y))"
  using assms(2)
proof (cases rule: life.cases)
  case served
  then have f: "(flow E m s admits)\<^sup>*\<^sup>* x y" by blast
  have "trail_kept (tables (fst x)) (tables (fst y))"
    using flow_invariant [OF trail.statement_closed_axioms assms(1) _ f, of "tables (fst x)"]
    by (simp add: trail_kept_def)
  moreover have "owners_kept (tables (fst x)) (tables (fst y))"
    using flow_invariant [OF owners.statement_closed_axioms assms(1) _ f, of "tables (fst x)"]
    by (simp add: owners_kept_def)
  ultimately show ?thesis by (simp add: record_kept_def)
next
  case (imported v w src dry res v' jobs)
  with import_tables(2,3) [OF assms(1) imported(6)] show ?thesis by (simp add: record_kept_def)
qed

lemma lifetime_wf:
  assumes "uuid_codec E" and "lifetime E C m s admits x"
  shows "wf_db (next_uuid (fst x)) (tables (fst x))"
  using assms(2) by induction (simp add: wf_empty, rule life_wf [OF assms(1)])

lemma lifetime_ok:
  assumes "uuid_codec E" and "m_catalog m = Some s" and "lifetime E C m s admits x"
  shows "flow_ok E s x"
  using assms(3)
proof induction
  case (opens w)
  then have "flow_ok E s (w, [])"
    by (intro overlapping_ok [OF assms(1,2)] overlapping.started)
  then show ?case .
next
  case (lives x y)
  then show ?case using life_ok [OF assms(1,2)] by blast
qed

section \<open>Properties\<close>

text \<open>
  C14: history stands. However requests and their calls are interleaved, whichever calls fail, and
  whatever is imported in between, no recorded review event is changed, removed or reordered, and no
  app is removed or goes over to another publisher.
\<close>

theorem history_kept:
  assumes "uuid_codec E" and "(life E C m s admits)\<^sup>*\<^sup>* (w, jobs) (w', jobs')"
  shows "(\<exists>es. t_events (tables w') = t_events (tables w) @ es)
    \<and> (\<forall>a\<in>set (t_apps (tables w)). \<exists>a'\<in>set (t_apps (tables w')). app_id a' = app_id a \<and> app_publisher a' = app_publisher a)"
proof -
  from assms(2) have "record_kept (tables (fst (w, jobs))) (tables (fst (w', jobs')))"
    by (induction rule: rtranclp_induct) (auto intro: record_kept_refl record_kept_trans life_kept [OF assms(1)])
  then show ?thesis unfolding record_kept_def trail_kept_def owners_kept_def by fastforce
qed

theorem history_kept_witness:
  "\<exists>es. t_events (tables (operate demo_env (DecideOp ''xxxxxx'' ''publish'' ''xx'' ''r@x'' []) demo_world)) =
     t_events (tables demo_world) @ es"
proof -
  have "(life demo_env demo_core demo_module demo_signer (\<lambda>_. True))\<^sup>*\<^sup>* (demo_world, [])
      (operate demo_env (DecideOp ''xxxxxx'' ''publish'' ''xx'' ''r@x'' []) demo_world, [])"
    by (rule r_into_rtranclp) (intro life.served flow.operated)
  from history_kept [OF demo_codec this] show ?thesis by blast
qed

text \<open>
  C30: overlapping requests cannot make the public catalogue stale. However the calls of any number
  of requests for the catalogue, all other requests and their operations are interleaved,
  whichever of the calls fail, and whatever is imported while they are under way: the document an anonymous request has been answered with is no older
  than the request, and is the one the tables call for as long as its revision is the present one;
  and so is every document the public cache holds for the present revision.
\<close>

theorem overlap_serves_current:
  assumes "uuid_codec E" and "m_catalog m = Some s" and "lifetime E C m s admits (w, jobs)"
    and "j \<in> set jobs" and "jb_progress j = Answered (Inr (b, aud))" and "anonymous aud"
  shows "jb_since j \<le> ss_revision b
    \<and> (t_revision (tables w) = Some (ss_revision b) \<longrightarrow>
        build_pure E s (as_channel (jb_asked j)) (as_platform (jb_asked j)) (ss_revision b) no_audience (tables w) = Inr b)
    \<and> (\<forall>channel platform h. load_public (channel, platform) (tables w) = Some h \<longrightarrow>
        t_revision (tables w) = Some (ss_revision h) \<longrightarrow>
        build_pure E s channel platform (ss_revision h) no_audience (tables w) = Inr h)"
proof -
  from lifetime_ok [OF assms(1-3)] assms(4-6) obtain c where c: "t_revision (tables w) = Some c"
    and p: "public_ok E s (tables w)" and aud: "proper_audience aud"
    and d: "dated E s (jb_asked j) (jb_since j) c (tables w) aud b"
    unfolding flow_ok_def by fastforce
  from dated_good_public [OF d c aud assms(6)] d have
    "jb_since j \<le> ss_revision b \<and> (t_revision (tables w) = Some (ss_revision b) \<longrightarrow>
        build_pure E s (as_channel (jb_asked j)) (as_platform (jb_asked j)) (ss_revision b) no_audience (tables w) = Inr b)"
    by (simp add: dated_def good_public_def)
  moreover have "good_public E s (tables w) (channel, platform) h"
    if "load_public (channel, platform) (tables w) = Some h" for channel platform h
    using p that unfolding public_ok_def by (rule public_cache.coherentD)
  ultimately show ?thesis by (simp add: good_public_def)
qed

theorem overlap_serves_current_witness:
  "\<exists>w j b. overlapping demo_env demo_module demo_signer (\<lambda>_. True) (w, [j])
    \<and> jb_progress j = Answered (Inr (b, no_audience)) \<and> jb_since j \<le> ss_revision b"
proof -
  let ?q = "asked_of no_request"
  let ?j = "\<lparr>jb_asked = ?q, jb_since = 0, jb_progress = Arrived\<rparr>"
  have ans: "case fst (remaining demo_env demo_signer ?q Arrived boot_world) of
      Inl e \<Rightarrow> False | Inr (b, aud) \<Rightarrow> aud = no_audience"
    by code_simp
  have m: "m_catalog demo_module = Some demo_signer" by (simp add: demo_module_def)
  have rev: "t_revision (tables boot_world) = Some 0" by (simp add: boot_world_def empty_db_def)
  obtain n res w where run: "(advance demo_env demo_signer ?q ^^ n) (Arrived, boot_world) = (Answered res, w)"
    using completes_all unfolding completes_def by blast
  from run_remaining [OF this] have "fst (remaining demo_env demo_signer ?q Arrived boot_world) = res"
    by (metis fst_conv remaining.simps(10) lift_err_apply)
  with ans obtain b where b: "res = Inr (b, no_audience)" by (auto split: sum.splits)
  have "overlapping demo_env demo_module demo_signer (\<lambda>_. True) (boot_world, [])"
    by (rule overlapping.started) (simp_all add: boot_world_def)
  from overlapping.flows [OF this flow.arrives [OF rev, where jobs = "[]" and r = no_request]]
  have "overlapping demo_env demo_module demo_signer (\<lambda>_. True) (boot_world, [?j])" by simp
  moreover have "(flow demo_env demo_module demo_signer (\<lambda>_. True))\<^sup>*\<^sup>* (boot_world, [?j]) (w, [?j\<lparr>jb_progress := Answered res\<rparr>])"
    using run by (intro flow_reaches) (auto simp: reaches_def)
  ultimately have o: "overlapping demo_env demo_module demo_signer (\<lambda>_. True) (w, [?j\<lparr>jb_progress := Answered res\<rparr>])"
    by (rule overlapping_run)
  from overlap_serves_current [OF demo_codec m overlapping_lifetime [OF o], of "?j\<lparr>jb_progress := Answered res\<rparr>" b no_audience] b o show ?thesis
    by (intro exI [of _ w] exI [of _ "?j\<lparr>jb_progress := Answered res\<rparr>"] exI [of _ b])
      (simp add: anonymous_no_audience)
qed

end
