(* ===== verification/ImportCommand.thy ===== *)
theory ImportCommand
  imports ImportSpec
begin

text \<open>
  The import as it is typed: the command line and the environment of
  \<^verbatim>\<open>cmd/appstore-import/main.go\<close>, with the rules of Go's \<^verbatim>\<open>flag\<close> package for them, and what
  they come to. \<^verbatim>\<open>time.ParseDuration\<close> is a parameter; the time-out it gives is not modelled
  further, an expired context being one in which every call fails.
\<close>

section \<open>Go's flags\<close>

record import_flags =
  fl_from :: string
  fl_to :: string
  fl_dry_run :: bool
  fl_timeout :: int

text \<open>The four flags and what they are when they are not given.\<close>

definition default_flags :: "(string \<Rightarrow> string) \<Rightarrow> import_flags" where
  "default_flags getenv =
     \<lparr>fl_from = getenv ''APPSTORE_SOURCE_URL'', fl_to = getenv ''DATABASE_URL'', fl_dry_run = True,
      fl_timeout = 5 * 60 * 1000000000\<rparr>"

definition flag_names :: "string list" where
  "flag_names = [''from'', ''to'', ''dry-run'', ''timeout'']"

definition parse_bool :: "string \<Rightarrow> bool option" where
  "parse_bool s =
     (if s \<in> set [''1'', ''t'', ''T'', ''true'', ''TRUE'', ''True''] then Some True
      else if s \<in> set [''0'', ''f'', ''F'', ''false'', ''FALSE'', ''False''] then Some False
      else None)"

definition set_flag ::
  "(string \<Rightarrow> int option) \<Rightarrow> string \<Rightarrow> string \<Rightarrow> import_flags \<Rightarrow> import_flags option" where
  "set_flag duration name v fl =
     (if name = ''from'' then Some (fl\<lparr>fl_from := v\<rparr>)
      else if name = ''to'' then Some (fl\<lparr>fl_to := v\<rparr>)
      else if name = ''dry-run'' then map_option (\<lambda>b. fl\<lparr>fl_dry_run := b\<rparr>) (parse_bool v)
      else if name = ''timeout'' then map_option (\<lambda>n. fl\<lparr>fl_timeout := n\<rparr>) (duration v)
      else None)"

text \<open>\<open>name=value\<close>, split at the first equals sign that does not begin the text.\<close>

definition cut_value :: "string \<Rightarrow> string \<times> string option" where
  "cut_value s =
     (case s of
        [] \<Rightarrow> ([], None)
      | c # cs \<Rightarrow>
          (case dropWhile (\<lambda>x. x \<noteq> CHR ''='') cs of
             [] \<Rightarrow> (s, None)
           | _ # v \<Rightarrow> (c # takeWhile (\<lambda>x. x \<noteq> CHR ''='') cs, Some v)))"

text \<open>
  One argument: the flags end at the first that is not a flag or is \<^verbatim>\<open>--\<close>; a flag may have one dash
  or two; \<^verbatim>\<open>-dry-run\<close> alone is true and never takes the next argument, the others do.
\<close>

datatype flag_step = More import_flags "string list" | Finished import_flags | Usage | Refused

definition parse_one :: "(string \<Rightarrow> int option) \<Rightarrow> string list \<Rightarrow> import_flags \<Rightarrow> flag_step" where
  "parse_one duration args fl =
     (case args of
        [] \<Rightarrow> Finished fl
      | s # rest \<Rightarrow>
          if length s < 2 \<or> hd s \<noteq> CHR ''-'' \<or> s = ''--'' then Finished fl
          else
            let body = drop (if s ! 1 = CHR ''-'' then 2 else 1) s in
            if body = [] \<or> hd body = CHR ''-'' \<or> hd body = CHR ''='' then Refused
            else
              case cut_value body of (name, given) \<Rightarrow>
                if name \<notin> set flag_names
                then (if name = ''help'' \<or> name = ''h'' then Usage else Refused)
                else
                  let applied = (\<lambda>v rest. case set_flag duration name v fl of
                        None \<Rightarrow> Refused
                      | Some fl' \<Rightarrow> More fl' rest)
                  in case given of
                      Some v \<Rightarrow> applied v rest
                    | None \<Rightarrow>
                        if name = ''dry-run'' then applied ''true'' rest
                        else (case rest of [] \<Rightarrow> Refused | v # rest' \<Rightarrow> applied v rest'))"

lemma parse_one_shrinks: "parse_one duration args fl = More fl' rest \<Longrightarrow> length rest < length args"
  by (auto simp: parse_one_def Let_def split: list.splits if_splits option.splits prod.splits)

function parse_flags :: "(string \<Rightarrow> int option) \<Rightarrow> string list \<Rightarrow> import_flags \<Rightarrow> flag_step" where
  "parse_flags duration args fl =
     (case parse_one duration args fl of
        More fl' rest \<Rightarrow> parse_flags duration rest fl'
      | other \<Rightarrow> other)"
  by pat_completeness auto
termination
  by (relation "measure (\<lambda>(duration, args, fl). length args)") (simp_all add: parse_one_shrinks)

declare parse_flags.simps [simp del]

text \<open>
  The program: what it exits with (2 for a command line it cannot read, 0 for a request for help),
  what it prints and the world it leaves.
\<close>

definition import_command ::
  "env \<Rightarrow> core_schema \<Rightarrow> (string \<Rightarrow> int option) \<Rightarrow> source \<Rightarrow> (string \<Rightarrow> string) \<Rightarrow> string list \<Rightarrow> importing \<Rightarrow>
   (nat \<times> string) \<times> importing" where
  "import_command E C duration src getenv args w =
     (case parse_flags duration args (default_flags getenv) of
        Finished fl \<Rightarrow> import_main E C src (fl_from fl) (fl_to fl) (fl_dry_run fl) w
      | Usage \<Rightarrow> ((0, []), w)
      | _ \<Rightarrow> ((2, []), w))"

section \<open>What the flags come to\<close>

text \<open>An argument that turns the dry run off.\<close>

definition asks_to_write :: "string \<Rightarrow> bool" where
  "asks_to_write a \<longleftrightarrow> list_ex (\<lambda>p. take (length p) a = p \<and> parse_bool (drop (length p) a) = Some False)
     [''-dry-run='', ''--dry-run='']"

lemma cut_value_Some: "cut_value s = (name, Some v) \<Longrightarrow> s = name @ ''='' @ v"
  by (auto simp: cut_value_def dropWhile_eq_Cons_conv split: list.splits)

lemma set_flag_dry_run:
  "set_flag duration name v fl = Some fl' \<Longrightarrow> fl_dry_run fl \<Longrightarrow> \<not> fl_dry_run fl' \<Longrightarrow>
     name = ''dry-run'' \<and> parse_bool v = Some False"
  by (auto simp: set_flag_def split: if_splits)

lemma parse_one_dry_run:
  assumes "parse_one duration args fl = More fl' rest" and "fl_dry_run fl" and "\<not> fl_dry_run fl'"
  shows "\<exists>a\<in>set args. asks_to_write a"
proof -
  from assms(1) obtain s as name given v where args: "args = s # as" and s: "2 \<le> length s" "hd s = CHR ''-''"
    and c: "cut_value (drop (if s ! 1 = CHR ''-'' then 2 else 1) s) = (name, given)"
    and f: "set_flag duration name v fl = Some fl'"
    and v: "given = Some v \<or> given = None \<and> (name = ''dry-run'' \<longrightarrow> v = ''true'')"
    by (auto simp: parse_one_def Let_def not_less split: list.splits if_splits option.splits prod.splits)
  from set_flag_dry_run [OF f assms(2,3)] have n: "name = ''dry-run''" and b: "parse_bool v = Some False" by simp_all
  have "\<not> (name = ''dry-run'' \<longrightarrow> v = ''true'')" using n b by (auto simp: parse_bool_def)
  with v have "given = Some v" by blast
  with c cut_value_Some have d: "drop (if s ! 1 = CHR ''-'' then 2 else 1) s = ''dry-run'' @ ''='' @ v"
    unfolding n by metis
  from s obtain y ys where ys: "s = CHR ''-'' # y # ys" by (cases s; cases "tl s") auto
  with d have "s = ''-dry-run='' @ v \<or> s = ''--dry-run='' @ v" by (cases "y = CHR ''-''") auto
  with b args show ?thesis by (auto simp: asks_to_write_def)
qed

lemma parse_flags_dry_run:
  "parse_flags duration args fl = Finished fl' \<Longrightarrow> fl_dry_run fl \<Longrightarrow> \<not> fl_dry_run fl' \<Longrightarrow>
     \<exists>a\<in>set args. asks_to_write a"
proof (induction duration args fl rule: parse_flags.induct)
  case (1 duration args fl)
  show ?case
  proof (cases "parse_one duration args fl")
    case (More fl1 rest)
    have sub: "set rest \<subseteq> set args"
      using More by (auto simp: parse_one_def Let_def split: list.splits if_splits option.splits prod.splits)
    show ?thesis
    proof (cases "fl_dry_run fl1")
      case True
      with 1 More sub show ?thesis by (auto simp: parse_flags.simps [of duration args fl])
    next
      case False
      with parse_one_dry_run [OF More 1(3)] show ?thesis by simp
    qed
  next
    case (Finished fl1)
    with 1(2-4) have "fl_dry_run fl1 \<noteq> fl_dry_run fl" by (simp add: parse_flags.simps [of duration args fl])
    with Finished show ?thesis
      by (auto simp: parse_one_def Let_def split: list.splits if_splits option.splits prod.splits)
  qed (use 1(2) in \<open>simp_all add: parse_flags.simps [of duration args fl]\<close>)
qed

lemma import_main_writes:
  assumes "import_main E C src from_url to_url dry w = ((status, out), w')" and "im_target w' \<noteq> im_target w"
  shows "status = 0" and "\<not> dry" and "trim_space from_url \<noteq> []" and "trim_space to_url \<noteq> []"
    and "\<exists>r. out = print_report r False"
proof -
  obtain c w1 where c: "andthen (wrapped ''connect to the source'' (source_call ()))
      (\<lambda>_. wrapped ''connect to the target'' (source_call ())) w = (c, w1)" by fastforce
  then have w1: "im_target w1 = im_target w"
    by (auto simp: andthen_def wrapped_def attempt_def source_call_def called_def split: if_splits)
  obtain res w2 where r: "import_run E C src dry w1 = (res, w2)" by fastforce
  then have same: "im_target w2 = im_target w" if "dry \<or> (\<exists>e. res = Inl e)"
    using that w1 by (auto simp: import_run_def called_def split: if_splits prod.splits sum.splits)
  have n: "trim_space from_url \<noteq> [] \<and> trim_space to_url \<noteq> []"
    using assms by (auto simp: import_main_def)
  with assms c r same w1 have "\<not> dry \<and> status = 0 \<and> (\<exists>r. out = print_report r False)"
    by (cases c; cases res; cases dry) (auto simp: import_main_def)
  with n show "status = 0" and "\<not> dry" and "trim_space from_url \<noteq> []" and "trim_space to_url \<noteq> []"
    and "\<exists>r. out = print_report r False" by auto
qed

text \<open>
  C38: the tool writes only when it is told to. If a run, on whatever command line and environment and
  whichever calls fail, has changed anything in the platform's database, then an argument of the
  command line said so (\<^verbatim>\<open>-dry-run=false\<close> or another spelling of it), both databases were named, the
  program ended well, and what it has printed is the report of an import.
\<close>

theorem writes_only_when_asked:
  assumes "import_command E C duration src getenv args w = ((status, out), w')"
    and "im_target w' \<noteq> im_target w"
  shows "status = 0 \<and> (\<exists>a\<in>set args. asks_to_write a)
    \<and> (\<exists>fl r. parse_flags duration args (default_flags getenv) = Finished fl
         \<and> trim_space (fl_from fl) \<noteq> [] \<and> trim_space (fl_to fl) \<noteq> [] \<and> out = print_report r False)"
proof -
  from assms obtain fl where p: "parse_flags duration args (default_flags getenv) = Finished fl"
    and m: "import_main E C src (fl_from fl) (fl_to fl) (fl_dry_run fl) w = ((status, out), w')"
    by (auto simp: import_command_def split: flag_step.splits)
  note o = import_main_writes [OF m assms(2)]
  have "fl_dry_run (default_flags getenv)" by (simp add: default_flags_def)
  from parse_flags_dry_run [OF p this o(2)] p o show ?thesis by blast
qed

theorem writes_only_when_asked_witness:
  "(\<exists>out w'. import_command demo_env demo_core (\<lambda>_. None) demo_source (\<lambda>_. ''db'') [''-dry-run=false''] demo_importing =
      ((0, out), w') \<and> im_target w' \<noteq> im_target demo_importing)
   \<and> asks_to_write ''-dry-run=false''"
proof -
  obtain status out w' where c: "import_command demo_env demo_core (\<lambda>_. None) demo_source (\<lambda>_. ''db'') [''-dry-run=false'']
      demo_importing = ((status, out), w')" by (metis prod.collapse)
  have "length (t_apps (tg_store (im_target (snd (import_command demo_env demo_core (\<lambda>_. None) demo_source (\<lambda>_. ''db'')
      [''-dry-run=false''] demo_importing))))) = 3"
    by code_simp
  then have "length (t_apps (tg_store (im_target w'))) = 3" by (simp only: c snd_conv)
  moreover have "length (t_apps (tg_store (im_target demo_importing))) = 2" by code_simp
  ultimately have "im_target w' \<noteq> im_target demo_importing" by auto
  from writes_only_when_asked [OF c this] c this show ?thesis by auto
qed

text \<open>\<^verbatim>\<open>-dry-run false\<close>, without the equals sign, is a dry run: the value is left over and ends the flags.\<close>

lemma dry_run_takes_no_argument:
  "parse_flags duration (''-dry-run'' # ''false'' # args) fl = Finished (fl\<lparr>fl_dry_run := True\<rparr>)"
  by (simp add: parse_flags.simps parse_one_def flag_names_def cut_value_def set_flag_def parse_bool_def)

end
