(* ===== verification/Accountability.thy ===== *)
theory Accountability
  imports AccessSpec ReviewSpec System
begin

text \<open>
  Who changed what: the audit trail of the three modules. A request adds at most one entry, naming
  the session's user and what was done, and one that adds none has changed nothing but caches and
  when a platform was last seen. A profile and a submission are read back after they are written;
  for these two it holds while the database answers.
\<close>

section \<open>Strangers\<close>

text \<open>What a request outside the gate may write: the two caches and when a platform was last seen.\<close>

definition traces :: "database \<Rightarrow> database \<Rightarrow> bool" where
  "traces d d' \<longleftrightarrow> t_publishers d' = t_publishers d \<and> t_apps d' = t_apps d \<and> t_texts d' = t_texts d
     \<and> t_versions d' = t_versions d \<and> t_externals d' = t_externals d \<and> t_events d' = t_events d
     \<and> t_grants d' = t_grants d \<and> t_revision d' = t_revision d
     \<and> map (\<lambda>r. r\<lparr>pl_last_seen_at := None\<rparr>) (t_platforms d') =
         map (\<lambda>r. r\<lparr>pl_last_seen_at := None\<rparr>) (t_platforms d)"

interpretation traces: two_state traces
  by unfold_locales (simp_all add: traces_def)

lemma traces_cache_stmts:
  "moves traces (stmt (save_private_stmt E p channel platform s))"
  "moves traces (stmt (save_public_stmt channel platform s))" "moves traces (stmt (prune_stmt channel))"
  by (rule traces.moves_stmt, drule frame, auto simp: traces_def)+

lemma traces_touch: "moves traces (touch_platform E p)"
proof -
  have "moves traces (stmt (touch_stmt E p))"
    by (rule traces.moves_stmt)
      (auto simp: touch_stmt_def traces_def update_where_def split: option.splits)
  then show ?thesis unfolding touch_platform_def by (intro traces.moves_rules)
qed

lemma traces_catalog: "moves traces (catalog E s channel platform aud)"
  unfolding catalog_def build_def revision_def load_snapshot_def save_snapshot_def app_texts_def
    prune_snapshots_def Let_def
  by (intro traces.moves_rules traces_cache_stmts)

lemma traces_answers: "moves traces (answer_json n x)" "moves traces (answer_error n t)"
  by (simp_all add: answer_json_def answer_error_def traces.moves_ok)

lemma traces_handlers:
  "moves traces (handle_catalog E m r)" "moves traces (handle_list_apps E r)"
  "moves traces (handle_get_app E r)" "moves traces (handle_list_versions E r)"
  "moves traces (handle_chronicle E r)" "moves traces (handle_keys E m)"
  unfolding handle_catalog_def handle_list_apps_def handle_get_app_def handle_list_versions_def
    handle_chronicle_def handle_keys_def require_catalogue_def with_app_by_slug_def Let_def
    audience_for_def platform_by_token_def granted_app_ids_def app_view_def list_apps_def
    app_by_slug_def list_versions_def chronicle_def external_registration_of_def app_texts_def
  by (intro traces.moves_rules traces_answers traces_touch traces_catalog)+

text \<open>
  A stranger leaves only traces: all that a request outside the gate writes are cached documents and
  when a platform was last seen.
\<close>

lemma stranger_leaves_traces:
  assumes "\<not> gated c"
  shows "t_publishers (tables (perform E m c w)) = t_publishers (tables w)
    \<and> t_apps (tables (perform E m c w)) = t_apps (tables w)
    \<and> t_texts (tables (perform E m c w)) = t_texts (tables w)
    \<and> t_versions (tables (perform E m c w)) = t_versions (tables w)
    \<and> t_externals (tables (perform E m c w)) = t_externals (tables w)
    \<and> t_events (tables (perform E m c w)) = t_events (tables w)
    \<and> t_grants (tables (perform E m c w)) = t_grants (tables w)
    \<and> t_revision (tables (perform E m c w)) = t_revision (tables w)
    \<and> map (\<lambda>r. r\<lparr>pl_last_seen_at := None\<rparr>) (t_platforms (tables (perform E m c w))) =
        map (\<lambda>r. r\<lparr>pl_last_seen_at := None\<rparr>) (t_platforms (tables w))"
proof -
  have "traces (tables w) (tables (perform E m c w))"
    using assms traces_handlers [unfolded moves_def] by (cases c) simp_all
  then show ?thesis unfolding traces_def .
qed

section \<open>Effects and their entries\<close>

text \<open>
  \<open>leaves Q R A m\<close>: in a world with \<open>Q\<close>, \<open>m\<close> either adds no entry and has moved the tables along
  \<open>R\<close>, or adds exactly one, which is in \<open>A\<close>. \<open>signs A m\<close>: it always adds one.
\<close>

definition leaves ::
  "(world \<Rightarrow> bool) \<Rightarrow> (database \<Rightarrow> database \<Rightarrow> bool) \<Rightarrow> audit set \<Rightarrow> 'a act \<Rightarrow> bool" where
  "leaves Q R A m \<longleftrightarrow> (\<forall>w. Q w \<longrightarrow>
     audits (snd (m w)) = audits w \<and> R (tables w) (tables (snd (m w)))
     \<or> (\<exists>a\<in>A. audits (snd (m w)) = audits w @ [a]))"

definition signs :: "audit set \<Rightarrow> 'a act \<Rightarrow> bool" where
  "signs A m \<longleftrightarrow> (\<forall>w. \<exists>a\<in>A. audits (snd (m w)) = audits w @ [a])"

text \<open>\<open>clean Q R m\<close>: an error of \<open>m\<close> has moved the tables along \<open>R\<close> only.\<close>

definition clean :: "(world \<Rightarrow> bool) \<Rightarrow> (database \<Rightarrow> database \<Rightarrow> bool) \<Rightarrow> 'a act \<Rightarrow> bool" where
  "clean Q R m \<longleftrightarrow> (\<forall>w e w'. Q w \<longrightarrow> m w = (Inl e, w') \<longrightarrow> R (tables w) (tables w'))"

lemma signs_record: "a \<in> A \<Longrightarrow> signs A (andthen (record_audit a) (\<lambda>_. answer_json n x))"
  by (auto simp: signs_def andthen_def record_audit_def answer_json_def)

lemma signs_attempt: "silent m \<Longrightarrow> (\<And>r. signs A (k r)) \<Longrightarrow> signs A (attempt m k)"
  unfolding signs_def attempt_def by (auto split: prod.split) (metis silentD snd_conv)

lemma silent_answers: "silent (answer_json n x)" "silent (answer_error n t)"
  by (simp_all add: answer_json_def answer_error_def silent_rules)

context two_state
begin

lemma leaves_silent: "silent m \<Longrightarrow> moves R m \<Longrightarrow> leaves Q R A m"
  by (auto simp: leaves_def silentD moves_def)

lemma leaves_answers: "leaves Q R A (answer_json n x)" "leaves Q R A (answer_error n t)"
  by (simp_all add: leaves_def answer_json_def answer_error_def R_refl)

lemma leaves_if: "leaves Q R A m \<Longrightarrow> leaves Q R A m' \<Longrightarrow> leaves Q R A (if b then m else m')"
  by simp

lemma leaves_case_option:
  "leaves Q R A m \<Longrightarrow> (\<And>y. x = Some y \<Longrightarrow> leaves Q R A (f y)) \<Longrightarrow> leaves Q R A (case x of None \<Rightarrow> m | Some y \<Rightarrow> f y)"
  by (cases x) simp_all

lemma leaves_case_sum:
  "(\<And>e. leaves Q R A (f e)) \<Longrightarrow> (\<And>y. leaves Q R A (g y)) \<Longrightarrow>
   leaves Q R A (case x of Inl e \<Rightarrow> f e | Inr y \<Rightarrow> g y)"
  by (cases x) simp_all

text \<open>A handler that first reads, and one that acts and then signs.\<close>

lemma leaves_reading:
  "keeps Q (query q) \<Longrightarrow> (\<And>r. leaves Q R A (k r)) \<Longrightarrow> leaves Q R A (attempt (query q) k)"
proof -
  assume q: "keeps Q (query q)" and k: "\<And>r. leaves Q R A (k r)"
  have "snd (attempt (query q) k w) = snd (k (fst (query q w)) (snd (query q w)))" for w
    by (simp add: attempt_def split: prod.split)
  with q k show "leaves Q R A (attempt (query q) k)"
    unfolding leaves_def keeps_def by (metis silentD silent_stmt(2) tables_query)
qed

lemma leaves_acting:
  assumes "silent m" and "clean Q R m"
    and "\<And>e. silent (k (Inl e))" "\<And>e. moves R (k (Inl e))" "\<And>x. signs A (k (Inr x))"
  shows "leaves Q R A (attempt m k)"
  unfolding leaves_def
proof (intro allI impI)
  fix w assume q: "Q w"
  obtain r w1 where m: "m w = (r, w1)" by fastforce
  with assms(1) have a: "audits w1 = audits w" by (metis silentD snd_conv)
  show "audits (snd (attempt m k w)) = audits w \<and> R (tables w) (tables (snd (attempt m k w)))
     \<or> (\<exists>a\<in>A. audits (snd (attempt m k w)) = audits w @ [a])"
  proof (cases r)
    case (Inl e)
    with m q assms(2) have "R (tables w) (tables w1)" by (auto simp: clean_def)
    with assms(4) have "R (tables w) (tables (snd (k (Inl e) w1)))" by (metis R_trans moves_def)
    with m a Inl silentD [OF assms(3)] show ?thesis by (simp add: attempt_def)
  next
    case (Inr x)
    from assms(5) have "\<exists>b\<in>A. audits (snd (k (Inr x) w1)) = audits w1 @ [b]" by (simp add: signs_def)
    with m a Inr show ?thesis by (simp add: attempt_def)
  qed
qed

lemma clean_stmt: "clean Q R (stmt q)"
  by (auto simp: clean_def stmt_def Let_def R_refl split: if_splits sum.splits prod.splits)

lemma clean_transaction: "clean Q R (transaction body)"
  by (auto simp: clean_def R_refl dest: transaction_error_unchanged)

lemma clean_andthen_ok: "moves R m \<Longrightarrow> clean (\<lambda>_. True) R m' \<Longrightarrow> clean Q R (andthen m (\<lambda>_. m'))"
  by (auto simp: clean_def andthen_def moves_def split: prod.splits sum.splits) (metis R_trans snd_conv)+

text \<open>A statement that says how many rows it met has written none when it met none.\<close>

lemma clean_rows:
  assumes "\<And>t n d d'. q t n d = Inr (0, d') \<Longrightarrow> d' = d"
  shows "clean Q R (andthen (stmt q) (\<lambda>rows. if rows = 0 then fail e else ok ()))"
  by (auto simp: clean_def andthen_def stmt_def Let_def R_refl dest!: assms split: if_splits sum.splits prod.splits)

lemmas leaves_rules = leaves_answers leaves_if leaves_case_option leaves_case_sum

end

section \<open>The handlers\<close>

text \<open>What a request is entered as: the action and the user of its session.\<close>

fun audit_line :: "call \<Rightarrow> (string \<times> string) option" where
  "audit_line (CreatePlatform r b) = Some (''appstore.platform_registered'', actor_of r)"
| "audit_line (SetPlatformEnabled r b) = Some (''appstore.platform_access_changed'', actor_of r)"
| "audit_line (Grant r) = Some (''appstore.app_granted'', actor_of r)"
| "audit_line (Revoke r) = Some (''appstore.app_revoked'', actor_of r)"
| "audit_line (Decision r (Some d)) = Some (''review.'' @ de_action d, actor_of r)"
| "audit_line (VerifyPublisher r) = Some (''review.publisher_verified'', actor_of r)"
| "audit_line (SaveProfile r b) = Some (''publisher.profile_saved'', actor_of r)"
| "audit_line (UpsertApp r b) = Some (''publisher.app_saved'', actor_of r)"
| "audit_line (SubmitVersion r b) = Some (''publisher.version_submitted'', actor_of r)"
| "audit_line _ = None"

fun reads_back :: "call \<Rightarrow> bool" where
  "reads_back (SaveProfile r b) = True"
| "reads_back (SubmitVersion r b) = True"
| "reads_back _ = False"

definition entries_of :: "(string \<times> string) option \<Rightarrow> audit set" where
  "entries_of line = {a. line = Some (au_action a, au_user a)}"

abbreviation entries :: "string \<Rightarrow> string \<Rightarrow> audit set" where
  "entries action user \<equiv> entries_of (Some (action, user))"

lemma silent_public_handlers:
  "silent (handle_catalog E m r)" "silent (handle_list_apps E r)" "silent (handle_get_app E r)"
  "silent (handle_list_versions E r)" "silent (handle_chronicle E r)" "silent (handle_keys E m)"
  "silent (handle_registry_state E m)" "silent (handle_rebuild_snapshots m)"
  unfolding handle_catalog_def handle_list_apps_def handle_get_app_def handle_list_versions_def
    handle_chronicle_def handle_keys_def handle_registry_state_def handle_rebuild_snapshots_def
    require_catalogue_def with_app_by_slug_def Let_def
    audience_for_def platform_by_token_def granted_app_ids_def app_view_def list_apps_def
    app_by_slug_def list_versions_def chronicle_def external_registration_of_def app_texts_def
    catalog_def build_def revision_def load_snapshot_def save_snapshot_def prune_snapshots_def
    touch_platform_def discard_snapshots_def
  by (intro silent_rules silent_answers)+

lemma silent_reading_handlers:
  "silent (handle_list_platforms E)" "silent (handle_queue E)" "silent (handle_history E r)"
  "silent (handle_publishers E)" "silent (handle_profile E r)" "silent (handle_list_own_apps E r)"
  "silent (handle_list_own_versions E r)"
  unfolding handle_list_platforms_def handle_queue_def handle_history_def handle_publishers_def
    handle_profile_def handle_list_own_apps_def handle_list_own_versions_def own_app_def
    publisher_for_def list_platforms_def list_review_queue_def review_history_def list_publishers_def
    publisher_by_tenant_def list_apps_def app_by_slug_def app_by_id_def list_versions_def
  by (intro silent_rules silent_answers)+

lemma traces_reading_handlers:
  "moves traces (handle_registry_state E m)" "moves traces (handle_rebuild_snapshots m)"
  "moves traces (handle_list_platforms E)" "moves traces (handle_queue E)" "moves traces (handle_history E r)"
  "moves traces (handle_publishers E)" "moves traces (handle_profile E r)" "moves traces (handle_list_own_apps E r)"
  "moves traces (handle_list_own_versions E r)"
  unfolding handle_registry_state_def handle_rebuild_snapshots_def require_catalogue_def revision_def
    handle_list_platforms_def handle_queue_def handle_history_def handle_publishers_def
    handle_profile_def handle_list_own_apps_def handle_list_own_versions_def own_app_def
    publisher_for_def list_platforms_def list_review_queue_def review_history_def list_publishers_def
    publisher_by_tenant_def list_apps_def app_by_slug_def app_by_id_def
    list_versions_def discard_snapshots_def
  by (intro traces.moves_rules traces_answers traces.moves_stmt; simp add: traces_def)+

lemma update_where_none: "\<forall>r\<in>set t. \<not> hit r \<Longrightarrow> update_where hit upd t = t"
  by (simp add: update_where_def map_idI)

text \<open>The operations that a signed request makes add no entry of their own.\<close>

lemma silent_operations:
  "silent (create_platform E name origin nt actor)" "silent (set_platform_enabled E p on)"
  "silent (grant E a p actor)" "silent (revoke E a p)" "silent (discard_private_snapshots E p)"
  "silent (upsert_publisher E b)" "silent (set_publisher_verified E i v actor)" "silent (upsert_app E x texts)"
  "silent (submit_manifest E x channel mf by)" "silent (decide_version E vid action aid actor nt)"
  unfolding create_platform_def new_token_def set_platform_enabled_def grant_def revoke_def
    discard_private_snapshots_def upsert_publisher_def publisher_by_id_def set_publisher_verified_def
    upsert_app_def app_owner_def bump_revision_def submit_manifest_def submit_version_def
    version_by_id_def decide_version_def Let_def
  by (intro silent_rules)+

lemma no_row_met:
  "set_enabled_stmt E p on t n d = Inr (0, d') \<Longrightarrow> d' = d"
  "set_verified_stmt E i v actor t n d = Inr (0, d') \<Longrightarrow> d' = d"
  by (auto simp: set_enabled_stmt_def set_verified_stmt_def update_where_none filter_empty_conv
      split: option.splits sum.splits)

context two_state
begin

lemma clean_operations:
  "clean Q R (set_platform_enabled E p on)" "clean Q R (set_publisher_verified E i v actor)"
  "clean Q R (grant E a p actor)" "clean Q R (revoke E a p)" "clean Q R (upsert_app E x texts)"
  by (simp_all add: set_platform_enabled_def set_publisher_verified_def grant_def revoke_def upsert_app_def
      clean_stmt clean_transaction clean_rows no_row_met)

lemma clean_create: "clean Q R (create_platform E name origin nt actor)"
  by (auto simp: create_platform_def new_token_def clean_def andthen_def rand_read_def stmt_def Let_def R_refl
      split: if_splits sum.splits prod.splits)

lemma clean_decide: "clean Q R (decide_version E vid action aid actor nt)"
  unfolding clean_def
proof (intro allI impI)
  fix w e w' assume "decide_version E vid action aid actor nt w = (Inl e, w')"
  then have "tables w' = tables w" using decide_refines [of E vid action aid actor nt w] by auto
  then show "R (tables w) (tables w')" by (simp add: R_refl)
qed

lemma leaves_acting_answers:
  assumes "silent m" and "clean Q R m" and "\<And>x. signs A (k x)"
    and "\<And>e. \<exists>n t. f e = answer_error n t"
  shows "leaves Q R A (attempt m (\<lambda>r. case r of Inl e \<Rightarrow> f e | Inr x \<Rightarrow> k x))"
proof (rule leaves_acting [OF assms(1,2)])
  fix e from assms(4) obtain n t where "f e = answer_error n t" by blast
  then show "silent (case Inl e of Inl e \<Rightarrow> f e | Inr x \<Rightarrow> k x)"
    "moves R (case Inl e of Inl e \<Rightarrow> f e | Inr x \<Rightarrow> k x)"
    by (simp_all add: silent_answers) (simp add: answer_error_def moves_ok)
qed (simp add: assms(3))

lemma leaves_platform_handlers:
  "leaves Q R (entries ''appstore.platform_registered'' (actor_of r)) (handle_create_platform E r b)"
  "leaves Q R (entries ''appstore.platform_access_changed'' (actor_of r)) (handle_set_platform_enabled E r on)"
  "leaves (\<lambda>_. True) R (entries ''appstore.app_granted'' (actor_of r)) (handle_grant E r)"
  "leaves Q R (entries ''appstore.app_revoked'' (actor_of r)) (handle_revoke E r)"
  unfolding handle_create_platform_def handle_set_platform_enabled_def handle_grant_def handle_revoke_def
    app_by_id_def Let_def
  by (intro leaves_rules leaves_acting_answers leaves_reading silent_operations clean_create clean_operations
        signs_attempt signs_record keepsI; auto simp: entries_of_def platform_audit_def)+

lemma leaves_review_handlers:
  "leaves Q R (entries (''review.'' @ de_action d) (actor_of r)) (handle_decision E r (Some d))"
  "leaves Q R (entries ''review.publisher_verified'' (actor_of r)) (handle_verify_publisher E r)"
  unfolding handle_decision_def handle_verify_publisher_def require_session_def Let_def option.case
  by (intro leaves_rules leaves_acting_answers silent_operations clean_operations clean_decide signs_record;
      auto simp: entries_of_def actor_of_def)+

lemma leaves_no_decision: "leaves Q R A (handle_decision E r None)"
  unfolding handle_decision_def require_session_def option.case by (intro leaves_rules)

lemma leaves_upsert_app_handler:
  "leaves (\<lambda>_. True) R (entries ''publisher.app_saved'' (actor_of r)) (handle_upsert_app E r b)"
  unfolding handle_upsert_app_def publisher_for_def publisher_by_tenant_def
  by (intro leaves_rules leaves_reading leaves_acting_answers silent_operations clean_operations signs_record keepsI;
      auto simp: entries_of_def actor_of_def)

lemma leaves_save_handler:
  assumes "\<And>p. clean Q R (upsert_publisher E p)"
  shows "leaves Q R (entries ''publisher.profile_saved'' (actor_of r)) (handle_save_profile E r b)"
  unfolding handle_save_profile_def require_session_def Let_def
  by (intro leaves_rules leaves_acting_answers silent_operations assms signs_record;
      auto simp: entries_of_def actor_of_def)

lemma leaves_submit_handler:
  assumes "\<And>a channel mf by. clean Q R (submit_manifest E a channel mf by)"
    and "\<And>tenant. keeps Q (publisher_by_tenant E tenant)" and "keeps Q (app_by_slug E (rq_param r ''slug''))"
  shows "leaves Q R (entries ''publisher.version_submitted'' (actor_of r)) (handle_submit_version E r b)"
  using assms(2,3)
  unfolding handle_submit_version_def own_app_def publisher_for_def publisher_by_tenant_def app_by_slug_def
  by (intro leaves_rules leaves_reading leaves_acting_answers silent_operations assms(1) signs_record;
      auto simp: entries_of_def actor_of_def split: err.split)

end

section \<open>Writes that are read back\<close>

text \<open>What a submission marshals, PostgreSQL and \<^verbatim>\<open>encoding/json\<close> give back.\<close>

definition manifests_read_back :: "env \<Rightarrow> bool" where
  "manifests_read_back E \<longleftrightarrow> (\<forall>m j. marshal_manifest E m = Some j \<longrightarrow> unmarshal_manifest E j \<noteq> None)"

lemma upserted_publisher:
  assumes "upsert_publisher_stmt E p t n d = Inr (u, d')"
  shows "\<exists>b\<in>set (t_publishers d'). pub_id b = u"
proof -
  from assms obtain tenant where
    t: "t_publishers d' = upsert (\<lambda>r. pub_tenant r = tenant)
        ((pg_publisher_defaults E)\<lparr>pub_id := n, pub_tenant := tenant, pub_slug := b_slug p,
          pub_name := b_name p, pub_email := b_contact_email p, pub_created_at := t, pub_updated_at := t\<rparr>)
        (\<lambda>r. r\<lparr>pub_slug := b_slug p, pub_name := b_name p, pub_email := b_contact_email p, pub_updated_at := t\<rparr>)
        (t_publishers d)"
    and u: "u = (case find (\<lambda>r. pub_tenant r = tenant) (t_publishers d) of None \<Rightarrow> n | Some r \<Rightarrow> pub_id r)"
    by (cases "pg_uuid E (b_tenant_id p)") (auto simp: upsert_publisher_stmt_def Let_def split: if_splits)
  have "\<exists>b. find (\<lambda>r. pub_tenant r = tenant) (t_publishers d') = Some b \<and> pub_id b = u"
    unfolding t u by (subst find_upsert) (auto split: option.split)
  then show ?thesis by (auto dest: find_SomeD)
qed

lemma clean_upsert_publisher:
  assumes "uuid_codec E"
  shows "clean (\<lambda>w. quiet w \<and> holds wf_db w) traces (upsert_publisher E p)"
  unfolding clean_def
proof (intro allI impI)
  fix w e w' assume q: "quiet w \<and> holds wf_db w" and r: "upsert_publisher E p w = (Inl e, w')"
  show "traces (tables w) (tables w')"
  proof (cases "upsert_publisher_stmt E p (clock (tick w)) (next_uuid w) (tables w)")
    case (Inl f)
    with q r have "tables w' = tables w" by (auto simp: upsert_publisher_def attempt_def stmt_quiet)
    then show ?thesis by (simp add: traces.R_refl)
  next
    case (Inr x)
    then obtain u d where x: "x = (u, d)" by (cases x)
    from upserted_publisher [OF Inr [unfolded x]] have "find (\<lambda>b. pub_id b = u) (t_publishers d) \<noteq> None"
      by (auto simp: find_None_iff)
    with q r Inr x uuid_codecD(1) [OF assms] show ?thesis
      by (auto simp: upsert_publisher_def attempt_def stmt_quiet publisher_by_id_def query_quiet scan_publisher_def)
  qed
qed

lemma clean_submit:
  assumes "uuid_codec E" and "manifests_read_back E"
  shows "clean (\<lambda>w. quiet w \<and> holds wf_db w) traces (submit_manifest E a channel mf by)"
  unfolding clean_def
proof (intro allI impI)
  fix w e w' assume w: "quiet w \<and> holds wf_db w" and r: "submit_manifest E a channel mf by w = (Inl e, w')"
  have "tables w' = tables w"
  proof (cases "submission_error E a (if channel = [] then ''stable'' else channel) mf")
    case None
    with r obtain v x where "submit_version E v x w = (Inl e, w')"
      by (auto simp: submit_manifest_def Let_def)
    from submission_cases [OF assms(1) _ this] w assms(2) show ?thesis
      by (auto simp: holds_def manifests_read_back_def split: option.splits)
  qed (use r in \<open>auto simp: submit_manifest_def Let_def\<close>)
  then show "traces (tables w) (tables w')" by (simp add: traces.R_refl)
qed

section \<open>Properties\<close>

interpretation anything: two_state "\<lambda>_ _. True"
  by unfold_locales (rule TrueI)+

lemma clean_anything: "clean Q (\<lambda>_ _. True) m"
  by (simp add: clean_def)

lemma keeps_all: "keeps (\<lambda>_. True) m"
  by (simp add: keeps_def)

lemma leaves_snd: "leaves Q R A m \<Longrightarrow> leaves Q R A (\<lambda>w. (Inr (), snd (m w)))"
  by (simp add: leaves_def)

lemma perform_leaves:
  assumes "\<not> reads_back c"
  shows "leaves (\<lambda>_. True) traces (entries_of (audit_line c)) (\<lambda>w. (Inr (), perform E m c w))"
  using assms
  by (cases c rule: audit_line.cases)
    (simp_all add: leaves_snd traces.leaves_platform_handlers traces.leaves_review_handlers [simplified]
      traces.leaves_no_decision traces.leaves_upsert_app_handler traces.leaves_silent
      silent_public_handlers silent_reading_handlers traces_handlers traces_reading_handlers)

lemma perform_leaves_reading_back:
  assumes "reads_back c"
  shows "leaves (\<lambda>_. True) (\<lambda>_ _. True) (entries_of (audit_line c)) (\<lambda>w. (Inr (), perform E m c w))"
    and "uuid_codec E \<Longrightarrow> manifests_read_back E \<Longrightarrow>
      leaves (\<lambda>w. quiet w \<and> holds wf_db w) traces (entries_of (audit_line c)) (\<lambda>w. (Inr (), perform E m c w))"
proof -
  have "keeps (\<lambda>w. quiet w \<and> holds wf_db w) (query q)" for q :: "database \<Rightarrow> err + 'a"
    using keeps_quiet_query [of q] wf.keeps_query [of q] by (simp add: keeps_def)
  then have "keeps (\<lambda>w. quiet w \<and> holds wf_db w) (publisher_by_tenant E t)"
    "keeps (\<lambda>w. quiet w \<and> holds wf_db w) (app_by_slug E x)" for t x
    by (simp_all add: publisher_by_tenant_def app_by_slug_def)
  then show "uuid_codec E \<Longrightarrow> manifests_read_back E \<Longrightarrow>
      leaves (\<lambda>w. quiet w \<and> holds wf_db w) traces (entries_of (audit_line c)) (\<lambda>w. (Inr (), perform E m c w))"
    using assms
    by (cases c rule: reads_back.cases)
      (simp_all add: leaves_snd traces.leaves_save_handler traces.leaves_submit_handler clean_upsert_publisher clean_submit)
qed (use assms in \<open>cases c rule: reads_back.cases;
    simp add: leaves_snd anything.leaves_save_handler anything.leaves_submit_handler clean_anything keeps_all\<close>)

lemma leavesD:
  "leaves Q R A m \<Longrightarrow> Q w \<Longrightarrow> audits (snd (m w)) = audits w \<and> R (tables w) (tables (snd (m w)))
     \<or> (\<exists>a\<in>A. audits (snd (m w)) = audits w @ [a])"
  by (simp add: leaves_def)

lemma audit_line_gated: "audit_line c = Some l \<Longrightarrow> gated c"
  by (cases c) simp_all

text \<open>
  C19: every change has its entry. A request adds at most one entry to the audit trail, which names
  what was done and the user of the session; a request outside the gate adds none. One that adds
  none has changed no publisher, app, translation, version, registration, event, grant or revision,
  and of a platform at most when it was last seen. For the two requests that read back what they
  have written, this last holds while the database answers.
\<close>

theorem changes_are_audited:
  assumes "uuid_codec E" and "manifests_read_back E" and "wf_db (next_uuid w) (tables w)"
  shows "\<exists>es. audits (perform E m c w) = audits w @ es \<and> length es \<le> 1
    \<and> (\<forall>a\<in>set es. gated c \<and> audit_line c = Some (au_action a, au_user a))
    \<and> (es = [] \<and> (reads_back c \<longrightarrow> quiet w) \<longrightarrow> traces (tables w) (tables (perform E m c w)))"
proof -
  let ?w' = "perform E m c w" and ?A = "entries_of (audit_line c)"
  have line: "audits ?w' = audits w \<or> (\<exists>a\<in>?A. audits ?w' = audits w @ [a])"
    using leavesD [OF perform_leaves [of c E m], of w] leavesD [OF perform_leaves_reading_back(1) [of c E m], of w] by auto
  have "traces (tables w) (tables ?w')" if "audits ?w' = audits w" and "reads_back c \<longrightarrow> quiet w"
  proof (cases "reads_back c")
    case True
    with leavesD [OF perform_leaves_reading_back(2) [OF True assms(1,2)], of w m] that assms(3) show ?thesis
      by (auto simp: holds_def)
  qed (use leavesD [OF perform_leaves [of c E m], of w] that in auto)
  moreover from line obtain es where "audits ?w' = audits w @ es" and "es = [] \<or> (\<exists>a\<in>?A. es = [a])" by auto
  ultimately show ?thesis
    by (intro exI [of _ es]) (auto simp: entries_of_def dest: audit_line_gated)
qed

text \<open>A reviewer's rejection writes an event, so it has its entry.\<close>

definition demo_rejection :: call where
  "demo_rejection = Decision (demo_request\<lparr>rq_param := (\<lambda>_. ''xxxxxx'')\<rparr>)
     (Some \<lparr>de_action = ''reject'', de_note = ''no icon''\<rparr>)"

theorem changes_are_audited_witness:
  "\<exists>a. audits (perform demo_env demo_module demo_rejection demo_world) = [a] \<and> au_action a = ''review.reject''"
proof -
  let ?w' = "perform demo_env demo_module demo_rejection demo_world"
  have c: "manifests_read_back demo_env"
    by (auto simp: manifests_read_back_def demo_env_def)
  have wf: "wf_db (next_uuid demo_world) (tables demo_world)" and "audits demo_world = []"
    using demo_wf by (simp_all add: demo_world_def)
  with changes_are_audited [OF demo_codec c wf, of demo_module demo_rejection] obtain es where
    es: "audits ?w' = es" "length es \<le> 1" "\<forall>a\<in>set es. audit_line demo_rejection = Some (au_action a, au_user a)"
      "es = [] \<longrightarrow> traces (tables demo_world) (tables ?w')"
    by (auto simp: demo_rejection_def)
  have "length (t_events (tables ?w')) \<noteq> length (t_events (tables demo_world))"
    by code_simp
  then have "\<not> traces (tables demo_world) (tables ?w')" by (auto simp: traces_def)
  with es show ?thesis by (cases es) (auto simp: demo_rejection_def)
qed

end
