(* ===== verification/References.thy ===== *)
theory References
  imports Accountability StoreSpec
begin

text \<open>
  References between the tables. None of the statements checks them, so they rest on the handlers:
  each looks up what a row will name before it writes the row, in one request, and nothing that is
  named is ever deleted.
\<close>

section \<open>The invariant\<close>

definition linked :: "database \<Rightarrow> bool" where
  "linked d \<longleftrightarrow> app_publisher ` set (t_apps d) \<subseteq> pub_id ` set (t_publishers d)
     \<and> ver_app ` set (t_versions d) \<subseteq> app_ids d \<and> tx_app ` set (t_texts d) \<subseteq> app_ids d
     \<and> ex_app ` set (t_externals d) \<subseteq> app_ids d
     \<and> ev_version ` set (t_events d) \<subseteq> ver_id ` set (t_versions d)"

text \<open>A step that adds nothing that names something, and takes no publisher away.\<close>

definition links_stay :: "database \<Rightarrow> database \<Rightarrow> bool" where
  "links_stay d d' \<longleftrightarrow> pub_id ` set (t_publishers d) \<subseteq> pub_id ` set (t_publishers d')
     \<and> t_apps d' = t_apps d \<and> t_versions d' = t_versions d \<and> t_texts d' = t_texts d
     \<and> t_externals d' = t_externals d \<and> t_events d' = t_events d"

interpretation links: two_state links_stay
  by unfold_locales (auto simp: links_stay_def)

lemma linked_stays: "links_stay d d' \<Longrightarrow> linked d \<Longrightarrow> linked d'"
  by (auto simp: links_stay_def linked_def app_ids_def) (meson imageI subsetD)

lemma traces_links: "traces d d' \<Longrightarrow> links_stay d d'"
  by (simp add: traces_def links_stay_def)

lemma links_stmt:
  assumes "\<And>t n d x d'. q t n d = Inr (x, d') \<Longrightarrow>
      (\<exists>v. d' = d\<lparr>t_platforms := v\<rparr>) \<or> (\<exists>v. d' = d\<lparr>t_grants := v\<rparr>) \<or> (\<exists>v. d' = d\<lparr>t_private := v\<rparr>)"
  shows "moves links_stay (stmt q)"
  by (rule links.moves_stmt, drule assms) (auto simp: links_stay_def)

lemma upsert_keeps_keys:
  assumes "\<And>r. key (upd r) = key r"
  shows "key ` set t \<subseteq> key ` set (upsert hit new upd t)"
proof -
  have "map key (map (\<lambda>r. if hit r then upd r else r) t) = map key t" by (simp add: assms)
  then have "key ` set (map (\<lambda>r. if hit r then upd r else r) t) = key ` set t" by (metis list.set_map)
  then show ?thesis by (auto simp: upsert_def)
qed

lemma links_publisher_stmts:
  "moves links_stay (stmt (upsert_publisher_stmt E p))" "moves links_stay (stmt (set_verified_stmt E i v actor))"
proof -
  show "moves links_stay (stmt (upsert_publisher_stmt E p))"
    by (rule links.moves_stmt)
      (auto simp: upsert_publisher_stmt_def links_stay_def Let_def split: option.splits if_splits
        intro!: upsert_keeps_keys [THEN subsetD])
  show "moves links_stay (stmt (set_verified_stmt E i v actor))"
    by (rule links.moves_stmt)
      (auto simp: set_verified_stmt_def links_stay_def ids_kept [where key = pub_id] split: option.splits sum.splits)
qed

lemma links_ops:
  "moves links_stay (create_platform E name origin nt actor)" "moves links_stay (set_platform_enabled E p on)"
  "moves links_stay (grant E a p actor)" "moves links_stay (revoke E a p)"
  "moves links_stay (discard_private_snapshots E p)"
  "moves links_stay (upsert_publisher E b)" "moves links_stay (set_publisher_verified E i v actor)"
  unfolding create_platform_def new_token_def Let_def set_platform_enabled_def grant_def revoke_def
    discard_private_snapshots_def upsert_publisher_def publisher_by_id_def set_publisher_verified_def
  by (intro links.moves_rules links_stmt links_publisher_stmts; simp add: frame)+

lemma links_handlers:
  "moves links_stay (handle_create_platform E r b)" "moves links_stay (handle_set_platform_enabled E r e)"
  "moves links_stay (handle_grant E r)" "moves links_stay (handle_revoke E r)"
  "moves links_stay (handle_verify_publisher E r)" "moves links_stay (handle_save_profile E r p)"
  unfolding handle_create_platform_def handle_set_platform_enabled_def handle_grant_def handle_revoke_def
    handle_verify_publisher_def handle_save_profile_def require_session_def app_by_id_def Let_def
    answer_json_def answer_error_def
  by (intro links.moves_rules links_ops)+

section \<open>The three that add\<close>

text \<open>A translation is written for the app that is written, a registration for the app submitted for.\<close>

lemma insert_chain: "A \<subseteq> insert i B \<Longrightarrow> B \<subseteq> insert i C \<Longrightarrow> A \<subseteq> insert i C"
  by blast

definition texts_for :: "string \<Rightarrow> database \<Rightarrow> database \<Rightarrow> bool" where
  "texts_for i d d' \<longleftrightarrow> tx_app ` set (t_texts d') \<subseteq> insert i (tx_app ` set (t_texts d))
     \<and> t_publishers d' = t_publishers d \<and> t_externals d' = t_externals d \<and> t_events d' = t_events d"

interpretation texts_for: two_state "texts_for i" for i
  by unfold_locales (auto simp: texts_for_def simp del: image_subset_iff intro: subset_insertI insert_chain del: subsetI)

lemma upsert_app_texts: "moves (texts_for (a_id a)) (upsert_app E a texts)"
proof -
  have "moves (texts_for (a_id a)) (stmt (upsert_text_stmt (a_id a) lt))" for lt
    by (rule texts_for.moves_stmt) (auto simp: upsert_text_stmt_def texts_for_def upsert_def split: if_splits)
  moreover have "moves (texts_for (a_id a)) (stmt (upsert_app_stmt E a))" "moves (texts_for (a_id a)) (stmt bump_stmt)"
    by (rule texts_for.moves_stmt; drule frame; auto simp: texts_for_def)+
  ultimately show ?thesis
    unfolding upsert_app_def app_owner_def bump_revision_def
    by (intro texts_for.moves_transaction texts_for.moves_rules)
qed

definition registers_for :: "string \<Rightarrow> database \<Rightarrow> database \<Rightarrow> bool" where
  "registers_for i d d' \<longleftrightarrow> ex_app ` set (t_externals d') \<subseteq> insert i (ex_app ` set (t_externals d))
     \<and> t_publishers d' = t_publishers d"

interpretation registers_for: two_state "registers_for i" for i
  by unfold_locales (auto simp: registers_for_def simp del: image_subset_iff intro: subset_insertI insert_chain del: subsetI)

lemma submit_version_registers: "moves (registers_for (v_app_id v)) (submit_version E v x)"
proof -
  have "moves (registers_for (v_app_id v)) (stmt (upsert_external_stmt E (v_app_id v) y))" for y
    by (rule registers_for.moves_stmt)
      (auto simp: upsert_external_stmt_def registers_for_def upsert_def external_update_def split: if_splits)
  moreover have "moves (registers_for (v_app_id v)) (stmt (insert_version_stmt E v j))"
    "moves (registers_for (v_app_id v)) (stmt (insert_event_stmt E i aid actor action nt))" for j i aid actor action nt
    by (rule registers_for.moves_stmt; drule frame; auto simp: registers_for_def)+
  ultimately show ?thesis
    unfolding submit_version_def version_by_id_def
    by (intro registers_for.moves_transaction registers_for.moves_rules)
qed

lemma linked_grows:
  assumes "linked d" and "u \<in> pub_id ` set (t_publishers d)" and "i \<in> app_ids d'" and "app_ids d \<subseteq> app_ids d'"
    and "app_publisher ` set (t_apps d') \<subseteq> insert u (app_publisher ` set (t_apps d))"
    and "tx_app ` set (t_texts d') \<subseteq> insert i (app_ids d)"
    and "t_publishers d' = t_publishers d" "t_externals d' = t_externals d" "t_events d' = t_events d"
      "t_versions d' = t_versions d"
  shows "linked d'"
proof -
  have "app_publisher ` set (t_apps d') \<subseteq> pub_id ` set (t_publishers d)"
    using order_trans [OF assms(5)] assms(1,2) by (simp add: linked_def del: image_subset_iff)
  moreover have "tx_app ` set (t_texts d') \<subseteq> app_ids d'"
    using order_trans [OF assms(6)] assms(3,4) by (simp del: image_subset_iff)
  moreover have "ver_app ` set (t_versions d) \<subseteq> app_ids d'" "ex_app ` set (t_externals d) \<subseteq> app_ids d'"
    using order_trans [OF _ assms(4)] assms(1) by (simp_all add: linked_def del: image_subset_iff)
  ultimately show ?thesis using assms(1) unfolding linked_def assms(7-10) by blast
qed

lemma linked_upsert_app:
  assumes "uuid_codec E" and "wf_db n (tables w)" and "linked (tables w)"
    and "pg_uuid E (a_publisher_id a) = Some u" and "u \<in> pub_id ` set (t_publishers (tables w))"
  shows "linked (tables (snd (upsert_app E a texts w)))"
proof -
  obtain r w' where up: "upsert_app E a texts w = (r, w')" by fastforce
  show ?thesis
  proof (cases r)
    case (Inl e)
    with up have "tables w' = tables w" unfolding upsert_app_def by (auto intro: transaction_error_unchanged)
    with up assms(3) show ?thesis by simp
  next
    case (Inr x)
    with up have ok: "upsert_app E a texts w = (Inr (), w')" by simp
    have tx: "texts_for (a_id a) (tables w) (tables w')"
      using upsert_app_texts [of a E texts] ok unfolding moves_def by (metis snd_conv)
    from upsert_app_writes [OF assms(1) ok] assms(4) obtain t where
      apps: "t_apps (tables w') = upsert (\<lambda>r. app_id r = a_id a) (app_insert E a u t) (app_update a t) (t_apps (tables w))"
      and vs: "t_versions (tables w') = t_versions (tables w)"
      by (metis database.select_convs(2) database.surjective database.update_convs(2) option.inject)
    have "find (\<lambda>r. app_id r = a_id a) (t_apps (tables w')) \<noteq> None"
      unfolding apps by (subst find_upsert) (simp_all add: app_insert_def app_update_def)
    then have "a_id a \<in> app_ids (tables w')" by (auto simp: app_ids_def dest!: find_SomeD) (metis imageI)
    moreover have "app_ids (tables w) \<subseteq> app_ids (tables w')"
      unfolding app_ids_def apps by (rule upsert_keeps_keys) (simp add: app_update_def)
    moreover have "app_publisher ` set (t_apps (tables w')) \<subseteq> insert u (app_publisher ` set (t_apps (tables w)))"
      unfolding apps using set_upsert_subset [of "\<lambda>r. app_id r = a_id a" "app_insert E a u t" "app_update a t" "t_apps (tables w)"]
      by (fastforce simp: app_insert_def app_update_def)
    moreover have "tx_app ` set (t_texts (tables w')) \<subseteq> insert (a_id a) (app_ids (tables w))"
    proof -
      have "tx_app ` set (t_texts (tables w')) \<subseteq> insert (a_id a) (tx_app ` set (t_texts (tables w)))"
        using tx by (simp add: texts_for_def)
      also have "\<dots> \<subseteq> insert (a_id a) (app_ids (tables w))" using assms(3) by (intro insert_mono) (simp add: linked_def)
      finally show ?thesis .
    qed
    moreover have "t_publishers (tables w') = t_publishers (tables w)" "t_externals (tables w') = t_externals (tables w)"
        "t_events (tables w') = t_events (tables w)"
      using tx by (simp_all add: texts_for_def)
    ultimately have "linked (tables w')" using assms(3,5) vs
      by - (rule linked_grows [where d = "tables w" and i = "a_id a" and u = u]; assumption)
    with up show ?thesis by simp
  qed
qed

lemma linked_submit:
  assumes "uuid_codec E" and "linked (tables w)" and "v_app_id v \<in> app_ids (tables w)"
  shows "linked (tables (snd (submit_version E v x w)))"
proof -
  obtain r w' where s: "submit_version E v x w = (r, w')" by fastforce
  have ex: "registers_for (v_app_id v) (tables w) (tables w')"
    using submit_version_registers [of v E x] s unfolding moves_def by (metis snd_conv)
  from assms(1) s have "linked (tables w')"
  proof (cases rule: submit_version_cases)
    case refused
    with assms(2) show ?thesis by simp
  next
    case (queued j row)
    from queued(3) obtain t where vs: "t_versions (tables w') = t_versions (tables w) @ [row]" "ver_app row = v_app_id v"
      and "t_events (tables w') = t_events (tables w) @ [\<lparr>ev_version = ver_id row, ev_actor_id = None,
        ev_actor = v_submitted_by v, ev_action = ''submitted'', ev_note = [], ev_created_at = t\<rparr>]"
      and "t_apps (tables w') = t_apps (tables w)" "t_texts (tables w') = t_texts (tables w)"
      by (auto simp: submitted_def)
    moreover have "ex_app ` set (t_externals (tables w')) \<subseteq> app_ids (tables w)"
    proof -
      have "ex_app ` set (t_externals (tables w')) \<subseteq> insert (v_app_id v) (ex_app ` set (t_externals (tables w)))"
        using ex by (simp add: registers_for_def)
      also have "\<dots> \<subseteq> app_ids (tables w)" using assms(2,3) by (simp add: linked_def)
      finally show ?thesis .
    qed
    moreover have "t_publishers (tables w') = t_publishers (tables w)" using ex by (simp add: registers_for_def)
    ultimately show ?thesis using assms(2,3) by (auto simp: linked_def app_ids_def)
  qed
  with s show ?thesis by simp
qed

lemma linked_decide:
  assumes "linked (tables w)"
  shows "linked (tables (snd (decide_version E vid action aid actor nt w)))"
proof -
  obtain r w' where s: "decide_version E vid action aid actor nt w = (r, w')" by fastforce
  have "linked (tables w')"
  proof (cases r)
    case (Inl e)
    with decide_refines [of E vid action aid actor nt w] s assms show ?thesis by auto
  next
    case (Inr u)
    with s have "decide_version E vid action aid actor nt w = (Inr (), w')" by simp
    from decide_okD [OF this] show ?thesis
    proof (cases rule: decide_pure_okD)
      case (1 status u who)
      have apps: "app_id ` set (t_apps (tables w')) = app_id ` set (t_apps (tables w))"
        "app_publisher ` set (t_apps (tables w')) = app_publisher ` set (t_apps (tables w))"
        unfolding 1(8) by (auto simp: ids_kept take_provenance_def split: option.splits)
      moreover have "ver_id ` set (t_versions (tables w')) = ver_id ` set (t_versions (tables w))"
        "ver_app ` set (t_versions (tables w')) = ver_app ` set (t_versions (tables w))"
        unfolding 1(5) by (simp_all add: ids_kept decided_row_def)
      ultimately show ?thesis
        using assms 1(4) by (auto simp: linked_def app_ids_def 1(6,12,14,15))
    qed
  qed
  with s show ?thesis by simp
qed

section \<open>The handlers\<close>

text \<open>Each hands the operation something it has just read.\<close>

lemma publisher_found:
  assumes "publisher_by_tenant E t w = (Inr b, w1)"
  shows "tables w1 = tables w" and "\<exists>p\<in>set (t_publishers (tables w)). b = publisher_of_row E p"
  using assms
  by (auto simp: publisher_by_tenant_def query_def scan_publisher_def split: if_splits option.splits dest: find_SomeD)

lemma app_found:
  assumes "app_by_slug E slug w = (Inr x, w1)"
  shows "tables w1 = tables w" and "a_id x \<in> app_ids (tables w)"
proof -
  from assms have "scan_app E (tables w) (find (\<lambda>a. app_slug a = slug) (t_apps (tables w))) = Inr x"
    and "tables w1 = tables w" by (auto simp: app_by_slug_def query_def split: if_splits)
  then show "tables w1 = tables w" and "a_id x \<in> app_ids (tables w)"
    by (auto simp: scan_app_def scan_app_into_def app_ids_def split: option.splits sum.splits prod.splits
        dest!: find_SomeD)
qed

lemma keeps_answers_linked:
  "keeps (\<lambda>w. linked (tables w)) (answer_json n x)" "keeps (\<lambda>w. linked (tables w)) (answer_error n t)"
  "keeps (\<lambda>w. linked (tables w)) (record_audit a)"
  by (simp_all add: answer_json_def answer_error_def keeps_ok) (rule keepsI, simp add: record_audit_def)

lemma linked_decision: "keeps (\<lambda>w. linked (tables w)) (handle_decision E r b)"
proof -
  have "keeps (\<lambda>w. linked (tables w)) (decide_version E v action aid actor nt)" for v action aid actor nt
    by (rule keepsI) (rule linked_decide)
  then show ?thesis
    unfolding handle_decision_def require_session_def by (intro keeps_intros keeps_answers_linked)
qed

lemma linked_attempt:
  "linked (tables (snd (m w))) \<Longrightarrow> (\<And>r. keeps (\<lambda>w. linked (tables w)) (k r)) \<Longrightarrow> linked (tables (snd (attempt m k w)))"
  by (auto simp: attempt_def keeps_def split: prod.split)

lemma linked_publisher_for:
  assumes "linked (tables w)"
    and "\<And>p t w1. publisher_by_tenant E t w = (Inr p, w1) \<Longrightarrow> linked (tables (snd (k p t w1)))"
  shows "linked (tables (snd (publisher_for E r k w)))"
proof -
  have "tables w1 = tables w" if "publisher_by_tenant E t w = (x, w1)" for t x w1
    using that by (auto simp: publisher_by_tenant_def query_def split: if_splits)
  with assms show ?thesis
    by (auto simp: publisher_for_def attempt_def answer_error_def split: sum.split prod.split)
qed

lemma linked_registration:
  assumes "uuid_codec E" and "wf_db (next_uuid w) (tables w)" and "linked (tables w)"
  shows "linked (tables (snd (handle_upsert_app E r b w)))"
  unfolding handle_upsert_app_def
proof (rule linked_publisher_for [OF assms(3)], goal_cases)
  case (1 p t w1)
  then obtain q where q: "q \<in> set (t_publishers (tables w))" "p = publisher_of_row E q" using publisher_found by blast
  have w1: "tables w1 = tables w" using publisher_found [OF 1] by simp
  have up: "linked (tables (snd (upsert_app E (app_of_body p c x) texts w1)))" for c x texts
    using assms q w1 uuid_codecD(1) [OF assms(1)]
    by (intro linked_upsert_app [where n = "next_uuid w" and u = "pub_id q"])
      (simp_all add: app_of_body_def publisher_of_row_def)
  show ?case
    using assms(3) w1
    by (auto simp: answer_error_def intro!: linked_attempt up keeps_intros keeps_answers_linked
        split: option.split sum.split)
qed

lemma linked_submission:
  assumes "uuid_codec E" and "linked (tables w)"
  shows "linked (tables (snd (handle_submit_version E r b w)))"
  unfolding handle_submit_version_def own_app_def
proof (rule linked_publisher_for [OF assms(2)], goal_cases)
  case (1 p t w1)
  have w1: "tables w1 = tables w" using publisher_found [OF 1] by simp
  obtain res w2 where a: "app_by_slug E (rq_param r ''slug'') w1 = (res, w2)" by fastforce
  then have w2: "tables w2 = tables w" using w1 by (auto simp: app_by_slug_def query_def split: if_splits)
  show ?case
  proof (cases res)
    case (Inl e)
    with a w2 assms(2) show ?thesis by (simp add: attempt_def answer_error_def)
  next
    case (Inr x)
    with app_found [OF a [unfolded Inr]] w1 have "a_id x \<in> app_ids (tables w)" by simp
    with assms w2 have "linked (tables (snd (submit_version E (submitted_version x channel mf who) y w2)))" for channel mf who y
      by (intro linked_submit) (simp_all add: submitted_version_def)
    then have sub: "linked (tables (snd (submit_manifest E x channel mf who w2)))" for channel mf who
      using assms(2) w2 by (auto simp: submit_manifest_def Let_def split: option.split)
    show ?thesis
      using assms(2) w2 a Inr
      by (auto simp: attempt_def [of "app_by_slug E (rq_param r ''slug'')"] answer_error_def
          intro!: linked_attempt sub keeps_intros keeps_answers_linked split: option.split sum.split)
  qed
qed

lemma perform_linked:
  assumes "uuid_codec E" and "wf_db (next_uuid w) (tables w)" and "linked (tables w)"
  shows "linked (tables (perform E m c w))"
proof (cases "(\<exists>r b. c = UpsertApp r b) \<or> (\<exists>r b. c = SubmitVersion r b) \<or> (\<exists>r b. c = Decision r b)")
  case True
  then show ?thesis
    using linked_registration [OF assms] linked_submission [OF assms(1,3)] keepsD [OF linked_decision assms(3)] by auto
next
  case False
  then have "links_stay (tables w) (tables (perform E m c w))"
    using links_handlers [unfolded moves_def] traces_handlers [unfolded moves_def, THEN spec, THEN traces_links]
      traces_reading_handlers [unfolded moves_def, THEN spec, THEN traces_links]
    by (cases c) simp_all
  then show ?thesis using assms(3) by (rule linked_stays)
qed

section \<open>Property\<close>

text \<open>
  C29: nothing dangles. In every state reached by requests handled one at a time, whichever driver
  calls fail, every app is of a publisher on file, every version, translation and external
  registration is of an app on file, and every review event is about a version on file.
\<close>

theorem references_kept:
  assumes "uuid_codec E" and "reachable E m admits Q w"
  shows "(\<forall>a\<in>set (t_apps (tables w)). \<exists>p\<in>set (t_publishers (tables w)). app_publisher a = pub_id p)
    \<and> (\<forall>v\<in>set (t_versions (tables w)). \<exists>a\<in>set (t_apps (tables w)). ver_app v = app_id a)
    \<and> (\<forall>x\<in>set (t_texts (tables w)). \<exists>a\<in>set (t_apps (tables w)). tx_app x = app_id a)
    \<and> (\<forall>x\<in>set (t_externals (tables w)). \<exists>a\<in>set (t_apps (tables w)). ex_app x = app_id a)
    \<and> (\<forall>e\<in>set (t_events (tables w)). \<exists>v\<in>set (t_versions (tables w)). ev_version e = ver_id v)"
proof -
  have empty: "linked empty_db" by (simp add: linked_def empty_db_def)
  from assms(2) have "wf_db (next_uuid w) (tables w) \<and> linked (tables w)"
  proof (rule reachable_invariant)
    fix w :: world and c assume w: "wf_db (next_uuid w) (tables w) \<and> linked (tables w)"
    then have "wf_db (next_uuid (perform E m c w)) (tables (perform E m c w))"
      using perform_keeps [OF wf_run.operations_axioms assms(1), of m w c] by (simp add: holds_def)
    with w perform_linked [OF assms(1)] show "wf_db (next_uuid (perform E m c w)) (tables (perform E m c w))
        \<and> linked (tables (perform E m c w))" by blast
  qed (simp_all add: wf_empty empty)
  then show ?thesis unfolding linked_def app_ids_def by (auto simp: image_iff subset_iff)
qed

theorem references_kept_witness:
  "t_events (tables granted_world) \<noteq> []
    \<and> ev_version ` set (t_events (tables granted_world)) \<subseteq> ver_id ` set (t_versions (tables granted_world))"
proof -
  have "t_events (tables granted_world) \<noteq> []" by code_simp
  with references_kept [OF demo_codec granted_reachable [of "\<lambda>_. True"]] show ?thesis
    by (auto simp: image_iff)
qed

end
