(* ===== verification/Answers.thy ===== *)
theory Answers
  imports HandlerSpec Accountability
begin

text \<open>
  Which status each writing request is answered with. \<open>due\<close> is the decision table of the nine
  requests behind the gate that write, over the rows of the tables and the request: the refusals in
  their order, then the success. The theorem says that the handlers follow it while the database
  answers, and that a refusal has changed no table.
\<close>

section \<open>The table\<close>

fun first_refusal :: "(bool \<times> nat) list \<Rightarrow> nat \<Rightarrow> nat" where
  "first_refusal [] success = success"
| "first_refusal ((refused, status) # rest) success =
     (if refused then status else first_refusal rest success)"

definition malformed :: "env \<Rightarrow> string \<Rightarrow> bool" where
  "malformed E s \<longleftrightarrow> pg_uuid E s = None"

definition bad_actor :: "env \<Rightarrow> string \<Rightarrow> bool" where
  "bad_actor E s \<longleftrightarrow> s \<noteq> [] \<and> malformed E s"

text \<open>A row of a table has the id that a text reads as.\<close>

definition on_file :: "env \<Rightarrow> string \<Rightarrow> ('r \<Rightarrow> uuid) \<Rightarrow> 'r list \<Rightarrow> bool" where
  "on_file E s key t \<longleftrightarrow> list_ex (\<lambda>x. pg_uuid E s = Some (key x)) t"

text \<open>A row whose credits do not decode.\<close>

definition unreadable :: "env \<Rightarrow> database \<Rightarrow> app_row \<Rightarrow> bool" where
  "unreadable E d a \<longleftrightarrow> (case scan_app_into E d a of Inl e \<Rightarrow> True | Inr x \<Rightarrow> False)"

text \<open>The publisher of the request's organisation, and the app of its slug when it is that publisher's.\<close>

definition my_publisher :: "env \<Rightarrow> request \<Rightarrow> database \<Rightarrow> publisher_row option" where
  "my_publisher E r d =
     (case rq_tenant r of Inl n \<Rightarrow> None
      | Inr t \<Rightarrow> find (\<lambda>p. pg_uuid E t = Some (pub_tenant p)) (t_publishers d))"

definition my_app :: "env \<Rightarrow> request \<Rightarrow> database \<Rightarrow> app option" where
  "my_app E r d =
     (case my_publisher E r d of None \<Rightarrow> None
      | Some p \<Rightarrow>
          (case find (\<lambda>a. app_slug a = rq_param r ''slug'' \<and> app_publisher a = pub_id p) (t_apps d) of
             None \<Rightarrow> None
           | Some a \<Rightarrow> (case scan_app_into E d a of Inl e \<Rightarrow> None | Inr x \<Rightarrow> x)))"

text \<open>A request without an organisation is answered as the core refused it.\<close>

definition for_tenant :: "request \<Rightarrow> (string \<Rightarrow> (bool \<times> nat) list) \<Rightarrow> nat \<Rightarrow> nat" where
  "for_tenant r refusals success =
     (case rq_tenant r of Inl n \<Rightarrow> n | Inr t \<Rightarrow> first_refusal (refusals t) success)"

definition due_set_enabled :: "env \<Rightarrow> request \<Rightarrow> bool option \<Rightarrow> database \<Rightarrow> nat" where
  "due_set_enabled E r b d = first_refusal
     [(b = None, 400), (malformed E (rq_param r ''id''), 500),
      (\<not> on_file E (rq_param r ''id'') pl_id (t_platforms d), 404)] 200"

definition due_grant :: "env \<Rightarrow> request \<Rightarrow> database \<Rightarrow> nat" where
  "due_grant E r d =
     (case find (\<lambda>a. app_id a = rq_param r ''appID'') (t_apps d) of
        None \<Rightarrow> 404
      | Some a \<Rightarrow> first_refusal
          [(list_all (\<lambda>p. pub_id p \<noteq> app_publisher a) (t_publishers d), 404),
           (unreadable E d a, 500),
           (app_visibility a \<noteq> ''private'', 400),
           (bad_actor E (actor_of r), 500),
           (\<not> on_file E (rq_param r ''id'') pl_id (t_platforms d), 500)] 200)"

definition due_revoke :: "env \<Rightarrow> request \<Rightarrow> nat" where
  "due_revoke E r = first_refusal [(malformed E (rq_param r ''id''), 500)] 200"

definition due_create_platform :: "env \<Rightarrow> request \<Rightarrow> create_platform_body option \<Rightarrow> world \<Rightarrow> nat" where
  "due_create_platform E r b w =
     (case b of None \<Rightarrow> 400
      | Some c \<Rightarrow> first_refusal
          [(trim_space (cp_name c) = [], 400),
           (length (entropy w) < 32, 500), (bad_actor E (actor_of r), 500),
           (255 < char_count (trim_space (cp_name c)), 500),
           (list_ex (\<lambda>p. pl_digest p = token_digest E (raw_url_encode (take 32 (entropy w))))
              (t_platforms (tables w)), 500)] 201)"

definition due_decision :: "env \<Rightarrow> request \<Rightarrow> decision_body option \<Rightarrow> database \<Rightarrow> nat" where
  "due_decision E r b d = for_tenant r
     (\<lambda>_. (rq_claims r = None, 401) #
       (case b of None \<Rightarrow> [(True, 400)]
        | Some c \<Rightarrow>
          [(de_action c \<notin> {''publish'', ''reject'', ''yank''}, 400),
           (de_action c \<noteq> ''publish'' \<and> trim_space (de_note c) = [], 400),
           (malformed E (rq_param r ''id''), 500),
           (\<not> on_file E (rq_param r ''id'') ver_id (t_versions d), 404),
           (bad_actor E (actor_of r), 500)])) 200"

definition due_verify :: "env \<Rightarrow> request \<Rightarrow> database \<Rightarrow> nat" where
  "due_verify E r d = for_tenant r
     (\<lambda>_. [(rq_claims r = None, 401), (malformed E (rq_param r ''id''), 500),
       (rq_query r ''verified'' \<noteq> ''false'' \<and> bad_actor E (actor_of r), 500),
       (\<not> on_file E (rq_param r ''id'') pub_id (t_publishers d), 404)]) 200"

definition due_save_profile :: "env \<Rightarrow> request \<Rightarrow> profile_body option \<Rightarrow> database \<Rightarrow> nat" where
  "due_save_profile E r b d = for_tenant r
     (\<lambda>t. (rq_claims r = None, 401) #
       (case b of None \<Rightarrow> [(True, 400)]
        | Some c \<Rightarrow>
          let slug = to_lower E (trim_space (pb_slug c)) in
          [(\<not> is_valid_slug E slug, 400), (trim_space (pb_name c) = [], 400),
           (malformed E t, 500),
           (list_ex (\<lambda>p. pub_slug p = slug \<and> pg_uuid E t \<noteq> Some (pub_tenant p)) (t_publishers d), 409)])) 200"

definition due_upsert_app :: "env \<Rightarrow> request \<Rightarrow> app_body option \<Rightarrow> database \<Rightarrow> nat" where
  "due_upsert_app E r b d = for_tenant r
     (\<lambda>t. [(malformed E t, 500), (my_publisher E r d = None, 404), (rq_claims r = None, 401)] @
       (case b of None \<Rightarrow> [(True, 400)]
        | Some c \<Rightarrow>
          [(ab_id c = [] \<or> \<not> is_valid_slug E (ab_slug c) \<or> trim_space (ab_name c) = [], 400),
           (ab_type c \<notin> {[], ''module'', ''external''}, 400),
           (ab_visibility c \<notin> {[], ''public'', ''private''}, 400),
           (list_ex (\<lambda>a. app_id a = ab_id c \<and> Some (app_publisher a) \<noteq> map_option pub_id (my_publisher E r d))
              (t_apps d), 409),
           (list_ex (\<lambda>a. app_slug a = ab_slug c \<and> app_id a \<noteq> ab_id c) (t_apps d), 409)])) 200"

definition due_submit :: "env \<Rightarrow> request \<Rightarrow> submit_body option \<Rightarrow> database \<Rightarrow> nat" where
  "due_submit E r b d = for_tenant r
     (\<lambda>t. [(malformed E t, 500), (my_publisher E r d = None, 404)] @
       (case my_app E r d of None \<Rightarrow> [(True, 404)]
        | Some a \<Rightarrow> (rq_claims r = None, 401) #
          (case b of None \<Rightarrow> [(True, 400)]
           | Some s \<Rightarrow>
             let m = sb_manifest s; channel = (if sb_channel s = [] then ''stable'' else sb_channel s) in
             [(channel \<notin> {''stable'', ''beta''}, 400), (mf_id m \<noteq> a_id a, 400),
              ((mf_type m = type_external) \<noteq> (a_type a = type_external), 400),
              (validate_manifest E m [] \<noteq> None, 400), (marshal_manifest E m = None, 500),
              (list_ex (\<lambda>v. pg_version_clash E (version_key v) (a_id a, mf_version m, channel)) (t_versions d), 409)]))) 201"

fun due :: "env \<Rightarrow> call \<Rightarrow> world \<Rightarrow> nat option" where
  "due E (SetPlatformEnabled r b) w = Some (due_set_enabled E r b (tables w))"
| "due E (Grant r) w = Some (due_grant E r (tables w))"
| "due E (Revoke r) w = Some (due_revoke E r)"
| "due E (CreatePlatform r b) w = Some (due_create_platform E r b w)"
| "due E (Decision r b) w = Some (due_decision E r b (tables w))"
| "due E (VerifyPublisher r) w = Some (due_verify E r (tables w))"
| "due E (SaveProfile r b) w = Some (due_save_profile E r b (tables w))"
| "due E (UpsertApp r b) w = Some (due_upsert_app E r b (tables w))"
| "due E (SubmitVersion r b) w = Some (due_submit E r b (tables w))"
| "due E _ w = None"

section \<open>Answering with a status\<close>

text \<open>\<open>met h w n\<close>: the handler answers with status \<open>n\<close>, and unless that is a success no table changes.\<close>

definition met :: "'b response act \<Rightarrow> world \<Rightarrow> nat \<Rightarrow> bool" where
  "met h w n \<longleftrightarrow> status_of h w = Some n \<and> (n \<notin> {200, 201} \<longrightarrow> tables (snd (h w)) = tables w)"

lemma met_answer: "met (answer_json n x) w n" "met (answer_error n t) w n"
  by (simp_all add: met_def status_of_def answer_json_def answer_error_def respond_def)

lemma met_signed: "met (andthen (record_audit a) (\<lambda>_. answer_json n x)) w n \<longleftrightarrow> n \<in> {200, 201}"
  if "n \<in> {200, 201}"
  using that by (auto simp: met_def status_of_def answer_json_def respond_def record_audit_def andthen_apply)

lemma met_read: "quiet w \<Longrightarrow> met (k (q (tables w))) (tick w) n \<Longrightarrow> met (attempt (query q) k) w n"
  by (simp add: met_def status_of_def attempt_def query_quiet)

text \<open>What an operation comes to: an error with no table changed, or a success.\<close>

definition ends :: "'a act \<Rightarrow> world \<Rightarrow> err option \<Rightarrow> bool" where
  "ends m w r \<longleftrightarrow> (case r of None \<Rightarrow> \<exists>x. fst (m w) = Inr x
     | Some e \<Rightarrow> fst (m w) = Inl e \<and> tables (snd (m w)) = tables w)"

lemma met_refused: "ends m w (Some e) \<Longrightarrow> met (k (Inl e)) (snd (m w)) n \<Longrightarrow> met (attempt m k) w n"
  by (auto simp: ends_def met_def status_of_def attempt_def split: prod.splits)

lemma met_done: "n \<in> {200, 201} \<Longrightarrow> ends m w None \<Longrightarrow> (\<And>x w'. met (k (Inr x)) w' n) \<Longrightarrow> met (attempt m k) w n"
  by (auto simp: ends_def met_def status_of_def attempt_def split: prod.splits)

lemma met_act:
  assumes "ends m w r" and "case r of None \<Rightarrow> n \<in> {200, 201} \<and> (\<forall>x w'. met (k (Inr x)) w' n)
    | Some e \<Rightarrow> \<forall>w'. met (k (Inl e)) w' n"
  shows "met (attempt m k) w n"
  using assms by (cases r) (auto intro: met_refused met_done)

lemma met_whatever: "n \<in> {200, 201} \<Longrightarrow> (\<And>x w'. met (k x) w' n) \<Longrightarrow> met (attempt m k) w n"
  by (auto simp: met_def status_of_def attempt_def split: prod.split)

lemma first_refusal_skip: "\<not> P \<Longrightarrow> first_refusal ((P, s) # rest) n = first_refusal rest n"
  by simp

lemma met_guard:
  "(\<not> P \<Longrightarrow> met h w (first_refusal rest n)) \<Longrightarrow>
   met (if P then answer_error s t else h) w (first_refusal ((P, s) # rest) n)"
  by (simp add: met_answer)

lemmas met_simps = met_answer met_signed met_whatever

section \<open>The operations\<close>

text \<open>The error of a statement, if it has one.\<close>

definition verdict :: "(time \<Rightarrow> uuid \<Rightarrow> database \<Rightarrow> err + 'a \<times> database) \<Rightarrow> world \<Rightarrow> err + 'a" where
  "verdict q w = map_sum id fst (q (clock (tick w)) (next_uuid w) (tables w))"

lemma ends_stmt: "quiet w \<Longrightarrow> ends (stmt q) w (case verdict q w of Inl e \<Rightarrow> Some e | Inr x \<Rightarrow> None)"
  by (auto simp: ends_def stmt_quiet verdict_def split: sum.split)

lemma ends_rows:
  assumes "quiet w" and "\<And>t n d d'. q t n d = Inr (0, d') \<Longrightarrow> d' = d"
  shows "ends (andthen (stmt q) (\<lambda>rows. if rows = 0 then fail ErrNotFound else ok ())) w
     (case verdict q w of Inl e \<Rightarrow> Some e | Inr x \<Rightarrow> if x = 0 then Some ErrNotFound else None)"
  using assms by (auto simp: ends_def andthen_apply stmt_quiet verdict_def split: sum.split)

lemma rows_on_file:
  "pg_uuid E s = Some u \<Longrightarrow> filter (\<lambda>r. key r = u) t = [] \<longleftrightarrow> \<not> on_file E s key t"
  by (auto simp: on_file_def list_ex_iff filter_empty_conv)

lemma nullif_actor:
  "bad_actor E s \<Longrightarrow> nullif_uuid E s = Inl ErrDriver" "\<not> bad_actor E s \<Longrightarrow> \<exists>u. nullif_uuid E s = Inr u"
  by (auto simp: nullif_uuid_def bad_actor_def malformed_def split: option.split)

lemma ends_set_enabled:
  assumes "quiet w"
  shows "ends (set_platform_enabled E p on) w
    (if malformed E p then Some ErrDriver
     else if \<not> on_file E p pl_id (t_platforms (tables w)) then Some ErrNotFound else None)"
proof -
  have "ends (set_platform_enabled E p on) w (case verdict (set_enabled_stmt E p on) w of
      Inl e \<Rightarrow> Some e | Inr x \<Rightarrow> if x = 0 then Some ErrNotFound else None)"
    unfolding set_platform_enabled_def by (rule ends_rows [OF assms no_row_met(1)])
  then show ?thesis
    by (cases "pg_uuid E p") (simp_all add: verdict_def set_enabled_stmt_def malformed_def rows_on_file [of E p])
qed

lemma ends_set_verified:
  assumes "quiet w"
  shows "ends (set_publisher_verified E i v actor) w
    (if malformed E i \<or> v \<and> bad_actor E actor then Some ErrDriver
     else if \<not> on_file E i pub_id (t_publishers (tables w)) then Some ErrNotFound else None)"
proof -
  have "ends (set_publisher_verified E i v actor) w (case verdict (set_verified_stmt E i v actor) w of
      Inl e \<Rightarrow> Some e | Inr x \<Rightarrow> if x = 0 then Some ErrNotFound else None)"
    unfolding set_publisher_verified_def by (rule ends_rows [OF assms no_row_met(2)])
  moreover have "nullif_uuid E actor = Inl ErrDriver" if "bad_actor E actor" using that by (rule nullif_actor)
  moreover obtain who where "\<not> bad_actor E actor \<Longrightarrow> nullif_uuid E actor = Inr who"
    using nullif_actor(2) by blast
  ultimately show ?thesis
    by (cases "pg_uuid E i"; cases v; cases "bad_actor E actor")
      (simp_all add: verdict_def set_verified_stmt_def malformed_def rows_on_file [of E i])
qed

lemma ends_grant:
  assumes "quiet w" and "wf_db (next_uuid w) (tables w)" and "a \<in> app_ids (tables w)"
  shows "ends (grant E a p actor) w
    (if bad_actor E actor \<or> \<not> on_file E p pl_id (t_platforms (tables w)) then Some ErrDriver else None)"
proof -
  have granted: "list_ex (\<lambda>p. pl_id p = u) (t_platforms (tables w))"
    if "list_ex (\<lambda>g. gr_app g = a \<and> gr_platform g = u) (t_grants (tables w))" for u
    using that wf_dbD(5) [OF assms(2)] by (fastforce simp: wf_grants_def list_ex_iff platform_ids_def)
  have app: "list_ex (\<lambda>r. app_id r = a) (t_apps (tables w))"
    using assms(3) by (auto simp: app_ids_def list_ex_iff)
  have fl: "on_file E p pl_id (t_platforms (tables w)) \<longleftrightarrow>
      (case pg_uuid E p of None \<Rightarrow> False | Some u \<Rightarrow> list_ex (\<lambda>p. pl_id p = u) (t_platforms (tables w)))"
    by (auto simp: on_file_def list_ex_iff split: option.split)
  have "ends (grant E a p actor) w (case verdict (grant_stmt E a p actor) w of Inl e \<Rightarrow> Some e | Inr x \<Rightarrow> None)"
    unfolding grant_def by (rule ends_stmt [OF assms(1)])
  moreover have "nullif_uuid E actor = Inl ErrDriver" if "bad_actor E actor" using that by (rule nullif_actor)
  moreover obtain who where "\<not> bad_actor E actor \<Longrightarrow> nullif_uuid E actor = Inr who"
    using nullif_actor(2) by blast
  ultimately show ?thesis
    using granted app
    by (cases "pg_uuid E p"; cases "bad_actor E actor") (simp_all add: verdict_def grant_stmt_def fl split: if_splits)
qed

lemma ends_revoke: "quiet w \<Longrightarrow> ends (revoke E a p) w (if malformed E p then Some ErrDriver else None)"
  using ends_stmt [of w "revoke_stmt E a p"]
  by (simp add: revoke_def revoke_stmt_def malformed_def verdict_def split: option.splits)

lemma ends_create_platform:
  assumes "quiet w" and "trim_space name \<noteq> []"
  shows "\<exists>e. ends (create_platform E name origin nt actor) w
    (if length (entropy w) < 32 \<or> bad_actor E actor \<or> 255 < char_count (trim_space name)
        \<or> list_ex (\<lambda>p. pl_digest p = token_digest E (raw_url_encode (take 32 (entropy w)))) (t_platforms (tables w))
     then Some e else None)"
proof (cases "length (entropy w) < 32")
  case True
  with assms show ?thesis
    by (intro exI [of _ ErrDriver])
      (simp add: ends_def create_platform_def Let_def new_token_def rand_read_def andthen_apply)
next
  case False
  have "quiet (w\<lparr>entropy := drop 32 (entropy w)\<rparr>)" using assms(1) by simp
  note s = stmt_quiet [OF this]
  show ?thesis
    using False assms
    by (auto simp: ends_def create_platform_def Let_def new_token_def rand_read_def andthen_apply s
        insert_platform_stmt_def bad_actor_def malformed_def nullif_uuid_def split: option.splits if_splits)
qed

text \<open>A refinement of an operation decides its end.\<close>

lemma ends_refined:
  assumes "(fst (m w) = Inl ErrDriver \<and> \<not> quiet w \<and> tables (snd (m w)) = tables w)
    \<or> agrees r (fst (m w)) (tables (snd (m w)))
      \<and> ((\<exists>e. fst (m w) = Inl e) \<longrightarrow> tables (snd (m w)) = tables w)"
    and "quiet w"
  shows "ends m w (case r of Inl e \<Rightarrow> Some e | Inr x \<Rightarrow> None)"
  using assms by (cases r) (auto simp: ends_def)

lemma ends_decide:
  assumes "quiet w" and "status_of_action action = Some status"
  shows "ends (decide_version E v action aid actor nt) w
    (if malformed E v then Some ErrDriver
     else if \<not> on_file E v ver_id (t_versions (tables w)) then Some ErrNotFound
     else if bad_actor E aid then Some ErrDriver else None)"
proof -
  let ?f = "decide_pure E v action aid actor nt (now (tick w))"
  have "ends (decide_version E v action aid actor nt) w (case ?f (tables w) of Inl e \<Rightarrow> Some e | Inr x \<Rightarrow> None)"
    by (rule ends_refined) (rule decide_refines, rule assms(1))
  moreover have "nullif_uuid E aid = Inl ErrDriver" if "bad_actor E aid" using that by (rule nullif_actor)
  moreover obtain who where "\<not> bad_actor E aid \<Longrightarrow> nullif_uuid E aid = Inr who"
    using nullif_actor(2) by blast
  ultimately show ?thesis
    by (cases "pg_uuid E v"; cases "bad_actor E aid")
      (simp_all add: decide_pure_def assms(2) seq_pure_def decide_stmt_def malformed_def rows_on_file [of E v]
        provenance_stmt_def insert_event_stmt_def bump_pure_def del: status_of_action.simps split: if_splits)
qed

lemma each_text_written: "\<exists>ys d'. each_pure (\<lambda>lt. upsert_text_stmt i lt t n) texts d = Inr (ys, d')"
proof (induction texts arbitrary: d)
  case (Cons lt texts)
  obtain d1 where "upsert_text_stmt i lt t n d = Inr ((), d1)" by (simp add: upsert_text_stmt_def)
  with Cons.IH [of d1] show ?case by (auto simp: seq_pure_def)
qed simp

lemma ends_upsert_app:
  assumes "uuid_codec E" and "quiet w" and "wf_apps (t_apps (tables w))" and "a_publisher_id a = pg_uuid_text E u"
  shows "ends (upsert_app E a texts) w
    (if list_ex (\<lambda>r. app_id r = a_id a \<and> app_publisher r \<noteq> u) (t_apps (tables w))
        \<or> list_ex (\<lambda>r. app_slug r = a_slug a \<and> app_id r \<noteq> a_id a) (t_apps (tables w))
     then Some ErrConflict else None)"
proof -
  let ?f = "upsert_app_pure E a texts (now (tick w))" and ?d = "tables w"
  have e: "ends (upsert_app E a texts) w (case ?f ?d of Inl e \<Rightarrow> Some e | Inr x \<Rightarrow> None)"
    by (rule ends_refined) (rule upsert_app_refines, rule assms(2))
  let ?owner = "map_option (\<lambda>r. pg_uuid_text E (app_publisher r)) (find (\<lambda>r. app_id r = a_id a) (t_apps ?d))"
  have foreign: "?owner \<noteq> None \<and> ?owner \<noteq> Some (a_publisher_id a) \<longleftrightarrow>
      list_ex (\<lambda>r. app_id r = a_id a \<and> app_publisher r \<noteq> u) (t_apps ?d)"
  proof (cases "find (\<lambda>r. app_id r = a_id a) (t_apps ?d)")
    case (Some r)
    then have r: "r \<in> set (t_apps ?d)" "app_id r = a_id a" by (auto dest: find_SomeD)
    have "q = r" if "q \<in> set (t_apps ?d)" and "app_id q = a_id a" for q
      using that r assms(3) by (auto simp: wf_apps_def distinct_map inj_on_def)
    with r have "list_ex (\<lambda>r. app_id r = a_id a \<and> app_publisher r \<noteq> u) (t_apps ?d) \<longleftrightarrow> app_publisher r \<noteq> u"
      unfolding list_ex_iff by metis
    then show ?thesis using uuid_text_inject [OF assms(1)] by (simp add: Some assms(4))
  qed (auto simp: find_None_iff list_ex_iff)
  let ?taken = "list_ex (\<lambda>r. app_slug r = a_slug a \<and> app_id r \<noteq> a_id a) (t_apps ?d)"
  have p: "pg_uuid E (a_publisher_id a) = Some u" using uuid_codecD(1) [OF assms(1)] assms(4) by simp
  consider (owner) "?owner \<noteq> None \<and> ?owner \<noteq> Some (a_publisher_id a)"
    | (slug) "\<not> (?owner \<noteq> None \<and> ?owner \<noteq> Some (a_publisher_id a))" ?taken
    | (free) "\<not> (?owner \<noteq> None \<and> ?owner \<noteq> Some (a_publisher_id a))" "\<not> ?taken" by blast
  then show ?thesis
  proof cases
    case owner
    then have "?f ?d = Inl ErrConflict" by (simp add: upsert_app_pure_def seq_pure_def)
    with e owner foreign show ?thesis by simp
  next
    case slug
    then have "upsert_app_stmt E a t 0 ?d = Inl ErrUnique" for t by (simp add: upsert_app_stmt_def p)
    with slug(1) have "?f ?d = Inl ErrConflict"
      by (simp only: upsert_app_pure_def seq_pure_def sum.case prod.case if_False conflict_error_def
          is_unique_violation_def if_True simp_thms)
    with e slug(2) show ?thesis by simp
  next
    case free
    then obtain d1 where "upsert_app_stmt E a (now (tick w)) 0 ?d = Inr ((), d1)" by (simp add: upsert_app_stmt_def p)
    moreover obtain ys d2 where "each_pure (\<lambda>lt. upsert_text_stmt (a_id a) lt (now (tick w)) 0) texts d1 = Inr (ys, d2)"
      using each_text_written by blast
    ultimately have "\<exists>x. ?f ?d = Inr x"
      using free(1) by (simp only: upsert_app_pure_def seq_pure_def sum.case prod.case if_False bump_pure_def) simp
    with e free foreign show ?thesis by auto
  qed
qed

lemma ends_upsert_publisher:
  assumes "uuid_codec E" and "quiet w"
  shows "ends (upsert_publisher E p) w
    (if malformed E (b_tenant_id p) then Some ErrDriver
     else if list_ex (\<lambda>r. pub_slug r = b_slug p \<and> pg_uuid E (b_tenant_id p) \<noteq> Some (pub_tenant r))
         (t_publishers (tables w)) then Some ErrConflict else None)"
proof (cases "upsert_publisher_stmt E p (clock (tick w)) (next_uuid w) (tables w)")
  case (Inl e)
  then show ?thesis
    using assms(2)
    by (auto simp: ends_def upsert_publisher_def attempt_def stmt_quiet malformed_def upsert_publisher_stmt_def
        conflict_error_def is_unique_violation_def list_ex_iff Let_def split: option.splits if_splits)
next
  case (Inr x)
  then obtain u d where x: "x = (u, d)" by (cases x)
  from upserted_publisher [OF Inr [unfolded x]] have "find (\<lambda>b. pub_id b = u) (t_publishers d) \<noteq> None"
    by (auto simp: find_None_iff)
  then have "\<exists>y. fst (upsert_publisher E p w) = Inr y"
    using assms(2) Inr x uuid_codecD(1) [OF assms(1)]
    by (auto simp: upsert_publisher_def attempt_def stmt_quiet publisher_by_id_def query_quiet scan_publisher_def)
  moreover have "\<not> malformed E (b_tenant_id p)"
    and "\<not> list_ex (\<lambda>r. pub_slug r = b_slug p \<and> pg_uuid E (b_tenant_id p) \<noteq> Some (pub_tenant r)) (t_publishers (tables w))"
    using Inr by (auto simp: malformed_def upsert_publisher_stmt_def list_ex_iff Let_def split: option.splits if_splits)
  ultimately show ?thesis by (simp add: ends_def)
qed

lemma submission_commits:
  assumes "uuid_codec E" and "quiet w"
    and "\<not> list_ex (\<lambda>q. pg_version_clash E (version_key q) (v_app_id v, v_version v, v_channel v)) (t_versions (tables w))"
  shows "\<exists>u w'. transaction (submission E v j x) w = (Inr u, w')"
proof -
  let ?w1 = "(tick w)\<lparr>tx_start := Some (now (tick w))\<rparr>"
  have q: "quiet ?w1" and t: "tables ?w1 = tables w" using assms(2) by simp_all
  obtain d where "insert_version_stmt E v j (clock (tick ?w1)) (next_uuid ?w1) (tables w) = Inr (next_uuid ?w1, d)"
    using assms(3) by (simp add: insert_version_stmt_def version_key_def Let_def)
  then obtain u w2 where a: "stmt (insert_version_stmt E v j) ?w1 = (Inr u, w2)" and q2: "quiet w2"
    using stmt_quiet [OF q, of "insert_version_stmt E v j"] quiet_tick [OF q] unfolding t by simp
  let ?ext = "case x of None \<Rightarrow> ok () | Some x \<Rightarrow> stmt (upsert_external_stmt E (v_app_id v) x)"
  obtain w3 where b: "?ext w2 = (Inr (), w3)" and q3: "quiet w3"
    using q2 by (cases x) (simp_all add: stmt_quiet upsert_external_stmt_def)
  obtain w4 where c: "stmt (insert_event_stmt E (pg_uuid_text E u) [] (v_submitted_by v) ''submitted'' []) w3 = (Inr (), w4)"
    and "quiet w4"
    using q3 uuid_codecD(1) [OF assms(1)] by (simp add: stmt_quiet insert_event_stmt_def nullif_uuid_def)
  then show ?thesis
    using assms(2) a b c by (simp add: transaction_def Let_def attempt_def)
qed

lemma ends_submit_version:
  assumes "uuid_codec E" and "manifests_read_back E" and "wf_db (next_uuid w) (tables w)" and "quiet w"
    and "marshal_manifest E (v_manifest v) = Some j"
  shows "ends (submit_version E v x) w
    (if list_ex (\<lambda>q. pg_version_clash E (version_key q) (v_app_id v, v_version v, v_channel v)) (t_versions (tables w))
     then Some ErrConflict else None)"
proof (cases "list_ex (\<lambda>q. pg_version_clash E (version_key q) (v_app_id v, v_version v, v_channel v)) (t_versions (tables w))")
  case True
  then show ?thesis
    using duplicate_version_refused [OF assms(5), of _ w x] assms(4) by (auto simp: ends_def list_ex_iff)
next
  case False
  obtain r w' where s: "submit_version E v x w = (r, w')" by fastforce
  obtain u w1 where t: "transaction (submission E v j x) w = (Inr u, w1)"
    using submission_commits [OF assms(1,4) False] by blast
  from submit_transaction [OF assms(1) t] have "t_versions (tables w1) \<noteq> t_versions (tables w)"
    by (auto simp: submitted_def)
  moreover have "tables w' = tables w1"
    using s t assms(5) by (auto simp: submit_version_def version_by_id_def query_def split: if_splits)
  moreover obtain m where "unmarshal_manifest E j = Some m"
    using assms(2,5) unfolding manifests_read_back_def by blast
  ultimately show ?thesis
    using submission_cases [OF assms(1,3) s] assms(4,5) s False by (auto simp: ends_def)
qed

section \<open>The handlers\<close>

lemma met_set_enabled:
  assumes "quiet w"
  shows "met (handle_set_platform_enabled E r b) w (due_set_enabled E r b (tables w))"
proof (cases b)
  case (Some v)
  show ?thesis
    unfolding handle_set_platform_enabled_def due_set_enabled_def Some option.case
    by (rule met_act [OF ends_set_enabled [OF assms]]) (simp add: met_simps)
qed (simp add: handle_set_platform_enabled_def due_set_enabled_def met_simps)

lemma met_revoke: "quiet w \<Longrightarrow> met (handle_revoke E r) w (due_revoke E r)"
  unfolding handle_revoke_def due_revoke_def Let_def
  by (rule met_act [OF ends_revoke], assumption) (simp add: met_simps)

lemma met_create_platform:
  assumes "quiet w"
  shows "met (handle_create_platform E r b) w (due_create_platform E r b w)"
proof (cases b)
  case (Some c)
  show ?thesis
    unfolding handle_create_platform_def due_create_platform_def Some option.case
  proof (rule met_guard, goal_cases)
    case 1
    from ends_create_platform [OF assms 1] obtain e where
      "ends (create_platform E (cp_name c) (cp_origin c) (cp_note c) (actor_of r)) w
      (if length (entropy w) < 32 \<or> bad_actor E (actor_of r) \<or> 255 < char_count (trim_space (cp_name c))
        \<or> list_ex (\<lambda>p. pl_digest p = token_digest E (raw_url_encode (take 32 (entropy w)))) (t_platforms (tables w))
       then Some e else None)" by blast
    then show ?case
      by (rule met_act) (simp add: met_simps)
  qed
qed (simp add: handle_create_platform_def due_create_platform_def met_simps)

lemma met_session:
  assumes "\<And>t c. rq_tenant r = Inr t \<Longrightarrow> rq_claims r = Some c \<Longrightarrow> met (k t c) w (first_refusal (f t) n)"
  shows "met (require_session r k) w (for_tenant r (\<lambda>t. (rq_claims r = None, 401) # f t) n)"
  using assms by (auto simp: require_session_def for_tenant_def met_simps split: sum.split option.split)

lemma met_decision:
  assumes "quiet w"
  shows "met (handle_decision E r b) w (due_decision E r b (tables w))"
  unfolding handle_decision_def due_decision_def
proof (rule met_session, goal_cases)
  case (1 t c)
  show ?case
  proof (cases b)
    case (Some d)
    show ?thesis
    proof (cases "decision_error d")
      case None
      then obtain status where st: "status_of_action (de_action d) = Some status"
        and d: "de_action d \<in> {''publish'', ''reject'', ''yank''}" "de_action d = ''publish'' \<or> trim_space (de_note d) \<noteq> []"
        by (auto simp: decision_error_def split: if_splits)
      have "actor_of r = cl_user_id c" using 1(2) by (simp add: actor_of_def)
      with d show ?thesis
        unfolding Some option.case None
        by (intro met_act [OF ends_decide [OF assms st]]) (auto simp: met_simps)
    qed (auto simp: Some decision_error_def met_simps split: if_splits)
  qed (simp add: met_simps)
qed

lemma met_verify:
  assumes "quiet w"
  shows "met (handle_verify_publisher E r) w (due_verify E r (tables w))"
  unfolding handle_verify_publisher_def due_verify_def Let_def
proof (rule met_session, goal_cases)
  case (1 t c)
  then have "actor_of r = cl_user_id c" by (simp add: actor_of_def)
  then show ?case by (intro met_act [OF ends_set_verified [OF assms]]) (simp add: met_simps)
qed

lemma met_save_profile:
  assumes "uuid_codec E" and "quiet w"
  shows "met (handle_save_profile E r b) w (due_save_profile E r b (tables w))"
  unfolding handle_save_profile_def due_save_profile_def Let_def
proof (rule met_session, goal_cases)
  case (1 t c)
  show ?case
  proof (cases b)
    case (Some d)
    show ?thesis
      unfolding Some option.case
      by (intro met_guard met_act [OF ends_upsert_publisher [OF assms]]) (simp add: met_simps)
  qed (simp add: met_simps)
qed

text \<open>The publisher of the request's organisation: what \<open>publisher_for\<close> goes on with.\<close>

lemma met_publisher_for:
  assumes "quiet w" and "\<And>p t. rq_tenant r = Inr t \<Longrightarrow> my_publisher E r (tables w) = Some p \<Longrightarrow>
    met (k (publisher_of_row E p) t) (tick w) (first_refusal (f t) n)"
  shows "met (publisher_for E r k) w
    (for_tenant r (\<lambda>t. [(malformed E t, 500), (my_publisher E r (tables w) = None, 404)] @ f t) n)"
proof (cases "rq_tenant r")
  case (Inr t)
  have mine: "my_publisher E r (tables w) = (case pg_uuid E t of None \<Rightarrow> None
      | Some u \<Rightarrow> find (\<lambda>p. pub_tenant p = u) (t_publishers (tables w)))"
    by (auto simp: my_publisher_def Inr find_None_iff split: option.split intro!: find_cong)
  show ?thesis
    unfolding publisher_for_def publisher_by_tenant_def Inr sum.case
    using assms(2) [OF Inr] mine Inr
    by (intro met_read [OF assms(1)])
      (auto simp: for_tenant_def malformed_def scan_publisher_def met_simps split: option.split)
qed (simp add: publisher_for_def for_tenant_def met_simps)

lemma met_claims:
  assumes "\<And>c. rq_claims r = Some c \<Longrightarrow> met (k c) w (first_refusal rest n)"
  shows "met (case rq_claims r of None \<Rightarrow> answer_error 401 t | Some c \<Rightarrow> k c) w
    (first_refusal ((rq_claims r = None, 401) # rest) n)"
  using assms by (simp add: met_answer split: option.split)

text \<open>The checks of a registration; what they leave of the body.\<close>

lemma normalised:
  "case normalise_app_body E b of
     Inl msg \<Rightarrow> ab_id b = [] \<or> \<not> is_valid_slug E (ab_slug b) \<or> trim_space (ab_name b) = []
       \<or> ab_type b \<notin> {[], ''module'', ''external''} \<or> ab_visibility b \<notin> {[], ''public'', ''private''}
   | Inr c \<Rightarrow> ab_id c = ab_id b \<and> ab_slug c = ab_slug b
       \<and> \<not> (ab_id b = [] \<or> \<not> is_valid_slug E (ab_slug b) \<or> trim_space (ab_name b) = [])
       \<and> ab_type b \<in> {[], ''module'', ''external''} \<and> ab_visibility b \<in> {[], ''public'', ''private''}"
  by (auto simp: normalise_app_body_def Let_def type_module_def type_external_def)

lemma met_upsert_app:
  assumes "uuid_codec E" and "wf_db (next_uuid w) (tables w)" and "quiet w"
  shows "met (handle_upsert_app E r b) w (due_upsert_app E r b (tables w))"
  unfolding handle_upsert_app_def due_upsert_app_def append_Cons append_Nil
proof (rule met_publisher_for [OF assms(3), unfolded append_Cons append_Nil], rule met_claims, goal_cases)
  case (1 p t c)
  show ?case
  proof (cases b)
    case (Some d)
    show ?thesis
    proof (cases "normalise_app_body E d")
      case (Inl msg)
      with normalised [where E = E and b = d] show ?thesis by (auto simp: Some met_simps)
    next
      case (Inr e)
      have "wf_apps (t_apps (tables (tick w)))" using wf_dbD(2) [OF assms(2)] by simp
      note ends = ends_upsert_app [OF assms(1) quiet_tick [OF assms(3)] this, of "app_of_body (publisher_of_row E p) c e" "pub_id p"]
      have "a_publisher_id (app_of_body (publisher_of_row E p) c e) = pg_uuid_text E (pub_id p)"
        by (simp add: app_of_body_def publisher_of_row_def)
      with normalised [where E = E and b = d] 1(2) show ?thesis
        unfolding Some Inr option.case sum.case
        by (intro met_act [OF ends]) (auto simp: met_simps app_of_body_def)
    qed
  qed (simp add: met_simps)
qed

lemma my_app_found:
  assumes "uuid_codec E" and "wf_apps (t_apps d)" and "my_publisher E r d = Some p"
  shows "my_app E r d = (case scan_app E d (find (\<lambda>a. app_slug a = rq_param r ''slug'') (t_apps d)) of
      Inl e \<Rightarrow> None | Inr x \<Rightarrow> if a_publisher_id x = pg_uuid_text E (pub_id p) then Some x else None)"
proof (cases "find (\<lambda>a. app_slug a = rq_param r ''slug'') (t_apps d)")
  case None
  then have "find (\<lambda>a. app_slug a = rq_param r ''slug'' \<and> app_publisher a = pub_id p) (t_apps d) = None"
    by (auto simp: find_None_iff)
  with None show ?thesis by (simp add: my_app_def assms(3) scan_app_def)
next
  case (Some a)
  then have a: "a \<in> set (t_apps d)" "app_slug a = rq_param r ''slug''" by (auto dest: find_SomeD)
  have one: "q = a" if "q \<in> set (t_apps d)" and "app_slug q = rq_param r ''slug''" for q
    using that a assms(2) by (auto simp: wf_apps_def distinct_map inj_on_def)
  have "find (\<lambda>a. app_slug a = rq_param r ''slug'' \<and> app_publisher a = pub_id p) (t_apps d) =
      find (\<lambda>q. app_slug q = rq_param r ''slug'' \<and> app_publisher a = pub_id p) (t_apps d)"
    using one by (intro find_cong) auto
  also have "\<dots> = (if app_publisher a = pub_id p then Some a else None)"
    by (simp add: Some find_None_iff)
  finally have mine: "find (\<lambda>a. app_slug a = rq_param r ''slug'' \<and> app_publisher a = pub_id p) (t_apps d) =
      (if app_publisher a = pub_id p then Some a else None)" .
  have owner: "a_publisher_id x = pg_uuid_text E (pub_id p) \<longleftrightarrow> app_publisher a = pub_id p"
    if "scan_app_into E d a = Inr (Some x)" for x
    using uuid_text_inject [OF assms(1)] scan_app_intoD [OF that] by simp
  show ?thesis
    using owner by (auto simp: my_app_def assms(3) mine Some scan_app_def split: sum.split option.split)
qed

lemma met_own_app:
  assumes "uuid_codec E" and "wf_db (next_uuid w) (tables w)" and "quiet w"
    and "\<And>a t. rq_tenant r = Inr t \<Longrightarrow> my_app E r (tables w) = Some a \<Longrightarrow>
      met (k a t) (tick (tick w)) (first_refusal (f a) n)"
  shows "met (own_app E r k) w (for_tenant r
    (\<lambda>t. [(malformed E t, 500), (my_publisher E r (tables w) = None, 404)] @
      (case my_app E r (tables w) of None \<Rightarrow> [(True, 404)] | Some a \<Rightarrow> f a)) n)"
  unfolding own_app_def app_by_slug_def
proof (rule met_publisher_for [OF assms(3)], rule met_read, goal_cases)
  case (2 p t)
  have "wf_apps (t_apps (tables w))" by (rule wf_dbD(2) [OF assms(2)])
  with my_app_found [OF assms(1) this 2(2)] assms(4) [OF 2(1)] show ?case
    by (auto simp: met_simps publisher_of_row_def split: sum.split)
qed (simp add: assms(3))

lemma met_submission:
  assumes "uuid_codec E" and "manifests_read_back E" and "wf_db (next_uuid w) (tables w)" and "quiet w"
    and "\<And>msg w'. met (k (Inl (ErrInvalidSubmission msg))) w' 400" and "\<And>t w'. met (k (Inl (ErrMsg t))) w' 500"
    and "\<And>w'. met (k (Inl ErrConflict)) w' 409" and "\<And>x w'. met (k (Inr x)) w' 201"
  shows "met (attempt (submit_manifest E a channel m who) k) w (first_refusal
    (let channel = (if channel = [] then ''stable'' else channel) in
     [(channel \<notin> {''stable'', ''beta''}, 400), (mf_id m \<noteq> a_id a, 400),
      ((mf_type m = type_external) \<noteq> (a_type a = type_external), 400),
      (validate_manifest E m [] \<noteq> None, 400), (marshal_manifest E m = None, 500),
      (list_ex (\<lambda>v. pg_version_clash E (version_key v) (a_id a, mf_version m, channel)) (t_versions (tables w)), 409)]) 201)"
proof -
  define c where "c = (if channel = [] then ''stable'' else channel)"
  let ?v = "submitted_version a c m who" and ?x = "external_from_manifest E (a_id a) m"
  show ?thesis
  proof (cases "submission_error E a c m")
    case (Some msg)
    then have "ends (submit_manifest E a channel m who) w (Some (ErrInvalidSubmission (''invalid submission: '' @ msg)))"
      by (simp add: submit_manifest_def Let_def c_def ends_def)
    from met_act [OF this, of 400 k] Some assms(5) show ?thesis
      unfolding Let_def c_def [symmetric] by (auto simp: submission_error_def split: if_splits)
  next
    case None
    then have s: "submit_manifest E a channel m who = submit_version E ?v ?x"
      by (simp add: submit_manifest_def Let_def c_def)
    have ok: "c \<in> {''stable'', ''beta''}" "mf_id m = a_id a"
      "(mf_type m = type_external) = (a_type a = type_external)" "validate_manifest E m [] = None"
      using None by (auto simp: submission_error_def split: if_splits)
    have v: "v_manifest ?v = m" "v_app_id ?v = a_id a" "v_version ?v = mf_version m" "v_channel ?v = c"
      by (simp_all add: submitted_version_def)
    show ?thesis
    proof (cases "marshal_manifest E m")
      case None
      then have "ends (submit_version E ?v ?x) w (Some (ErrMsg ''json: unsupported value''))"
        by (simp add: submit_version_def v ends_def)
      from met_act [OF this, of 500 k] assms(6) ok None show ?thesis
        unfolding Let_def c_def [symmetric] s by simp
    next
      case (Some j)
      from ends_submit_version [OF assms(1-4), of ?v j ?x] Some
      have "ends (submit_version E ?v ?x) w (if list_ex (\<lambda>q. pg_version_clash E (version_key q) (a_id a, mf_version m, c))
          (t_versions (tables w)) then Some ErrConflict else None)" unfolding v by simp
      from met_act [OF this, of _ k] ok Some assms(7,8) show ?thesis
        unfolding Let_def c_def [symmetric] s by auto
    qed
  qed
qed

lemma met_submit:
  assumes "uuid_codec E" and "manifests_read_back E" and "wf_db (next_uuid w) (tables w)" and "quiet w"
  shows "met (handle_submit_version E r b) w (due_submit E r b (tables w))"
  unfolding handle_submit_version_def due_submit_def
proof (rule met_own_app [OF assms(1,3,4)], rule met_claims, goal_cases)
  case (1 a t c)
  have wf: "wf_db (next_uuid (tick (tick w))) (tables (tick (tick w)))"
    using assms(3) next_uuid_tick [of w] next_uuid_tick [of "tick w"] by (auto intro: wf.up)
  have q: "quiet (tick (tick w))" using assms(4) by simp
  show ?case
  proof (cases b)
    case (Some d)
    show ?thesis
      unfolding Some option.case Let_def
      by (rule met_submission [OF assms(1,2) wf q, unfolded tick_simps(1) Let_def]) (simp_all add: met_simps)
  qed (simp add: met_simps)
qed

lemma met_grant:
  assumes "wf_db (next_uuid w) (tables w)" and "quiet w"
  shows "met (handle_grant E r) w (due_grant E r (tables w))"
  unfolding handle_grant_def Let_def app_by_id_def
proof (rule met_read [OF assms(2)], goal_cases)
  case 1
  let ?d = "tables w"
  show ?case
  proof (cases "find (\<lambda>a. app_id a = rq_param r ''appID'') (t_apps ?d)")
    case (Some a)
    then have "a \<in> set (t_apps ?d)" and "app_id a = rq_param r ''appID''" by (auto dest: find_SomeD)
    then have a: "rq_param r ''appID'' \<in> app_ids (tables (tick w))" by (force simp: app_ids_def)
    have wf: "wf_db (next_uuid (tick w)) (tables (tick w))"
      using assms(1) next_uuid_tick [of w] by (auto intro: wf.up)
    note grant = met_act [OF ends_grant [OF quiet_tick [OF assms(2)] wf a]]
    show ?thesis
    proof (cases "find (\<lambda>p. pub_id p = app_publisher a) (t_publishers ?d)")
      case None
      then have "scan_app_into E ?d a = Inr None" by (simp add: scan_app_into_def)
      moreover from None have "list_all (\<lambda>p. pub_id p \<noteq> app_publisher a) (t_publishers ?d)"
        by (simp add: find_None_iff list_all_iff)
      ultimately show ?thesis by (simp add: Some scan_app_def due_grant_def met_simps)
    next
      case found: (Some p)
      then have l: "\<not> list_all (\<lambda>p. pub_id p \<noteq> app_publisher a) (t_publishers ?d)"
        by (auto simp: list_all_iff dest: find_SomeD)
      show ?thesis
      proof (cases "scan_app_into E ?d a")
        case (Inl e)
        then have "e = ErrDriver" by (auto simp: scan_app_into_def found split: sum.splits)
        with l Inl show ?thesis by (simp add: Some scan_app_def due_grant_def unreadable_def met_simps)
      next
        case (Inr y)
        then obtain x where x: "scan_app_into E ?d a = Inr (Some x)"
          by (auto simp: scan_app_into_def found split: sum.splits)
        then have v: "a_visibility x = app_visibility a" by (simp add: scan_app_intoD)
        have u: "\<not> unreadable E ?d a" using x by (simp add: unreadable_def)
        show ?thesis
          unfolding due_grant_def Some scan_app_def option.case x sum.case v first_refusal_skip [OF l] first_refusal_skip [OF u]
          by (intro met_guard grant) (simp add: met_simps)
      qed
    qed
  qed (simp add: scan_app_def due_grant_def met_simps)
qed

section \<open>Property\<close>

text \<open>
  C28: which answer is due. While the database answers, each of the nine requests behind the gate
  that write is answered with the status the decision table gives for its tables and its body:
  the first of the refusals that applies, in that order, and the success when none does. A request
  that is refused has changed no table.
\<close>

theorem answers_due:
  assumes "uuid_codec E" and "manifests_read_back E" and "wf_db (next_uuid w) (tables w)" and "quiet w"
    and "due E c w = Some n"
  shows "answer_status E m c w = Some n \<and> (n \<notin> {200, 201} \<longrightarrow> tables (perform E m c w) = tables w)"
  using met_set_enabled [OF assms(4)] met_revoke [OF assms(4)] met_create_platform [OF assms(4)]
    met_decision [OF assms(4)] met_verify [OF assms(4)] met_save_profile [OF assms(1,4)]
    met_upsert_app [OF assms(1,3,4)] met_submit [OF assms(1-4)] met_grant [OF assms(3,4)] assms(5)
  by (cases c) (simp_all add: met_def)

text \<open>The second organisation of \<open>rival_world\<close> registers the first one's id, and submits a version of its app.\<close>

definition rival_app :: call where
  "rival_app = UpsertApp rival_request (Some \<lparr>ab_id = ''a'', ab_slug = ''r'', ab_type = [], ab_name = ''R'',
     ab_description = [], ab_icon_url = [], ab_category = [], ab_visibility = [], ab_texts = []\<rparr>)"

definition rival_submission :: call where
  "rival_submission = SubmitVersion rival_request rival_body"

theorem answers_due_witness:
  "answer_status demo_env demo_module rival_app rival_world = Some 409
    \<and> answer_status demo_env demo_module rival_submission rival_world = Some 404
    \<and> tables (perform demo_env demo_module rival_app rival_world) = tables rival_world"
proof -
  have w: "wf_db (next_uuid rival_world) (tables rival_world)" by code_simp
  have q: "quiet rival_world" by (simp add: quiet_def rival_world_def demo_world_def)
  have r: "manifests_read_back demo_env" by (auto simp: manifests_read_back_def demo_env_def)
  have "due demo_env rival_app rival_world = Some 409" "due demo_env rival_submission rival_world = Some 404"
    by code_simp+
  with answers_due [OF demo_codec r w q] show ?thesis by simp
qed

end
