(* ===== verification/Spec2Isabelle.thy ===== *)
theory Spec2Isabelle
  imports CatalogSpec PlatformSpec StoreSpec ReviewSpec HistorySpec ServingSpec HandlerSpec AccessSpec
    PublicationSpec ReviewTrail Modules Rotation Lifetime ImportCommand Accountability References Answers
begin

text \<open>
  The Gerege App Store registry, \<^verbatim>\<open>appstore-gerege-nexus\<close>: the Go service that keeps the
  catalogue of apps for the Gerege platform, lets publishers submit versions, lets reviewers decide
  on them, and serves each platform instance a signed document of the apps it may install. The
  service is three modules of one server, over one PostgreSQL database; all state is in that
  database, and the handlers of the modules meet only there.

  The program and its theories:

  \<^item> Go's library on bytes and text: \<open>GoText\<close>, \<open>GoTime\<close> (\<^verbatim>\<open>strings\<close>,
    \<^verbatim>\<open>encoding/base64\<close>, RFC 3339 stamps, the quoting of \<^verbatim>\<open>encoding/json\<close>). A Go string is
    the list of its bytes.
  \<^item> \<open>World\<close>: the tables, the code outside the repository as the record \<open>env\<close>, and statements
    and transactions as functions on a state. Each driver call takes one outcome of a schedule: it
    goes through or it fails, and time passes. A property that holds for every schedule therefore
    holds whichever calls fail.
  \<^item> \<open>Platforms\<close> (\<^verbatim>\<open>modules/registry/platforms.go\<close>): platforms, their tokens (kept as a
    digest), grants of private apps, audiences.
  \<^item> \<open>StoreApps\<close> and \<open>StoreVersions\<close> (\<^verbatim>\<open>modules/registry/store.go\<close>): publishers, apps and
    translations; versions, submissions, decisions, review history and the revision counter.
  \<^item> \<open>Catalog\<close> (\<^verbatim>\<open>modules/registry/catalog.go\<close>): the signer, the selection of versions, the
    signed document, the two caches of documents.
  \<^item> \<open>Http\<close>, \<open>Public\<close> (\<^verbatim>\<open>public.go\<close>, the constructor of \<^verbatim>\<open>registry.go\<close>),
    \<open>PlatformHandlers\<close> (\<^verbatim>\<open>platform_handlers.go\<close>), \<open>Review\<close>
    (\<^verbatim>\<open>modules/review/review.go\<close>), \<open>Publisher\<close> (\<^verbatim>\<open>modules/publisher/publisher.go\<close>): the
    handlers, one definition each, with their answers as values.
  \<^item> \<open>System\<close>: the routes of the three modules as one datatype of requests, \<open>perform\<close> as the
    step a request makes, and runs as the inductive relation \<open>reachable\<close>. \<open>Modules\<close>: what the
    modules declare to the core, the order \<^verbatim>\<open>main.go\<close> registers them in and the status it exits
    with, and the complaints of \<^verbatim>\<open>route_policy_test.go\<close> about the routes against the list of
    public ones: there are none.
  \<^item> \<open>Calls\<close>: a request for the catalogue as the driver calls it makes, one a step (\<open>advance\<close>);
    \<open>Interleaving\<close>: any number of such requests at once among everything else the service does
    (\<open>flow\<close>, \<open>overlapping\<close>). \<open>Lifetime\<close>: such overlaps with imports in between.
  \<^item> \<open>Import\<close> (\<^verbatim>\<open>cmd/appstore-import/main.go\<close>): the tool that brings another registry's data
    into the platform's database, on a world of its own: the target's tables, one transaction, and
    the schedule of its calls. The source is an argument. What the core's schema does (the roles a
    new tenant comes with, \<^verbatim>\<open>lower\<close>) is the parameter \<open>core_schema\<close>, with \<open>core_laws\<close> what is
    asked of it: a role of a new tenant is that tenant's, and \<^verbatim>\<open>lower\<close> does what Go's does to an
    address in lower case. \<open>ImportCommand\<close>: the tool's command line, read by the rules of Go's
    \<^verbatim>\<open>flag\<close> package, and its exit status.

  What is proved about it:

  \<^item> \<open>Frames\<close>, \<open>Operations\<close>, \<open>Wellformed\<close>, \<open>Revision\<close>, \<open>Grants\<close>: invariants. The locale
    \<open>statement_closed\<close> asks that each statement keep a property of the world and \<open>operations\<close> that
    each operation of the store does; the second follows from the first, and what every operation
    keeps, every handler and every run keeps. The consistency of the tables, the meaning of the
    revision counter, the currency of the private documents, the ownership of apps and the
    history of reviews are each an interpretation of one of these contracts.
  \<^item> \<open>Cache\<close>: the contract of a cache of documents, met by the public and the private table.
  \<^item> \<open>Transactions\<close>: \<open>upsert_app_pure\<close> and \<open>decide_pure\<close>, the transactions as functions on the
    tables, and the simulation that a transaction does all of it or nothing.
  \<^item> \<open>CatalogLaws\<close>: \<open>build_pure\<close>, the document as a function of the tables, and \<open>newest\<close>, the
    reference for the selection loop. \<open>Serving\<close>: what the catalogue endpoint answers.
  \<^item> \<open>CatalogSpec\<close>, \<open>PlatformSpec\<close>, \<open>StoreSpec\<close>, \<open>ReviewSpec\<close>, \<open>HistorySpec\<close>, \<open>ServingSpec\<close>,
    \<open>AccessSpec\<close> and this theory hold most of the properties, with a concrete
    instance of each on the database of \<open>Demo\<close>; the others stand with the components below.
  \<^item> \<open>PublicationSpec\<close>: from a decision to the document, across the review module, the store and the
    catalogue: what is published is offered.
  \<^item> \<open>HandlerSpec\<close>: the status of a response, and revalidation by ETag. \<open>Answers\<close>: \<open>due\<close>, the
    decision table of the nine writing requests, which the handlers follow while the database answers.
  \<^item> \<open>References\<close>: no row names one that is not there, though no statement checks it: the handlers look
    up what they are about to name.
  \<^item> \<open>Calls\<close>: alone, the calls of a request do what its handler does. \<open>Interleaving\<close>: what
    every statement keeps (\<open>statement_closed\<close>) holds however requests overlap, and overlapping
    requests keep the public cache current. \<open>Lifetime\<close>: imports keep that too, and the history.
    \<open>Races\<close>: a revocation and a registration that are overtaken, which the code does not guard
    against. \<open>Rotation\<close>: after a change of the signing key the operator's rebuild reaches every
    public document, and no platform's.
  \<^item> \<open>Accountability\<close>: the audit trail against the tables. \<open>leaves\<close> is what a handler owes it, one entry
    or nothing changed, with a rule for each way the handlers are composed.
  \<^item> \<open>ReviewTrail\<close>: the trail and the versions tell one story; an invariant of the operations, since
    a version and its event are two statements of one transaction.
  \<^item> \<open>ImportPublishers\<close>, \<open>ImportCopies\<close>, \<open>ImportTables\<close>, \<open>ImportSpec\<close>: the import. The locale
    \<open>import_relation\<close> lifts a relation kept by each call to a whole run (what a run can add, what it
    leaves alone, that the tables stay consistent); the locale \<open>copying\<close> is the contract of the five
    statements that copy a row, from which \<open>copied_store\<close> follows, the copies as a function of the
    target. \<open>ImportCommand\<close>: nothing is written unless an argument asked for it.

  How the model reads the code:

  \<^item> A UUID is a number; PostgreSQL's reading and writing of one are \<open>pg_uuid\<close> and
    \<open>pg_uuid_text\<close>, which properties assume to be inverse (\<open>uuid_codec\<close>). SHA-256, Ed25519, the
    semantic-version comparison, manifest validation, JSON marshalling and the random source are
    parameters as well. The tables this repository does not create get their remaining columns from
    parameters (\<open>pg_app_defaults\<close> and the like); a unique index on versions is
    \<open>pg_version_clash\<close>.
  \<^item> A failed driver call has had no effect; the loss of an acknowledgement is not modelled. A
    transaction's statements see the instant of its \<^verbatim>\<open>BEGIN\<close>. In \<open>reachable\<close> a request is one
    step; in \<open>overlapping\<close> the calls of requests for the catalogue are steps, and so is each
    operation of the store the other handlers call. Two transactions are interleaved only in the
    registration that is overtaken, under PostgreSQL's default isolation.
  \<^item> In the import, a statement after one that has failed fails too (\<open>im_broken\<close>), and a reference
    the database refuses is a failing call of the schedule. Rows with one creation time are copied
    in the order of the source's table.
  \<^item> A JSON body arrives decoded, with \<open>None\<close> for one that is malformed or too large. The core's
    checks of the session (tenant, claims) are in the request. Text is ordered by bytes, as in the
    database's C collation. Log lines are not modelled, and an error that wraps another keeps the
    text its handler shows.
  \<^item> The revision is an unbounded integer; the cache's bound of 64 documents per channel is the
    constant of the code. No definition needs fuel: every loop of the code runs over a list.

  Not modelled: the core's server \<^verbatim>\<open>main.go\<close> hands over to, the translated labels of the menus,
  the import tool's timeout (a failing call stands for it; \<^verbatim>\<open>time.ParseDuration\<close> is a parameter),
  log lines, the catalogue's data and the deployment files.
\<close>

section \<open>Every run\<close>

text \<open>
  C12: the tables are consistent at every moment of a registry's life, however requests overlap,
  whichever driver calls fail and whatever is imported in between from a source in order
  (\<open>source_in_order\<close>). Unique are: ids and slugs of apps; ids, tenants and slugs of publishers; ids of
  versions; ids and token digests of platforms; the app and platform of a grant; platform, channel and
  version of a private document. The ids of publishers, versions and platforms lie below the next one to
  be given out. A published version has its date, a grant names an app and a platform on file, and a
  private document belongs to a platform on file. The other references are the subject of
  \<open>References\<close>.
\<close>

theorem tables_consistent:
  assumes "uuid_codec E" and "lifetime E C m s admits (w, jobs)"
  shows "distinct (map app_id (t_apps (tables w))) \<and> distinct (map app_slug (t_apps (tables w)))
    \<and> distinct (map pub_id (t_publishers (tables w))) \<and> distinct (map pl_id (t_platforms (tables w)))
    \<and> distinct (map (\<lambda>g. (gr_app g, gr_platform g)) (t_grants (tables w)))
    \<and> (\<forall>p\<in>set (t_publishers (tables w)). pub_id p < next_uuid w)
    \<and> (\<forall>p\<in>set (t_platforms (tables w)). pl_id p < next_uuid w)
    \<and> distinct (map pub_tenant (t_publishers (tables w))) \<and> distinct (map pub_slug (t_publishers (tables w)))
    \<and> distinct (map ver_id (t_versions (tables w))) \<and> distinct (map pl_digest (t_platforms (tables w)))
    \<and> (\<forall>v\<in>set (t_versions (tables w)). ver_id v < next_uuid w
         \<and> (ver_status v = ''published'' \<longrightarrow> ver_published_at v \<noteq> None))
    \<and> (\<forall>g\<in>set (t_grants (tables w)). gr_app g \<in> app_id ` set (t_apps (tables w))
         \<and> gr_platform g \<in> pl_id ` set (t_platforms (tables w)))
    \<and> (\<forall>p\<in>set (t_private (tables w)). fst p \<in> pl_id ` set (t_platforms (tables w)))
    \<and> distinct (map (\<lambda>p. (fst p, sn_channel (snd p), sn_platform (snd p))) (t_private (tables w)))"
  using lifetime_wf [OF assms]
  by (auto simp: wf_db_def wf_tables app_ids_def platform_ids_def is_published_def
      private_key_def [abs_def] snapshot_key_def)

text \<open>An import into an empty registry: one publisher, its app and a version.\<close>

definition opening_world :: world where
  "opening_world = boot_world\<lparr>next_uuid := 50\<rparr>"

definition opening_import :: importing where
  "opening_import = demo_importing\<lparr>im_target := (im_target demo_importing)\<lparr>tg_store := empty_db\<rparr>\<rparr>"

theorem tables_consistent_witness:
  "distinct (map ver_id (t_versions (tg_store (im_target
     (snd (import_run demo_env demo_core demo_source False opening_import))))))"
proof -
  obtain res v' where r: "import_run demo_env demo_core demo_source False opening_import = (res, v')" by fastforce
  have "lifetime demo_env demo_core demo_module demo_signer (\<lambda>_. True) (opening_world, [])"
    by (rule lifetime.opens) (simp_all add: opening_world_def boot_world_def)
  moreover have "life demo_env demo_core demo_module demo_signer (\<lambda>_. True) (opening_world, [])
      (opening_world\<lparr>tables := tg_store (im_target v'), next_uuid := im_next v'\<rparr>, [])"
    by (rule life.imported [OF _ _ _ r])
      (simp_all add: opening_import_def opening_world_def boot_world_def demo_importing_def source_in_order_def
        demo_source_def demo_source_publisher_def)
  ultimately have "lifetime demo_env demo_core demo_module demo_signer (\<lambda>_. True)
      (opening_world\<lparr>tables := tg_store (im_target v'), next_uuid := im_next v'\<rparr>, [])"
    by (rule lifetime.lives)
  from tables_consistent [OF demo_codec this] show ?thesis by (simp add: r)
qed

text \<open>
  C17: the revision tells the truth. No request lowers it, and a request that leaves it where it was
  has left every document, of every audience, as it was.
\<close>

theorem revision_covers_content:
  assumes "uuid_codec E" and "t_revision (tables w) = Some rv"
  shows "\<exists>rv'\<ge>rv. t_revision (tables (perform E m c w)) = Some rv'
    \<and> (rv' = rv \<longrightarrow> (\<forall>s channel platform n aud.
         build_pure E s channel platform n aud (tables (perform E m c w)) =
         build_pure E s channel platform n aud (tables w)))"
proof -
  from perform_rev_step [OF assms(1), of w m c] assms(2) obtain rv' where
    "t_revision (tables (perform E m c w)) = Some rv'" and "rv \<le> rv'"
    and c: "rv' = rv \<Longrightarrow> content (tables (perform E m c w)) = content (tables w)"
    unfolding rev_step_def by auto
  moreover note build_pure_content [OF c]
  ultimately show ?thesis by (intro exI [of _ rv'] conjI allI impI)
qed

theorem revision_covers_content_witness:
  "\<exists>rv'\<ge>0. t_revision (tables (perform demo_env demo_module
     (Decision (demo_request\<lparr>rq_param := (\<lambda>_. ''xxxxxx'')\<rparr>) (Some \<lparr>de_action = ''publish'', de_note = []\<rparr>))
     demo_world)) = Some rv'"
  using revision_covers_content [OF demo_codec, of demo_world 0 demo_module "Decision
      (demo_request\<lparr>rq_param := (\<lambda>_. ''xxxxxx'')\<rparr>) (Some \<lparr>de_action = ''publish'', de_note = []\<rparr>)"]
  by (auto simp: demo_world_def demo_db_def empty_db_def)

end
